(* ===== verification/Prelude.thy ===== *)
theory Prelude
  imports Complex_Main "HOL-Library.AList" "HOL-Library.Word" "HOL-Library.Multiset"
begin

text \<open>
  Shared ground of the development: the names of the Python types the program uses, its
  exceptions as values, the list slices whose negative bounds count from the end, dictionaries
  as association lists in insertion order, decimal rendering of integers, and the generic
  polling loop \<open>while clock() < deadline\<close> that several components contain.

  Conventions.  A Python \<open>str\<close> is a \<^typ>\<open>string\<close>, \<open>bytes\<close> is a list of
  \<open>8 word\<close>, an \<open>int\<close> is an \<^typ>\<open>int\<close> and a \<open>float\<close> number of seconds is a
  \<^typ>\<open>rat\<close> (rounding of floats is not modelled).  A call that may raise returns
  \<open>exn + 'a\<close>.
\<close>

section \<open>Types and hint collections\<close>

named_theorems dict_simps "lookups in dictionaries after an update or a deletion"
named_theorems slice_simps "Python slices with bounds of known sign"

type_synonym bytes = "8 word list"
type_synonym seconds = rat

text \<open>
  The exceptions the program raises or catches.  The predicates below are its \<open>except\<close>
  clauses: \<open>FileNotFoundError\<close> and the builtin \<open>TimeoutError\<close> are subclasses of
  \<open>OSError\<close>, \<open>binascii.Error\<close> and \<open>JSONDecodeError\<close> of \<open>ValueError\<close>;
  \<open>RpcAbort\<close> is the bare exception by which \<open>context.abort\<close> leaves a handler.
\<close>

datatype exn =
    ValueError string
  | KeyError string
  | IndexError
  | TypeError
  | AttributeError
  | RuntimeError string
  | TimeoutError string
  | OSError
  | FileNotFoundError
  | CalledProcessError
  | TimeoutExpired
  | StructError
  | ZlibError
  | RpcAbort
  | OtherError string

definition is_os_error :: "exn \<Rightarrow> bool" where
  "is_os_error e = (case e of OSError \<Rightarrow> True | FileNotFoundError \<Rightarrow> True
     | TimeoutError _ \<Rightarrow> True | _ \<Rightarrow> False)"

type_synonym 'a result = "exn + 'a"

text \<open>What \<open>subprocess.run(..., capture_output=True, text=True)\<close> returns.\<close>

record completed =
  returncode :: int
  stdout :: string
  stderr :: string

definition quote :: "string \<Rightarrow> string" where
  "quote s = [CHR 0x27] @ s @ [CHR 0x27]"

section \<open>Slices\<close>

text \<open>\<open>xs[:n]\<close> and \<open>xs[-n:]\<close>; in Python \<open>xs[-0:]\<close> is the whole list.\<close>

definition slice_to :: "'a list \<Rightarrow> int \<Rightarrow> 'a list" where
  "slice_to xs n = (if 0 \<le> n then take (nat n) xs else take (length xs - nat (- n)) xs)"

definition slice_last :: "'a list \<Rightarrow> int \<Rightarrow> 'a list" where
  "slice_last xs n = (if 0 < n then drop (length xs - nat n) xs else drop (nat (- n)) xs)"

lemma slice_to_nonneg [slice_simps]: "0 \<le> n \<Longrightarrow> slice_to xs n = take (nat n) xs"
  by (simp add: slice_to_def)

lemma slice_to_neg [slice_simps]:
  "n < 0 \<Longrightarrow> slice_to xs n = take (length xs - nat (- n)) xs"
  by (simp add: slice_to_def)

lemma slice_last_pos [slice_simps]: "0 < n \<Longrightarrow> slice_last xs n = drop (length xs - nat n) xs"
  by (simp add: slice_last_def)

lemma set_slice_to: "set (slice_to xs n) \<subseteq> set xs"
  by (auto simp: slice_to_def dest: in_set_takeD)

lemma set_slice_last: "set (slice_last xs n) \<subseteq> set xs"
  by (auto simp: slice_last_def dest: in_set_dropD)

lemma length_slice_last: "0 < n \<Longrightarrow> length (slice_last xs n) = min (nat n) (length xs)"
  by (simp add: slice_simps)

section \<open>Times\<close>

text \<open>\<open>int(x)\<close> truncates towards zero; \<open>int(time.time() * 1000)\<close> stamps events.\<close>

definition py_int :: "rat \<Rightarrow> int" where
  "py_int x = (if 0 \<le> x then \<lfloor>x\<rfloor> else \<lceil>x\<rceil>)"

definition to_ms :: "seconds \<Rightarrow> int" where
  "to_ms t = py_int (t * 1000)"

text \<open>\<open>round\<close> to an integer: to the nearest, halves to the even one.\<close>

definition py_round :: "rat \<Rightarrow> int" where
  "py_round x =
     (let f = \<lfloor>x\<rfloor>; r = x - of_int f
      in if r < 1 / 2 then f else if r > 1 / 2 then f + 1 else if even f then f else f + 1)"

section \<open>Dictionaries\<close>

text \<open>
  A Python \<open>dict\<close> keeps insertion order: assigning to a present key keeps its place,
  a new key goes to the end.  \<^const>\<open>AList.update\<close> and \<^const>\<open>AList.delete\<close> do exactly
  that; \<^const>\<open>map_of\<close> is the lookup.
\<close>

type_synonym ('k, 'v) dict = "('k \<times> 'v) list"

abbreviation dict_get :: "('k, 'v) dict \<Rightarrow> 'k \<Rightarrow> 'v option" where
  "dict_get d k \<equiv> map_of d k"

abbreviation dict_set :: "'k \<Rightarrow> 'v \<Rightarrow> ('k, 'v) dict \<Rightarrow> ('k, 'v) dict" where
  "dict_set k v d \<equiv> AList.update k v d"

abbreviation dict_pop :: "'k \<Rightarrow> ('k, 'v) dict \<Rightarrow> ('k, 'v) dict" where
  "dict_pop k d \<equiv> AList.delete k d"

abbreviation keys :: "('k, 'v) dict \<Rightarrow> 'k list" where
  "keys d \<equiv> map fst d"

abbreviation wf_dict :: "('k, 'v) dict \<Rightarrow> bool" where
  "wf_dict d \<equiv> distinct (keys d)"

lemma dict_get_set [dict_simps]: "dict_get (dict_set k v d) = (dict_get d)(k \<mapsto> v)"
  by (simp add: update_conv' fun_eq_iff)

lemma dict_get_pop [dict_simps]: "dict_get (dict_pop k d) = (dict_get d)(k := None)"
  by (simp add: delete_conv' fun_eq_iff)

lemma wf_dict_set [simp, intro]: "wf_dict d \<Longrightarrow> wf_dict (dict_set k v d)"
  by (rule distinct_update)

lemma wf_dict_pop [simp, intro]: "wf_dict d \<Longrightarrow> wf_dict (dict_pop k d)"
  by (rule distinct_delete)

lemma dict_get_None_iff: "dict_get d k = None \<longleftrightarrow> k \<notin> set (keys d)"
  by (simp add: map_of_eq_None_iff)

lemma dict_get_in: "dict_get d k = Some v \<Longrightarrow> (k, v) \<in> set d"
  by (rule map_of_SomeD)

lemma dict_get_iff: "wf_dict d \<Longrightarrow> dict_get d k = Some v \<longleftrightarrow> (k, v) \<in> set d"
  by (rule map_of_eq_Some_iff)

lemma dict_set_new: "k \<notin> set (keys d) \<Longrightarrow> dict_set k v d = d @ [(k, v)]"
  by (induction d) auto

lemma keys_dict_set_old: "k \<in> set (keys d) \<Longrightarrow> keys (dict_set k v d) = keys d"
  by (induction d) auto

lemma set_keys_set [simp]: "set (keys (dict_set k v d)) = insert k (set (keys d))"
  by (induction d) auto

lemma image_fst_set [simp]: "fst ` set (dict_set k v d) = insert k (fst ` set d)"
  using set_keys_set [of k v d] by simp

lemma set_keys_pop [simp]: "set (keys (dict_pop k d)) = set (keys d) - {k}"
  by (induction d) auto

lemma image_fst_pop [simp]: "fst ` set (dict_pop k d) = fst ` set d - {k}"
  using set_keys_pop [of k d] by simp

section \<open>Decimal rendering\<close>

text \<open>\<open>str(n)\<close> for an integer, as the f-strings of the program use it.\<close>

definition digit :: "nat \<Rightarrow> char" where
  "digit n = char_of (48 + n)"

fun show_nat :: "nat \<Rightarrow> string" where
  "show_nat n = (if n < 10 then [digit n] else show_nat (n div 10) @ [digit (n mod 10)])"

declare show_nat.simps [simp del]

definition show_int :: "int \<Rightarrow> string" where
  "show_int i = (if i < 0 then CHR ''-'' # show_nat (nat (- i)) else show_nat (nat i))"

lemma digit_inj: "m < 10 \<Longrightarrow> n < 10 \<Longrightarrow> digit m = digit n \<longleftrightarrow> m = n"
proof -
  assume m: "m < 10" and n: "n < 10"
  have "(of_char (digit m) :: nat) = 48 + m" "(of_char (digit n) :: nat) = 48 + n"
    using m n by (simp_all add: digit_def)
  then show ?thesis by (metis add_left_cancel)
qed

lemma show_nat_not_empty [simp]: "show_nat n \<noteq> []"
  by (subst show_nat.simps) simp

lemma show_nat_snoc: "\<not> n < 10 \<Longrightarrow> show_nat n = show_nat (n div 10) @ [digit (n mod 10)]"
  by (subst show_nat.simps) simp

lemma show_nat_small: "n < 10 \<Longrightarrow> show_nat n = [digit n]"
  by (subst show_nat.simps) simp

lemma digit_literals:
  "digit 0 = CHR ''0''" "digit (Suc 0) = CHR ''1''" "digit 1 = CHR ''1''" "digit 2 = CHR ''2''"
  "digit 3 = CHR ''3''" "digit 4 = CHR ''4''" "digit 5 = CHR ''5''" "digit 6 = CHR ''6''"
  "digit 7 = CHR ''7''" "digit 8 = CHR ''8''" "digit 9 = CHR ''9''"
  by (simp_all add: digit_def char_of_def bit_0)

lemmas show_simps = show_int_def show_nat_snoc show_nat_small digit_literals

lemma length_show_nat: "length (show_nat n) = Suc 0 \<longleftrightarrow> n < 10"
  by (cases "n < 10") (simp_all add: show_nat_small show_nat_snoc)

lemma show_nat_inj: "show_nat m = show_nat n \<Longrightarrow> m = n"
proof (induction m arbitrary: n rule: show_nat.induct)
  case (1 m)
  from "1.prems" have small: "m < 10 \<longleftrightarrow> n < 10"
    using length_show_nat by metis
  show ?case
  proof (cases "m < 10")
    case True
    with small "1.prems" show ?thesis by (simp add: show_nat_small digit_inj)
  next
    case False
    with small "1.prems" have "show_nat (m div 10) = show_nat (n div 10)"
      and "digit (m mod 10) = digit (n mod 10)"
      by (simp_all add: show_nat_snoc)
    with "1.IH" False have "m div 10 = n div 10" and "m mod 10 = n mod 10"
      by (simp_all add: digit_inj)
    then show ?thesis by (metis div_mult_mod_eq)
  qed
qed

lemma digit_not_minus: "n < 10 \<Longrightarrow> digit n \<noteq> CHR ''-''"
proof
  assume "n < 10" and "digit n = CHR ''-''"
  then have "(of_char (digit n) :: nat) = 45" by simp
  with \<open>n < 10\<close> show False by (simp add: digit_def)
qed

lemma hd_show_nat: "\<exists>d < 10. hd (show_nat n) = digit d"
proof (induction n rule: show_nat.induct)
  case (1 n)
  then show ?case by (cases "n < 10") (auto simp: show_nat_small show_nat_snoc)
qed

lemma show_int_inj: "show_int i = show_int j \<Longrightarrow> i = j"
proof -
  have minus: "show_nat k \<noteq> CHR ''-'' # zs" for k zs
    using hd_show_nat [of k] digit_not_minus by (metis list.sel(1))
  assume "show_int i = show_int j"
  then show ?thesis
    using minus minus [symmetric]
    by (auto simp: show_int_def split: if_splits dest!: show_nat_inj)
qed

section \<open>Loops that may not end\<close>

text \<open>
  A \<open>while\<close> loop whose body depends on the outside world.  The \<open>k\<close>-th run of the
  body, on the loop's state, goes on with a new state (\<open>Inl\<close>) or leaves the loop with a result
  (\<open>Inr\<close>); the loop's value is \<open>None\<close> when it never leaves.  \<open>loop_at body s n\<close> is
  where the loop stands before its \<open>n\<close>-th run.
\<close>

partial_function (option) loop :: "(nat \<Rightarrow> 's \<Rightarrow> 's + 'r) \<Rightarrow> nat \<Rightarrow> 's \<Rightarrow> 'r option" where
  "loop body k s = (case body k s of Inl s' \<Rightarrow> loop body (Suc k) s' | Inr r \<Rightarrow> Some r)"

fun loop_at :: "(nat \<Rightarrow> 's \<Rightarrow> 's + 'r) \<Rightarrow> 's \<Rightarrow> nat \<Rightarrow> 's + 'r" where
  "loop_at body s 0 = Inl s"
| "loop_at body s (Suc n) = (case loop_at body s n of Inl s' \<Rightarrow> body n s' | Inr r \<Rightarrow> Inr r)"

lemma loop_reaches: "loop_at body s n = Inl s' \<Longrightarrow> loop body 0 s = loop body n s'"
proof (induction n arbitrary: s')
  case 0
  then show ?case by simp
next
  case (Suc n)
  then obtain u where u: "loop_at body s n = Inl u" "body n u = Inl s'"
    by (auto split: sum.splits)
  from Suc.IH [OF u(1)] u(2) show ?case by (simp add: loop.simps [of body n])
qed

lemma loop_result: "loop_at body s n = Inr r \<Longrightarrow> loop body 0 s = Some r"
proof (induction n)
  case 0
  then show ?case by simp
next
  case (Suc n)
  show ?case
  proof (cases "loop_at body s n")
    case (Inl u)
    with Suc.prems loop_reaches [OF Inl] show ?thesis by (simp add: loop.simps [of body n])
  next
    case (Inr q)
    with Suc show ?thesis by simp
  qed
qed

lemma loop_Some_iff: "loop body 0 s = Some r \<longleftrightarrow> (\<exists>n. loop_at body s n = Inr r)"
proof
  assume ret: "loop body 0 s = Some r"
  have "\<forall>s0. loop_at body s0 0 = Inl s \<longrightarrow> (\<exists>n. loop_at body s0 n = Inr r)"
  proof (rule loop.raw_induct
      [where P = "\<lambda>body k s r. \<forall>s0. loop_at body s0 k = Inl s \<longrightarrow> (\<exists>n. loop_at body s0 n = Inr r)",
        OF _ ret])
    fix f :: "(nat \<Rightarrow> 's \<Rightarrow> 's + 'r) \<Rightarrow> nat \<Rightarrow> 's \<Rightarrow> 'r option"
    fix body k s r
    assume IH: "\<And>body k s r. f body k s = Some r \<Longrightarrow>
        \<forall>s0. loop_at body s0 k = Inl s \<longrightarrow> (\<exists>n. loop_at body s0 n = Inr r)"
      and eq: "(case body k s of Inl s' \<Rightarrow> f body (Suc k) s' | Inr r \<Rightarrow> Some r) = Some r"
    show "\<forall>s0. loop_at body s0 k = Inl s \<longrightarrow> (\<exists>n. loop_at body s0 n = Inr r)"
    proof (intro allI impI)
      fix s0
      assume at: "loop_at body s0 k = Inl s"
      show "\<exists>n. loop_at body s0 n = Inr r"
      proof (cases "body k s")
        case (Inl s')
        with at have "loop_at body s0 (Suc k) = Inl s'" by simp
        with IH eq Inl show ?thesis by fastforce
      next
        case (Inr q)
        with at eq have "loop_at body s0 (Suc k) = Inr r" by simp
        then show ?thesis ..
      qed
    qed
  qed
  then show "\<exists>n. loop_at body s n = Inr r" by simp
qed (auto intro: loop_result)

lemma loop_exit:
  assumes "loop body 0 s = Some r"
  obtains n s' where "loop_at body s n = Inl s'" "body n s' = Inr r"
proof -
  from assms obtain n where "loop_at body s n = Inr r" by (auto simp: loop_Some_iff)
  then have "\<exists>n s'. loop_at body s n = Inl s' \<and> body n s' = Inr r"
  proof (induction n)
    case (Suc n)
    then show ?case by (cases "loop_at body s n") auto
  qed simp
  with that show thesis by blast
qed

lemma loop_enter: "loop_at body s n = Inl s' \<Longrightarrow> body n s' = Inr r \<Longrightarrow> loop body 0 s = Some r"
  by (rule loop_result [where n = "Suc n"]) simp

lemma loop_at_mono: "loop_at body s n = Inl s' \<Longrightarrow> m \<le> n \<Longrightarrow> \<exists>u. loop_at body s m = Inl u"
proof (induction n arbitrary: s')
  case (Suc n)
  then show ?case by (cases "m = Suc n") (auto split: sum.splits)
qed simp

lemma loop_invariant:
  assumes "loop_at body s n = Inl s'" "I s"
    and "\<And>k u u'. I u \<Longrightarrow> body k u = Inl u' \<Longrightarrow> I u'"
  shows "I s'"
  using assms(1)
proof (induction n arbitrary: s')
  case (Suc n)
  then show ?case using assms(3) by (auto split: sum.splits)
qed (use assms(2) in simp)

text \<open>A run that always leaves ends the loop.\<close>

lemma loop_terminates:
  assumes "\<exists>n. \<forall>s. \<exists>r. body n s = Inr r"
  shows "\<exists>r. loop body 0 s = Some r"
proof -
  from assms obtain n where n: "\<forall>s. \<exists>r. body n s = Inr r" by blast
  then obtain r where "loop_at body s (Suc n) = Inr r"
    by (cases "loop_at body s n") auto
  then have "loop body 0 s = Some r" by (rule loop_result)
  then show ?thesis ..
qed

section \<open>Polling until a deadline\<close>

text \<open>
  The loop the program writes as
  \<^verbatim>\<open>while clock() < deadline: { if probe: return v; sleep }; give up\<close>.
  The \<open>k\<close>-th evaluation of the guard reads \<open>clk k\<close> and the \<open>k\<close>-th run of the body
  observes \<open>probe k\<close>.  The result is \<open>None\<close> when the loop never ends,
  \<open>Some None\<close> when the deadline passes, and \<open>Some (Some v)\<close> when a probe succeeds.
\<close>

definition poll_body ::
  "(nat \<Rightarrow> seconds) \<Rightarrow> seconds \<Rightarrow> (nat \<Rightarrow> 'a option) \<Rightarrow> nat \<Rightarrow> unit \<Rightarrow> unit + 'a option" where
  "poll_body clk deadline probe k s =
     (if clk k < deadline
      then (case probe k of Some v \<Rightarrow> Inr (Some v) | None \<Rightarrow> Inl ())
      else Inr None)"

definition poll_until ::
  "(nat \<Rightarrow> seconds) \<Rightarrow> seconds \<Rightarrow> (nat \<Rightarrow> 'a option) \<Rightarrow> 'a option option" where
  "poll_until clk deadline probe = loop (poll_body clk deadline probe) 0 ()"

text \<open>The loop is still running before its \<open>n\<close>-th guard.\<close>

definition polling :: "(nat \<Rightarrow> seconds) \<Rightarrow> seconds \<Rightarrow> (nat \<Rightarrow> 'a option) \<Rightarrow> nat \<Rightarrow> bool" where
  "polling clk deadline probe n \<longleftrightarrow> (\<forall>j < n. clk j < deadline \<and> probe j = None)"

lemma loop_at_polling: "loop_at (poll_body clk d probe) () n = Inl () \<longleftrightarrow> polling clk d probe n"
proof (induction n)
  case (Suc n)
  then show ?case
    by (auto simp: polling_def poll_body_def less_Suc_eq split: sum.splits option.splits if_splits)
qed (simp add: polling_def)

text \<open>The loop succeeds exactly when some probe does before any guard sees the deadline.\<close>

lemma poll_until_Some_iff:
  "poll_until clk d probe = Some (Some v) \<longleftrightarrow>
     (\<exists>n. polling clk d probe n \<and> clk n < d \<and> probe n = Some v)"
proof
  assume "poll_until clk d probe = Some (Some v)"
  then obtain n u where "loop_at (poll_body clk d probe) () n = Inl u"
      and "poll_body clk d probe n u = Inr (Some v)"
    unfolding poll_until_def by (rule loop_exit)
  then show "\<exists>n. polling clk d probe n \<and> clk n < d \<and> probe n = Some v"
    by (auto simp: poll_body_def loop_at_polling [symmetric] split: if_splits option.splits)
next
  assume "\<exists>n. polling clk d probe n \<and> clk n < d \<and> probe n = Some v"
  then show "poll_until clk d probe = Some (Some v)"
    by (auto simp: poll_until_def poll_body_def loop_at_polling [symmetric] intro: loop_enter)
qed

lemma poll_until_None_iff:
  "poll_until clk d probe = Some None \<longleftrightarrow> (\<exists>n. polling clk d probe n \<and> d \<le> clk n)"
proof
  assume "poll_until clk d probe = Some None"
  then obtain n u where "loop_at (poll_body clk d probe) () n = Inl u"
      and "poll_body clk d probe n u = Inr None"
    unfolding poll_until_def by (rule loop_exit)
  then show "\<exists>n. polling clk d probe n \<and> d \<le> clk n"
    by (auto simp: poll_body_def loop_at_polling [symmetric] split: if_splits option.splits)
next
  assume "\<exists>n. polling clk d probe n \<and> d \<le> clk n"
  then show "poll_until clk d probe = Some None"
    by (auto simp: poll_until_def poll_body_def loop_at_polling [symmetric] intro: loop_enter)
qed

text \<open>A clock that reaches the deadline ends the loop.\<close>

lemma poll_until_returns:
  assumes "\<exists>n. d \<le> clk n"
  shows "\<exists>r. poll_until clk d probe = Some r"
  unfolding poll_until_def
proof (rule loop_terminates)
  from assms obtain n where "\<not> clk n < d" using not_less by blast
  then show "\<exists>n. \<forall>s. \<exists>r. poll_body clk d probe n s = Inr r"
    by (intro exI [of _ n]) (simp add: poll_body_def)
qed

lemma poll_until_cases:
  assumes "\<exists>n. d \<le> clk n"
  obtains (hit) n v where "poll_until clk d probe = Some (Some v)" "polling clk d probe n"
      "clk n < d" "probe n = Some v"
    | (timeout) n where "poll_until clk d probe = Some None" "polling clk d probe n" "d \<le> clk n"
proof -
  from poll_until_returns [OF assms] obtain r where r: "poll_until clk d probe = Some r" by blast
  then show thesis
    using hit timeout poll_until_None_iff [of clk d probe] poll_until_Some_iff [of clk d probe]
    by (cases r) blast+
qed

end
