(* ===== verification/Base64.thy ===== *)
theory Base64
  imports Prelude
begin

text \<open>
  Python's \<^verbatim>\<open>base64.b64encode\<close> and \<^verbatim>\<open>base64.b64decode\<close> as the tool handlers use
  them (\<^verbatim>\<open>mcp/src/handlers.py\<close>): the decoder is the lenient one, which skips characters
  outside the alphabet, stops at a complete padding and raises \<open>binascii.Error\<close> on an
  incomplete last group.  The main lemma is the round trip.
\<close>

unbundle bit_operations_syntax

section \<open>The alphabet\<close>

definition b64_alphabet :: string where
  "b64_alphabet = ''ABCDEFGHIJKLMNOPQRSTUVWXYZabcdefghijklmnopqrstuvwxyz0123456789+/''"

definition b64_char :: "8 word \<Rightarrow> char" where
  "b64_char w = b64_alphabet ! unat w"

fun index_in :: "char \<Rightarrow> string \<Rightarrow> nat \<Rightarrow> nat option" where
  "index_in c [] n = None"
| "index_in c (d # ds) n = (if c = d then Some n else index_in c ds (Suc n))"

definition b64_value :: "char \<Rightarrow> 8 word option" where
  "b64_value c = map_option of_nat (index_in c b64_alphabet 0)"

section \<open>Encoding\<close>

text \<open>The four sextets of three bytes; a missing byte counts as zero.\<close>

definition sextet1 :: "8 word \<Rightarrow> 8 word" where
  "sextet1 a = drop_bit 2 a"

definition sextet2 :: "8 word \<Rightarrow> 8 word \<Rightarrow> 8 word" where
  "sextet2 a b = push_bit 4 (a AND 3) OR drop_bit 4 b"

definition sextet3 :: "8 word \<Rightarrow> 8 word \<Rightarrow> 8 word" where
  "sextet3 b c = push_bit 2 (b AND 15) OR drop_bit 6 c"

definition sextet4 :: "8 word \<Rightarrow> 8 word" where
  "sextet4 c = c AND 63"

fun b64encode :: "bytes \<Rightarrow> string" where
  "b64encode [] = []"
| "b64encode [a] = [b64_char (sextet1 a), b64_char (sextet2 a 0), CHR ''='', CHR ''='']"
| "b64encode [a, b] =
     [b64_char (sextet1 a), b64_char (sextet2 a b), b64_char (sextet3 b 0), CHR ''='']"
| "b64encode (a # b # c # rest) =
     [b64_char (sextet1 a), b64_char (sextet2 a b), b64_char (sextet3 b c), b64_char (sextet4 c)]
       @ b64encode rest"

section \<open>Decoding\<close>

text \<open>The state of the decoder: position in the group of four, bits left over, padding seen.\<close>

record b64_state =
  quad_pos :: nat
  leftchar :: "8 word"
  pads :: nat

definition b64_start :: b64_state where
  "b64_start = \<lparr>quad_pos = 0, leftchar = 0, pads = 0\<rparr>"

fun a2b_base64 :: "b64_state \<Rightarrow> string \<Rightarrow> bytes result" where
  "a2b_base64 s [] =
     (if quad_pos s = 0 then Inr []
      else if quad_pos s = 1
      then Inl (ValueError ''Invalid base64-encoded string'')
      else Inl (ValueError ''Incorrect padding''))"
| "a2b_base64 s (c # cs) =
     (if c = CHR ''='' then
        (if quad_pos s \<ge> 2 then
           (if quad_pos s + Suc (pads s) \<ge> 4 then Inr []
            else a2b_base64 (s\<lparr>pads := Suc (pads s)\<rparr>) cs)
         else a2b_base64 s cs)
      else case b64_value c of
          None \<Rightarrow> a2b_base64 s cs
        | Some v \<Rightarrow>
            (if quad_pos s = 0
             then a2b_base64 \<lparr>quad_pos = 1, leftchar = v, pads = 0\<rparr> cs
             else if quad_pos s = 1
             then map_sum id ((#) (push_bit 2 (leftchar s) OR drop_bit 4 v))
                    (a2b_base64 \<lparr>quad_pos = 2, leftchar = v AND 15, pads = 0\<rparr> cs)
             else if quad_pos s = 2
             then map_sum id ((#) (push_bit 4 (leftchar s) OR drop_bit 2 v))
                    (a2b_base64 \<lparr>quad_pos = 3, leftchar = v AND 3, pads = 0\<rparr> cs)
             else map_sum id ((#) (push_bit 6 (leftchar s) OR v))
                    (a2b_base64 \<lparr>quad_pos = 0, leftchar = 0, pads = 0\<rparr> cs)))"

definition is_ascii :: "string \<Rightarrow> bool" where
  "is_ascii s \<longleftrightarrow> list_all (\<lambda>c. (of_char c :: nat) < 128) s"

definition b64decode :: "string \<Rightarrow> bytes result" where
  "b64decode s =
     (if is_ascii s then a2b_base64 b64_start s
      else Inl (ValueError ''string argument should contain only ASCII characters''))"

section \<open>Round trip\<close>

lemma b64_table_check:
  "list_all (\<lambda>n. b64_value (b64_alphabet ! n) = Some (of_nat n) \<and> b64_alphabet ! n \<noteq> CHR ''='' \<and>
     (of_char (b64_alphabet ! n) :: nat) < 128) [0..<64]"
  by code_simp

lemma b64_char_facts:
  assumes "w < 64"
  shows "b64_value (b64_char w) = Some w" "b64_char w \<noteq> CHR ''=''" "(of_char (b64_char w) :: nat) < 128"
proof -
  have "unat w < 64" using assms by (simp add: word_less_nat_alt)
  then have "unat w \<in> set [0..<64]" by simp
  with b64_table_check have "b64_value (b64_alphabet ! unat w) = Some (of_nat (unat w)) \<and>
      b64_alphabet ! unat w \<noteq> CHR ''='' \<and> (of_char (b64_alphabet ! unat w) :: nat) < 128"
    unfolding list_all_iff by (rule bspec)
  then show "b64_value (b64_char w) = Some w" "b64_char w \<noteq> CHR ''=''" "(of_char (b64_char w) :: nat) < 128"
    by (simp_all add: b64_char_def)
qed

lemma less64:
  assumes "(w :: 8 word) AND 63 = w"
  shows "w < 64"
proof -
  have "w AND 63 = take_bit 6 w" by (simp add: take_bit_eq_mask mask_eq_decr_exp)
  with assms have "unat w = unat (take_bit 6 w)" by simp
  also have "\<dots> = take_bit 6 (unat w)" by (simp add: unsigned_take_bit_eq)
  also have "\<dots> < 64" by (simp add: take_bit_nat_def)
  finally show ?thesis by (simp add: word_less_nat_alt)
qed

lemma less_8_cases: "n < 8 \<Longrightarrow> n = 0 \<or> n = 1 \<or> n = 2 \<or> n = 3 \<or> n = 4 \<or> n = 5 \<or> n = 6 \<or> n = (7 :: nat)"
  by auto

lemma byte_eqI:
  fixes v w :: "8 word"
  assumes "bit v 0 = bit w 0" "bit v 1 = bit w 1" "bit v 2 = bit w 2" "bit v 3 = bit w 3"
    "bit v 4 = bit w 4" "bit v 5 = bit w 5" "bit v 6 = bit w 6" "bit v 7 = bit w 7"
  shows "v = w"
  by (rule bit_word_eqI) (use assms less_8_cases in auto)

lemma mask_bits:
  "bit (3 :: 8 word) n \<longleftrightarrow> n < 2" "bit (15 :: 8 word) n \<longleftrightarrow> n < 4" "bit (63 :: 8 word) n \<longleftrightarrow> n < 6"
proof -
  have m: "(3 :: 8 word) = mask 2" "(15 :: 8 word) = mask 4" "(63 :: 8 word) = mask 6"
    by (simp_all add: mask_eq_decr_exp)
  show "bit (3 :: 8 word) n \<longleftrightarrow> n < 2" "bit (15 :: 8 word) n \<longleftrightarrow> n < 4" "bit (63 :: 8 word) n \<longleftrightarrow> n < 6"
    unfolding m by (auto simp: bit_mask_iff)
qed

lemma no_bit [simp]: "\<not> bit (w :: 8 word) 8" "\<not> bit (w :: 8 word) 9"
  "\<not> bit (w :: 8 word) 10" "\<not> bit (w :: 8 word) 11"
  "\<not> bit (w :: 8 word) 12" "\<not> bit (w :: 8 word) 13"
  using bit_imp_le_length [of w] by fastforce+

lemmas byte_bits = bit_and_iff bit_or_iff bit_push_bit_iff bit_drop_bit_eq mask_bits
  sextet1_def sextet2_def sextet3_def sextet4_def

lemma sextets_small [simp]: "sextet1 a < 64" "sextet2 a b < 64" "sextet3 b c < 64" "sextet4 c < 64"
  by ((rule less64, rule byte_eqI; simp add: byte_bits)+)

text \<open>The four sextets of three bytes, read back.\<close>

lemma sextets_join:
  "push_bit 2 (sextet1 a) OR drop_bit 4 (sextet2 a b) = a"
  "push_bit 4 (sextet2 a b AND 15) OR drop_bit 2 (sextet3 b c) = b"
  "push_bit 6 (sextet3 b c AND 3) OR sextet4 c = c"
  by ((rule byte_eqI; simp add: byte_bits)+)

lemma a2b_encode: "a2b_base64 b64_start (b64encode bs) = Inr bs"
  by (induction bs rule: b64encode.induct) (simp_all add: b64_start_def b64_char_facts sextets_join del: push_bit_and)

lemma ascii_encode: "is_ascii (b64encode bs)"
  by (induction bs rule: b64encode.induct) (simp_all add: is_ascii_def b64_char_facts(3))

lemma b64decode_encode [simp]: "b64decode (b64encode bs) = Inr bs"
  by (simp add: b64decode_def a2b_encode ascii_encode)

lemma b64encode_inj: "b64encode xs = b64encode ys \<Longrightarrow> xs = ys"
  using b64decode_encode by (metis sum.inject(2))

end
