(* ===== verification/Py_Strings.thy ===== *)
theory Py_Strings
  imports Prelude
begin

text \<open>
  The string and path functions of the Python library that the program uses, on strings whose
  characters are the code points below 256: \<open>strip\<close>, \<open>splitlines\<close>, \<open>join\<close>,
  \<open>lower\<close>, \<open>startswith\<close>, \<open>partition\<close>, \<open>os.path.basename\<close>,
  \<open>os.path.splitext\<close>, and \<open>int\<close> of a string.
\<close>

section \<open>Characters\<close>

definition code :: "char \<Rightarrow> nat" where
  "code c = of_char c"

text \<open>\<open>str.isspace\<close> and the line boundaries of \<open>str.splitlines\<close>, below 256.\<close>

definition is_space :: "char \<Rightarrow> bool" where
  "is_space c \<longleftrightarrow> code c \<in> {9, 10, 11, 12, 13, 28, 29, 30, 31, 32, 133, 160}"

definition is_line_end :: "char \<Rightarrow> bool" where
  "is_line_end c \<longleftrightarrow> code c \<in> {10, 11, 12, 13, 28, 29, 30, 133}"

abbreviation newline :: char where
  "newline \<equiv> CHR 0x0A"

abbreviation carriage_return :: char where
  "carriage_return \<equiv> CHR 0x0D"

section \<open>Strings\<close>

definition strip :: "string \<Rightarrow> string" where
  "strip s = rev (dropWhile is_space (rev (dropWhile is_space s)))"

function splitlines :: "string \<Rightarrow> string list" where
  "splitlines s =
     (if s = [] then []
      else takeWhile (\<lambda>c. \<not> is_line_end c) s #
        (case dropWhile (\<lambda>c. \<not> is_line_end c) s of
           [] \<Rightarrow> []
         | c # rest \<Rightarrow>
             if c = carriage_return \<and> rest \<noteq> [] \<and> hd rest = newline
             then splitlines (tl rest) else splitlines rest))"
  by pat_completeness auto
termination
proof (relation "measure length")
  have shorter: "length (x # xs) \<le> length s" if "x # xs = dropWhile P s" for P s and x :: char and xs
    unfolding that by (rule length_dropWhile_le)
  fix s x rest
  assume "s \<noteq> []" and d: "dropWhile (\<lambda>c. \<not> is_line_end c) s = x # rest"
  from shorter [OF d [symmetric]]
  show "(tl rest, s) \<in> measure length" and "(rest, s) \<in> measure length"
    by auto
qed simp

declare splitlines.simps [simp del]

fun join :: "string \<Rightarrow> string list \<Rightarrow> string" where
  "join sep [] = []"
| "join sep [s] = s"
| "join sep (s # t # ss) = s @ sep @ join sep (t # ss)"

definition lower_char :: "char \<Rightarrow> char" where
  "lower_char c = (if 65 \<le> code c \<and> code c \<le> 90 \<or> 192 \<le> code c \<and> code c \<le> 222 \<and> code c \<noteq> 215
     then char_of (code c + 32) else c)"

definition lower :: "string \<Rightarrow> string" where
  "lower s = map lower_char s"

fun is_infix :: "string \<Rightarrow> string \<Rightarrow> bool" where
  "is_infix t [] \<longleftrightarrow> t = []"
| "is_infix t (c # s) \<longleftrightarrow> take (length t) (c # s) = t \<or> is_infix t s"

text \<open>\<open>s.partition(sep)\<close> for a one-character separator.\<close>

definition partition_at :: "char \<Rightarrow> string \<Rightarrow> string \<times> string \<times> string" where
  "partition_at sep s =
     (case dropWhile (\<lambda>c. c \<noteq> sep) s of
        [] \<Rightarrow> (s, [], [])
      | c # rest \<Rightarrow> (takeWhile (\<lambda>c. c \<noteq> sep) s, [sep], rest))"

section \<open>Reading integers\<close>

text \<open>
  \<open>int(s)\<close> of a string: spaces around it, a sign, decimal digits, and single underscores
  between digits.  \<open>None\<close> is the \<open>ValueError\<close>.
\<close>

definition is_digit :: "char \<Rightarrow> bool" where
  "is_digit c \<longleftrightarrow> 48 \<le> code c \<and> code c \<le> 57"

definition is_int_space :: "char \<Rightarrow> bool" where
  "is_int_space c \<longleftrightarrow> code c \<in> {9, 10, 11, 12, 13, 32, 133, 160}"

fun read_digits :: "nat \<Rightarrow> string \<Rightarrow> nat option" where
  "read_digits acc [] = Some acc"
| "read_digits acc (c # cs) =
     (if is_digit c then read_digits (10 * acc + (code c - 48)) cs
      else if c = CHR ''_'' \<and> cs \<noteq> [] \<and> is_digit (hd cs) then read_digits acc cs
      else None)"

definition parse_nat :: "string \<Rightarrow> nat option" where
  "parse_nat s = (if s \<noteq> [] \<and> is_digit (hd s) then read_digits 0 s else None)"

definition parse_int :: "string \<Rightarrow> int option" where
  "parse_int s =
     (case rev (dropWhile is_int_space (rev (dropWhile is_int_space s))) of
        [] \<Rightarrow> None
      | c # r \<Rightarrow>
          if c = CHR ''-'' then map_option (\<lambda>n. - int n) (parse_nat r)
          else if c = CHR ''+'' then map_option int (parse_nat r)
          else map_option int (parse_nat (c # r)))"

section \<open>Paths\<close>

definition path_join :: "string \<Rightarrow> string \<Rightarrow> string" where
  "path_join a b =
     (if b \<noteq> [] \<and> hd b = CHR ''/'' then b
      else if a = [] \<or> last a = CHR ''/'' then a @ b
      else a @ ''/'' @ b)"

definition basename :: "string \<Rightarrow> string" where
  "basename p = rev (takeWhile (\<lambda>c. c \<noteq> CHR ''/'') (rev p))"

text \<open>\<open>splitext(name)[0]\<close> for a name without a slash: leading dots start no extension.\<close>

definition splitext_root :: "string \<Rightarrow> string" where
  "splitext_root name =
     (case dropWhile (\<lambda>c. c \<noteq> CHR ''.'') (rev name) of
        [] \<Rightarrow> name
      | _ # before \<Rightarrow> if list_all (\<lambda>c. c = CHR ''.'') before then name else rev before)"

section \<open>Lemmas\<close>

lemma code_digit: "d < 10 \<Longrightarrow> code (digit d) = 48 + d"
  by (simp add: code_def digit_def)

lemma is_digit_digit [simp]: "d < 10 \<Longrightarrow> is_digit (digit d)"
  by (simp add: is_digit_def code_digit)

lemma digit_not_int_space [simp]: "is_digit c \<Longrightarrow> \<not> is_int_space c"
  by (auto simp: is_digit_def is_int_space_def)

lemma read_digits_append:
  "\<forall>c \<in> set xs. is_digit c \<Longrightarrow>
   read_digits acc (xs @ ys) =
     (case read_digits acc xs of Some acc' \<Rightarrow> read_digits acc' ys | None \<Rightarrow> None)"
  by (induction xs arbitrary: acc) auto

lemma show_nat_digits: "\<forall>c \<in> set (show_nat n). is_digit c"
proof (induction n rule: show_nat.induct)
  case (1 n)
  then show ?case by (cases "n < 10") (auto simp: show_nat_small show_nat_snoc)
qed

lemma read_show_nat: "read_digits 0 (show_nat n) = Some n"
proof (induction n rule: show_nat.induct)
  case (1 n)
  then show ?case
    by (cases "n < 10")
      (auto simp: show_nat_small show_nat_snoc code_digit read_digits_append show_nat_digits)
qed

lemma parse_show_nat: "parse_nat (show_nat n) = Some n"
  using show_nat_digits [of n] show_nat_not_empty [of n]
  by (simp add: parse_nat_def read_show_nat del: show_nat_not_empty)

lemma dropWhile_hd_False: "xs \<noteq> [] \<Longrightarrow> \<not> P (hd xs) \<Longrightarrow> dropWhile P xs = xs"
  by (cases xs) auto

lemma parse_show_int: "parse_int (show_int i) = Some i"
proof -
  have trim: "rev (dropWhile is_int_space (rev (dropWhile is_int_space s))) = s"
    if "s \<noteq> []" "\<not> is_int_space (hd s)" "\<not> is_int_space (last s)" for s
    using that by (simp add: dropWhile_hd_False hd_rev)
  have dig: "is_digit (hd (show_nat n))" "is_digit (last (show_nat n))" for n
    using show_nat_digits [of n] show_nat_not_empty [of n] by auto
  have minus: "\<not> is_int_space CHR ''-''" "hd (show_nat n) \<noteq> CHR ''-''" "hd (show_nat n) \<noteq> CHR ''+''" for n
    using dig(1) [of n] by (auto simp: is_int_space_def code_def is_digit_def)
  show ?thesis
  proof (cases "i < 0")
    case True
    then show ?thesis
      using trim [of "show_int i"] dig [of "nat (- i)"] minus(1)
      by (simp add: show_int_def parse_int_def parse_show_nat)
  next
    case False
    then have "show_int i = show_nat (nat i)" by (simp add: show_int_def)
    moreover obtain c r where cr: "show_nat (nat i) = c # r"
      using show_nat_not_empty by (meson list.exhaust)
    ultimately show ?thesis
      using False trim [of "show_nat (nat i)"] dig [of "nat i"] minus(2,3) [of "nat i"]
        parse_show_nat [of "nat i"] by (simp add: parse_int_def)
  qed
qed

lemma newline_is_line_end [simp]: "is_line_end newline"
  by (simp add: is_line_end_def code_def)

lemma splitlines_Nil [simp]: "splitlines [] = []"
  by (simp add: splitlines.simps)

lemma splitlines_line:
  assumes "\<forall>c \<in> set s. \<not> is_line_end c"
  shows "splitlines (s @ newline # rest) = s # splitlines rest"
proof -
  have "newline \<noteq> carriage_return" by simp
  then show ?thesis
    using assms by (subst splitlines.simps) (simp add: takeWhile_append2 dropWhile_append2)
qed

lemma splitlines_no_end: "\<forall>c \<in> set s. \<not> is_line_end c \<Longrightarrow> s \<noteq> [] \<Longrightarrow> splitlines s = [s]"
proof -
  assume "\<forall>c \<in> set s. \<not> is_line_end c" and "s \<noteq> []"
  moreover from this have "dropWhile (\<lambda>c. \<not> is_line_end c) s = []"
    by (simp add: dropWhile_eq_Nil_conv)
  ultimately show ?thesis by (subst splitlines.simps) (simp del: dropWhile_eq_Nil_conv)
qed

text \<open>Text that ends with a newline can be split into lines independently of what follows.\<close>

lemma splitlines_append_aux:
  "xs \<noteq> [] \<Longrightarrow> last xs = newline \<Longrightarrow> splitlines (xs @ ys) = splitlines xs @ splitlines ys"
proof (induction xs rule: splitlines.induct)
  case (1 xs)
  let ?P = "\<lambda>c. \<not> is_line_end c"
  from "1.prems" have "\<exists>c \<in> set xs. is_line_end c"
    using last_in_set [of xs] by (intro bexI [of _ newline]) auto
  then have t: "takeWhile ?P (xs @ ys) = takeWhile ?P xs"
    and d: "dropWhile ?P (xs @ ys) = dropWhile ?P xs @ ys"
    by (auto simp: takeWhile_append1 dropWhile_append1)
  obtain c rest where cr: "dropWhile ?P xs = c # rest"
    using \<open>\<exists>c \<in> set xs. is_line_end c\<close> by (cases "dropWhile ?P xs") (auto simp: dropWhile_eq_Nil_conv)
  have last: "last (c # rest) = newline"
    using "1.prems" cr by (metis last_appendR list.distinct(1) takeWhile_dropWhile_id)
  show ?case
  proof (cases "rest = []")
    case True
    with last have "c = newline" by simp
    with True cr t d "1.prems" show ?thesis
      by (simp add: splitlines.simps [of "xs @ ys"] splitlines.simps [of xs])
  next
    case False
    with last have lr: "last rest = newline" by simp
    show ?thesis
    proof (cases "c = carriage_return \<and> hd rest = newline")
      case crlf: True
      show ?thesis
      proof (cases "tl rest = []")
        case True
        with False have "rest = [hd rest]" by (cases rest) auto
        with crlf have "rest = [newline]" by simp
        with crlf cr t d "1.prems" show ?thesis
          by (simp add: splitlines.simps [of "xs @ ys"] splitlines.simps [of xs])
      next
        case tl: False
        then have "last (tl rest) = newline" using lr by (simp add: last_tl)
        from "1.IH"(1) [OF "1.prems"(1) cr _ tl this] crlf False
        have "splitlines (tl rest @ ys) = splitlines (tl rest) @ splitlines ys" by simp
        with crlf False cr t d "1.prems" show ?thesis
          by (simp add: splitlines.simps [of "xs @ ys"] splitlines.simps [of xs])
      qed
    next
      case other: False
      from "1.IH"(2) [OF "1.prems"(1) cr _ False lr] other False
      have "splitlines (rest @ ys) = splitlines rest @ splitlines ys" by auto
      moreover have "\<not> (c = carriage_return \<and> rest @ ys \<noteq> [] \<and> hd (rest @ ys) = newline)"
        using other False by auto
      moreover have "\<not> (c = carriage_return \<and> rest \<noteq> [] \<and> hd rest = newline)"
        using other by auto
      ultimately show ?thesis using cr t d "1.prems"
        by (subst (1 2) splitlines.simps) (simp only: if_False list.case append_Cons append_is_Nil_conv simp_thms)
    qed
  qed
qed

lemma splitlines_append:
  "xs = [] \<or> last xs = newline \<Longrightarrow> splitlines (xs @ ys) = splitlines xs @ splitlines ys"
  by (cases "xs = []") (auto intro: splitlines_append_aux)

end
