(* ===== verification/Json.thy ===== *)
theory Json
  imports Py_Strings
begin

text \<open>
  JSON values as Python sees them (the results of \<open>json.loads\<close>, without NaN and infinities),
  their truth value, \<open>json.dumps\<close> with its default separators and ASCII escapes, and
  \<open>str\<close> and \<open>repr\<close> of them, which the f-strings of the error messages use.  The decimal
  rendering of a float is a parameter \<open>repr_float\<close>.
\<close>

datatype json =
    JNull
  | JBool bool
  | JInt int
  | JFloat rat
  | JStr string
  | JList "json list"
  | JObj "(string \<times> json) list"

text \<open>Python's truth value of the object a JSON value becomes.\<close>

fun truthy :: "json \<Rightarrow> bool" where
  "truthy JNull \<longleftrightarrow> False"
| "truthy (JBool b) \<longleftrightarrow> b"
| "truthy (JInt i) \<longleftrightarrow> i \<noteq> 0"
| "truthy (JFloat x) \<longleftrightarrow> x \<noteq> 0"
| "truthy (JStr s) \<longleftrightarrow> s \<noteq> []"
| "truthy (JList xs) \<longleftrightarrow> xs \<noteq> []"
| "truthy (JObj kvs) \<longleftrightarrow> kvs \<noteq> []"

text \<open>The dictionary methods used on a value: only objects have them.\<close>

definition json_get :: "json \<Rightarrow> string \<Rightarrow> json \<Rightarrow> json result" where
  "json_get v k d =
     (case v of JObj kvs \<Rightarrow> Inr (case map_of kvs k of None \<Rightarrow> d | Some x \<Rightarrow> x)
      | _ \<Rightarrow> Inl AttributeError)"

definition hashable :: "json \<Rightarrow> bool" where
  "hashable v = (case v of JList _ \<Rightarrow> False | JObj _ \<Rightarrow> False | _ \<Rightarrow> True)"

section \<open>Rendering\<close>

definition backslash :: char where
  "backslash = CHR 0x5C"

definition double_quote :: char where
  "double_quote = CHR 0x22"

definition single_quote :: char where
  "single_quote = CHR 0x27"

definition hex_digit :: "nat \<Rightarrow> char" where
  "hex_digit n = (if n < 10 then digit n else char_of (87 + n))"

definition hex2 :: "char \<Rightarrow> string" where
  "hex2 c = [hex_digit (code c div 16), hex_digit (code c mod 16)]"

definition dumps_char :: "char \<Rightarrow> string" where
  "dumps_char c =
     (if c = double_quote \<or> c = backslash then [backslash, c]
      else if code c = 10 then [backslash, CHR ''n'']
      else if code c = 13 then [backslash, CHR ''r'']
      else if code c = 9 then [backslash, CHR ''t'']
      else if code c = 12 then [backslash, CHR ''f'']
      else if code c = 8 then [backslash, CHR ''b'']
      else if 32 \<le> code c \<and> code c \<le> 126 then [c]
      else [backslash] @ ''u00'' @ hex2 c)"

definition dumps_string :: "string \<Rightarrow> string" where
  "dumps_string s = [double_quote] @ concat (map dumps_char s) @ [double_quote]"

fun dumps :: "(rat \<Rightarrow> string) \<Rightarrow> json \<Rightarrow> string" where
  "dumps rf JNull = ''null''"
| "dumps rf (JBool b) = (if b then ''true'' else ''false'')"
| "dumps rf (JInt i) = show_int i"
| "dumps rf (JFloat x) = rf x"
| "dumps rf (JStr s) = dumps_string s"
| "dumps rf (JList xs) = ''['' @ join '', '' (map (dumps rf) xs) @ '']''"
| "dumps rf (JObj kvs) =
     ''{'' @ join '', '' (map (\<lambda>(k, v). dumps_string k @ '': '' @ dumps rf v) kvs) @ ''}''"

definition repr_char :: "char \<Rightarrow> char \<Rightarrow> string" where
  "repr_char q c =
     (if c = q \<or> c = backslash then [backslash, c]
      else if code c = 10 then [backslash, CHR ''n'']
      else if code c = 13 then [backslash, CHR ''r'']
      else if code c = 9 then [backslash, CHR ''t'']
      else if code c < 32 \<or> 127 \<le> code c \<and> code c \<le> 160 \<or> code c = 173
      then [backslash, CHR ''x''] @ hex2 c
      else [c])"

definition repr_string :: "string \<Rightarrow> string" where
  "repr_string s =
     (let q = (if single_quote \<in> set s \<and> double_quote \<notin> set s then double_quote else single_quote)
      in [q] @ concat (map (repr_char q) s) @ [q])"

fun py_repr :: "(rat \<Rightarrow> string) \<Rightarrow> json \<Rightarrow> string" where
  "py_repr rf JNull = ''None''"
| "py_repr rf (JBool b) = (if b then ''True'' else ''False'')"
| "py_repr rf (JInt i) = show_int i"
| "py_repr rf (JFloat x) = rf x"
| "py_repr rf (JStr s) = repr_string s"
| "py_repr rf (JList xs) = ''['' @ join '', '' (map (py_repr rf) xs) @ '']''"
| "py_repr rf (JObj kvs) =
     ''{'' @ join '', '' (map (\<lambda>(k, v). repr_string k @ '': '' @ py_repr rf v) kvs) @ ''}''"

definition py_str :: "(rat \<Rightarrow> string) \<Rightarrow> json \<Rightarrow> string" where
  "py_str rf v = (case v of JStr s \<Rightarrow> s | _ \<Rightarrow> py_repr rf v)"

section \<open>A rendered value is one line\<close>

definition one_line :: "string \<Rightarrow> bool" where
  "one_line s \<longleftrightarrow> (\<forall>c \<in> set s. \<not> is_line_end c)"

lemma one_line_simps [simp]:
  "one_line []" "one_line (c # s) \<longleftrightarrow> \<not> is_line_end c \<and> one_line s"
  "one_line (s @ t) \<longleftrightarrow> one_line s \<and> one_line t"
  "one_line (concat ss) \<longleftrightarrow> (\<forall>s \<in> set ss. one_line s)"
  by (auto simp: one_line_def)

lemma one_line_join: "one_line sep \<Longrightarrow> \<forall>s \<in> set ss. one_line s \<Longrightarrow> one_line (join sep ss)"
  by (induction sep ss rule: join.induct) auto

lemma code_less: "code c < 256"
  unfolding code_def using of_char_of [of "of_char c"] by (metis char_of_char mod_less_divisor zero_less_numeral)

lemma printable_not_line_end: "32 \<le> code c \<Longrightarrow> code c \<le> 126 \<Longrightarrow> \<not> is_line_end c"
  by (auto simp: is_line_end_def)

lemma hex_digit_no_line_end: "n < 16 \<Longrightarrow> \<not> is_line_end (hex_digit n)"
  by (cases "n < 10"; rule printable_not_line_end) (simp_all add: hex_digit_def code_digit, simp_all add: code_def)

lemma literals_no_line_end [simp]:
  "\<not> is_line_end backslash" "\<not> is_line_end double_quote"
  by (simp_all add: is_line_end_def backslash_def double_quote_def code_def)

lemma dumps_char_one_line: "one_line (dumps_char c)"
proof -
  have "code c div 16 < 16" "code c mod 16 < 16" using code_less [of c] by simp_all
  then have "one_line (hex2 c)" by (simp add: hex2_def hex_digit_no_line_end)
  moreover have "one_line ''nrtfbu00''" by (simp add: is_line_end_def code_def)
  ultimately show ?thesis
    by (auto simp: dumps_char_def printable_not_line_end)
qed

lemma dumps_string_one_line: "one_line (dumps_string s)"
  by (simp add: dumps_string_def dumps_char_one_line)

lemma show_nat_one_line: "one_line (show_nat n)"
  using show_nat_digits [of n] by (auto simp: one_line_def is_digit_def is_line_end_def)

lemma show_int_one_line: "one_line (show_int i)"
  by (auto simp: show_int_def show_nat_one_line is_line_end_def code_def)

lemma dumps_one_line:
  assumes "\<And>x. one_line (rf x)"
  shows "one_line (dumps rf v)"
proof (induction v)
  case (JList xs)
  have "one_line '', ''" by (simp add: is_line_end_def code_def)
  then have "one_line (join '', '' (map (dumps rf) xs))"
    using JList by (intro one_line_join) auto
  then show ?case by (simp add: is_line_end_def code_def)
next
  case (JObj kvs)
  have "one_line '', ''" "one_line '': ''" by (simp_all add: is_line_end_def code_def)
  then have "one_line (join '', '' (map (\<lambda>(k, v). dumps_string k @ '': '' @ dumps rf v) kvs))"
    using JObj by (intro one_line_join) (auto simp: dumps_string_one_line)
  then show ?case by (simp add: is_line_end_def code_def)
qed (simp_all add: assms show_int_one_line dumps_string_one_line is_line_end_def code_def)

end
