(* ===== verification/Png.thy ===== *)
theory Png
  imports Prelude
begin

text \<open>
  \<^verbatim>\<open>mcp/src/png_util.py\<close>: building PNG files of one colour.  Big-endian packing of
  32-bit numbers, the CRC of a chunk and the chunk layout are translated; \<open>zlib.compress\<close> and
  \<open>hashlib.sha256\<close> are parameters.
\<close>

unbundle bit_operations_syntax

section \<open>struct.pack and struct.unpack of '>I'\<close>

definition be32 :: "nat \<Rightarrow> bytes" where
  "be32 n = [of_nat (n div 2 ^ 24), of_nat (n div 2 ^ 16), of_nat (n div 2 ^ 8), of_nat n]"

definition pack_I :: "int \<Rightarrow> bytes result" where
  "pack_I n = (if 0 \<le> n \<and> n < 2 ^ 32 then Inr (be32 (nat n)) else Inl StructError)"

definition be32_value :: "bytes \<Rightarrow> nat" where
  "be32_value bs =
     unat (bs ! 0) * 2 ^ 24 + unat (bs ! 1) * 2 ^ 16 + unat (bs ! 2) * 2 ^ 8 + unat (bs ! 3)"

definition unpack_I :: "bytes \<Rightarrow> nat result" where
  "unpack_I bs = (if length bs = 4 then Inr (be32_value bs) else Inl StructError)"

lemma length_be32 [simp]: "length (be32 n) = 4"
  by (simp add: be32_def)

lemma be32_not_Nil [simp]: "be32 n \<noteq> []"
  by (simp add: be32_def)

lemma radix4: "((d * 256 + c) * 256 + b) * 256 + a = d * 2 ^ 24 + c * 2 ^ 16 + b * 2 ^ 8 + (a :: nat)"
  by simp

lemma be32_value_be32 [simp]: "n < 2 ^ 32 \<Longrightarrow> be32_value (be32 n) = n"
proof -
  assume n: "n < 2 ^ 32"
  have "n div 2 ^ 24 mod 256 * 2 ^ 24 + n div 2 ^ 16 mod 256 * 2 ^ 16 + n div 2 ^ 8 mod 256 * 2 ^ 8 + n mod 256 = n"
    (is "?l = n")
  proof -
    have q: "n div 2 ^ 8 = n div 256" "n div 2 ^ 16 = n div 256 div 256" "n div 2 ^ 24 = n div 256 div 256 div 256"
      by (simp_all add: div_mult2_eq [symmetric])
    have "n div 256 div 256 div 256 mod 256 = n div 256 div 256 div 256"
      using n by (simp add: div_mult2_eq [symmetric])
    then show ?thesis
      unfolding q by (simp only: radix4 [symmetric] div_mult_mod_eq)
  qed
  then show ?thesis using n
    by (simp add: be32_value_def be32_def unat_of_nat)
qed

lemma unpack_pack: "pack_I n = Inr bs \<Longrightarrow> unpack_I bs = Inr (nat n)"
  by (auto simp: pack_I_def unpack_I_def split: if_splits)

section \<open>CRC-32\<close>

definition crc_bit :: "32 word \<Rightarrow> 32 word" where
  "crc_bit c = (if bit c 0 then drop_bit 1 c XOR 0xEDB88320 else drop_bit 1 c)"

definition crc_byte :: "8 word \<Rightarrow> 32 word \<Rightarrow> 32 word" where
  "crc_byte b c = (crc_bit ^^ 8) (c XOR ucast b)"

definition crc32 :: "bytes \<Rightarrow> 32 word" where
  "crc32 bs = fold crc_byte bs 0xFFFFFFFF XOR 0xFFFFFFFF"

section \<open>Chunks and images\<close>

definition ascii :: "string \<Rightarrow> bytes" where
  "ascii s = map of_char s"

definition png_signature :: bytes where
  "png_signature = [0x89, 0x50, 0x4E, 0x47, 0x0D, 0x0A, 0x1A, 0x0A]"

definition chunk :: "bytes \<Rightarrow> bytes \<Rightarrow> bytes result" where
  "chunk chunk_type data =
     (case pack_I (int (length data)) of
        Inl e \<Rightarrow> Inl e
      | Inr len \<Rightarrow> Inr (len @ (chunk_type @ data) @ be32 (unat (crc32 (chunk_type @ data)))))"

text \<open>\<open>struct.pack(">IIBBBBB", width, height, 8, 2, 0, 0, 0)\<close>.\<close>

definition ihdr_data :: "int \<Rightarrow> int \<Rightarrow> bytes result" where
  "ihdr_data width height =
     (case pack_I width of
        Inl e \<Rightarrow> Inl e
      | Inr w \<Rightarrow> (case pack_I height of
            Inl e \<Rightarrow> Inl e
          | Inr h \<Rightarrow> Inr (w @ h @ [8, 2, 0, 0, 0])))"

type_synonym pixel = "8 word \<times> 8 word \<times> 8 word"

definition pixel_bytes :: "pixel \<Rightarrow> bytes" where
  "pixel_bytes p = (case p of (r, g, b) \<Rightarrow> [r, g, b])"

text \<open>The three chunks after the signature, the first exception raised winning.\<close>

definition assemble_png :: "bytes result \<Rightarrow> bytes \<Rightarrow> bytes result" where
  "assemble_png ihdr idat_data =
     (case ihdr of
        Inl e \<Rightarrow> Inl e
      | Inr hdr \<Rightarrow> (case chunk (ascii ''IHDR'') hdr of
            Inl e \<Rightarrow> Inl e
          | Inr c1 \<Rightarrow> (case chunk (ascii ''IDAT'') idat_data of
                Inl e \<Rightarrow> Inl e
              | Inr c2 \<Rightarrow> (case chunk (ascii ''IEND'') [] of
                    Inl e \<Rightarrow> Inl e
                  | Inr c3 \<Rightarrow> Inr (png_signature @ c1 @ c2 @ c3)))))"

text \<open>
  \<open>make_png\<close>; a negative factor repeats a byte string zero times, but a negative width or
  height has failed in \<open>struct.pack\<close> before.
\<close>

definition make_png :: "(bytes \<Rightarrow> bytes) \<Rightarrow> int \<Rightarrow> int \<Rightarrow> pixel \<Rightarrow> bytes result" where
  "make_png compress width height rgb =
     (let row = 0 # concat (replicate (nat width) (pixel_bytes rgb));
          raw_data = concat (replicate (nat height) row)
      in assemble_png (ihdr_data width height) (compress raw_data))"

definition display_width :: int where "display_width = 1024"
definition display_height :: int where "display_height = 600"
definition teal_rgb :: pixel where "teal_rgb = (0x1A, 0x8A, 0x7D)"

definition make_teal_display :: "(bytes \<Rightarrow> bytes) \<Rightarrow> bytes result" where
  "make_teal_display compress = make_png compress display_width display_height teal_rgb"

section \<open>Lemmas\<close>

lemma chunk_ok:
  assumes "length data < 2 ^ 32"
  shows "chunk ty data = Inr (be32 (length data) @ ty @ data @ be32 (unat (crc32 (ty @ data))))"
  using assms by (simp add: chunk_def pack_I_def)

lemma ihdr_data_ok:
  "w < 2 ^ 32 \<Longrightarrow> h < 2 ^ 32 \<Longrightarrow> ihdr_data (int w) (int h) = Inr (be32 w @ be32 h @ [8, 2, 0, 0, 0])"
  by (simp add: ihdr_data_def pack_I_def)

lemma assemble_png_ok:
  assumes "w < 2 ^ 32" "h < 2 ^ 32" "length idat < 2 ^ 32"
  shows "assemble_png (ihdr_data (int w) (int h)) idat =
    Inr (png_signature @
      (be32 13 @ ascii ''IHDR'' @ (be32 w @ be32 h @ [8, 2, 0, 0, 0]) @
        be32 (unat (crc32 (ascii ''IHDR'' @ be32 w @ be32 h @ [8, 2, 0, 0, 0])))) @
      (be32 (length idat) @ ascii ''IDAT'' @ idat @ be32 (unat (crc32 (ascii ''IDAT'' @ idat)))) @
      (be32 0 @ ascii ''IEND'' @ be32 (unat (crc32 (ascii ''IEND'')))))"
  using assms by (simp add: assemble_png_def ihdr_data_ok chunk_ok)

end
