(* ===== verification/Mcp_Handlers.thy ===== *)
theory Mcp_Handlers
  imports Base64 Json Png
begin

text \<open>
  \<^verbatim>\<open>mcp/src/handlers.py\<close>: the tool handlers behind the MCP server, with the module's
  global variables as a state record.  A handler returns its JSON reply or the exception it raises;
  one that can block (display with confirmation) returns \<open>None\<close> when its wait never ends.
  \<open>'w\<close> is the state of whatever the registered event callback acts on.

  Parameters: SHA-256 (as a hexadecimal digest), \<open>zlib.compress\<close>, the calibration pattern
  (drawn with Pillow), and the decimal rendering of floats.
\<close>

section \<open>State\<close>

datatype mcp_event =
    BitmapSubmitted string bytes
  | DisplayRequested string

record 'w handlers =
  cache :: "(string, bytes) dict"
  current_display_key :: "string option"
  default_teal :: "bytes option"
  event_callback :: "(mcp_event \<Rightarrow> 'w \<Rightarrow> 'w) option"
  display_confirmer :: bool
  world :: 'w

text \<open>The parameters.\<close>

record mcp_env =
  sha256_hex :: "bytes \<Rightarrow> string"
  zlib_compress :: "bytes \<Rightarrow> bytes"
  calibration_png :: "int \<Rightarrow> int \<Rightarrow> bytes result"
  repr_float :: "rat \<Rightarrow> string"

text \<open>
  What one call observes while it waits: the clock at its start and at each poll, and what the
  registered confirmer answers.
\<close>

record confirmation =
  poll_start :: seconds
  poll_clock :: "nat \<Rightarrow> seconds"
  answer_at :: "nat \<Rightarrow> string result"

definition handlers_init :: "'w \<Rightarrow> 'w handlers" where
  "handlers_init w = \<lparr>cache = [], current_display_key = None, default_teal = None,
     event_callback = None, display_confirmer = False, world = w\<rparr>"

definition set_event_callback :: "(mcp_event \<Rightarrow> 'w \<Rightarrow> 'w) option \<Rightarrow> 'w handlers \<Rightarrow> 'w handlers" where
  "set_event_callback callback h = h\<lparr>event_callback := callback\<rparr>"

text \<open>Whether a confirmer is registered; its answers are part of the calls' environment.\<close>

definition set_display_confirmer :: "bool \<Rightarrow> 'w handlers \<Rightarrow> 'w handlers" where
  "set_display_confirmer confirmer h = h\<lparr>display_confirmer := confirmer\<rparr>"

definition get_display_confirmer :: "'w handlers \<Rightarrow> bool" where
  "get_display_confirmer h = display_confirmer h"

definition reset :: "'w handlers \<Rightarrow> 'w handlers" where
  "reset h = h\<lparr>cache := [], current_display_key := None, default_teal := None,
     event_callback := None, display_confirmer := False\<rparr>"

definition notify :: "mcp_event \<Rightarrow> 'w handlers \<Rightarrow> 'w handlers" where
  "notify ev h = (case event_callback h of None \<Rightarrow> h | Some cb \<Rightarrow> h\<lparr>world := cb ev (world h)\<rparr>)"

section \<open>Display\<close>

definition default_blocking_timeout :: json where
  "default_blocking_timeout = JFloat 30"

text \<open>The number a timeout stands for in \<open>time.monotonic() + timeout\<close>.\<close>

definition as_seconds :: "json \<Rightarrow> seconds result" where
  "as_seconds v = (case v of JInt i \<Rightarrow> Inr (of_int i) | JFloat x \<Rightarrow> Inr x
     | JBool b \<Rightarrow> Inr (if b then 1 else 0) | _ \<Rightarrow> Inl TypeError)"

text \<open>
  The polls: an exception of the confirmer counts as no display.  A confirmed key is returned.
\<close>

definition poll_for_confirmation ::
  "confirmation \<Rightarrow> string \<Rightarrow> seconds \<Rightarrow> string option option" where
  "poll_for_confirmation cf cache_key timeout =
     poll_until (poll_clock cf) (poll_start cf + timeout)
       (\<lambda>k. let current = (case answer_at cf k of Inr s \<Rightarrow> s | Inl _ \<Rightarrow> [])
            in if current = cache_key then Some current else None)"

definition failure :: "string \<Rightarrow> json" where
  "failure msg = JObj [(''success'', JBool False), (''error'', JStr msg)]"

text \<open>
  A key that is not a string is in no cache (an unhashable one raises), so only a string goes
  on.
\<close>

definition handle_display_bitmap ::
  "mcp_env \<Rightarrow> confirmation \<Rightarrow> json \<Rightarrow> json \<Rightarrow> json \<Rightarrow> 'w handlers \<Rightarrow>
   (json result \<times> 'w handlers) option" where
  "handle_display_bitmap env cf cache_key blocking timeout_seconds h =
     (if \<not> hashable cache_key then Some (Inl TypeError, h)
      else case cache_key of
          JStr key \<Rightarrow>
            (if key \<notin> set (keys (cache h))
             then Some (Inr (failure (''Unknown cache key: '' @ key)), h)
             else let h' = notify (DisplayRequested key) (h\<lparr>current_display_key := Some key\<rparr>)
                  in if truthy blocking
                     then (if \<not> display_confirmer h'
                       then Some (Inr (failure
                           ''blocking=true requires a display confirmer (no Android app client configured)''), h')
                       else (case as_seconds timeout_seconds of
                              Inl e \<Rightarrow> Some (Inl e, h')
                            | Inr timeout \<Rightarrow>
                                (case poll_for_confirmation cf key timeout of
                                   None \<Rightarrow> None
                                 | Some None \<Rightarrow> Some (Inr (failure (''Timeout after '' @
                                     py_str (repr_float env) timeout_seconds @
                                     ''s waiting for app to display '' @ key)), h')
                                 | Some (Some confirmed) \<Rightarrow> Some (Inr (JObj
                                     [(''success'', JBool True), (''cache_key'', JStr key),
                                      (''blocking'', JBool True),
                                      (''confirmed_cache_key'', JStr confirmed)]), h'))))
                     else Some (Inr (JObj [(''success'', JBool True), (''cache_key'', JStr key),
                       (''blocking'', JBool False)]), h'))
        | _ \<Rightarrow> Some (Inr (failure (''Unknown cache key: '' @ py_str (repr_float env) cache_key)), h))"

section \<open>Submission and screenshots\<close>

definition upper_char :: "char \<Rightarrow> char" where
  "upper_char c = (if 97 \<le> code c \<and> code c \<le> 122 then char_of (code c - 32) else c)"

text \<open>\<open>upper()\<close> of a hexadecimal digest.\<close>

definition png_cache_key :: "mcp_env \<Rightarrow> bytes \<Rightarrow> string" where
  "png_cache_key env png_data = ''0x'' @ map upper_char (take 8 (sha256_hex env png_data))"

definition submit_bytes :: "mcp_env \<Rightarrow> bytes \<Rightarrow> 'w handlers \<Rightarrow> json \<times> 'w handlers" where
  "submit_bytes env raw_bytes h =
     (let cache_key = png_cache_key env raw_bytes
      in (JObj [(''cache_key'', JStr cache_key), (''courtesy_screenshot'', JStr (b64encode raw_bytes))],
          notify (BitmapSubmitted cache_key raw_bytes)
            (h\<lparr>cache := dict_set cache_key raw_bytes (cache h)\<rparr>)))"

text \<open>\<open>b64decode\<close> of anything but a string (JSON has no bytes) raises \<open>TypeError\<close>.\<close>

definition handle_submit_bitmap :: "mcp_env \<Rightarrow> json \<Rightarrow> 'w handlers \<Rightarrow> json result \<times> 'w handlers" where
  "handle_submit_bitmap env image_data h =
     (case image_data of
        JStr s \<Rightarrow> (case b64decode s of
            Inl e \<Rightarrow> (Inl e, h)
          | Inr raw_bytes \<Rightarrow> (let (reply, h') = submit_bytes env raw_bytes h in (Inr reply, h')))
      | _ \<Rightarrow> (Inl TypeError, h))"

text \<open>\<open>_current_display_key is not None and _current_display_key in _cache\<close>.\<close>

definition displayed :: "'w handlers \<Rightarrow> bytes option" where
  "displayed h = (case current_display_key h of None \<Rightarrow> None | Some k \<Rightarrow> dict_get (cache h) k)"

definition handle_get_screenshot :: "mcp_env \<Rightarrow> 'w handlers \<Rightarrow> json result \<times> 'w handlers" where
  "handle_get_screenshot env h =
     (case displayed h of
        Some png \<Rightarrow> (Inr (JObj [(''screenshot'', JStr (b64encode png))]), h)
      | None \<Rightarrow>
          (case default_teal h of
             Some png \<Rightarrow> (Inr (JObj [(''screenshot'', JStr (b64encode png))]), h)
           | None \<Rightarrow>
               (case make_teal_display (zlib_compress env) of
                  Inl e \<Rightarrow> (Inl e, h)
                | Inr png \<Rightarrow> (Inr (JObj [(''screenshot'', JStr (b64encode png))]),
                              h\<lparr>default_teal := Some png\<rparr>))))"

text \<open>
  \<open>dict.get("success", False)\<close> of the display result; the dimensions are passed to the
  pattern generator, which fails on anything but integers.
\<close>

definition as_int :: "json \<Rightarrow> int result" where
  "as_int v = (case v of JInt i \<Rightarrow> Inr i | JBool b \<Rightarrow> Inr (if b then 1 else 0) | _ \<Rightarrow> Inl TypeError)"

definition marker_colors :: json where
  "marker_colors = JObj
     [(''top_left'', JStr ''red (#FF0000)''), (''top_right'', JStr ''green (#00FF00)''),
      (''bottom_left'', JStr ''blue (#0000FF)''), (''bottom_right'', JStr ''yellow (#FFFF00)'')]"

definition calibrate_next_step :: string where
  "calibrate_next_step = ''Capture a DHU screenshot with get_screenshot, then use the '' @
     ''calibrate module's detect_calibration_markers() and '' @
     ''compute_transform() to get the coordinate mapping.''"

definition handle_calibrate_display ::
  "mcp_env \<Rightarrow> confirmation \<Rightarrow> json \<Rightarrow> json \<Rightarrow> 'w handlers \<Rightarrow>
   (json result \<times> 'w handlers) option" where
  "handle_calibrate_display env cf pattern_width pattern_height h =
     (case (case as_int pattern_width of Inl e \<Rightarrow> Inl e
            | Inr w \<Rightarrow> (case as_int pattern_height of Inl e \<Rightarrow> Inl e
                | Inr ht \<Rightarrow> calibration_png env w ht)) of
        Inl e \<Rightarrow> Some (Inl e, h)
      | Inr pattern_png \<Rightarrow>
          (case handle_submit_bitmap env (JStr (b64encode pattern_png)) h of
             (Inl e, h') \<Rightarrow> Some (Inl e, h')
           | (Inr submit_result, h') \<Rightarrow>
               (case json_get submit_result ''cache_key'' JNull of
                  Inl e \<Rightarrow> Some (Inl e, h')
                | Inr key \<Rightarrow>
                    (case handle_display_bitmap env cf key (JBool False) default_blocking_timeout h' of
                       None \<Rightarrow> None
                     | Some (Inl e, h'') \<Rightarrow> Some (Inl e, h'')
                     | Some (Inr display_result, h'') \<Rightarrow>
                         (case json_get display_result ''success'' (JBool False) of
                            Inl e \<Rightarrow> Some (Inl e, h'')
                          | Inr success \<Rightarrow> Some (Inr (JObj
                              [(''success'', success), (''cache_key'', key),
                               (''pattern_width'', pattern_width), (''pattern_height'', pattern_height),
                               (''marker_size'', JInt 50), (''marker_colors'', marker_colors),
                               (''next_step'', JStr calibrate_next_step)]), h''))))))"

section \<open>The state invariant\<close>

text \<open>
  The cache is content-addressed, what is displayed is in it, and the memoised default surface is
  the one \<open>make_teal_display\<close> gives.
\<close>

definition handlers_ok :: "mcp_env \<Rightarrow> 'w handlers \<Rightarrow> bool" where
  "handlers_ok env h \<longleftrightarrow>
     wf_dict (cache h) \<and>
     (\<forall>(k, d) \<in> set (cache h). k = png_cache_key env d) \<and>
     (\<forall>k. current_display_key h = Some k \<longrightarrow> k \<in> set (keys (cache h))) \<and>
     (\<forall>png. default_teal h = Some png \<longrightarrow> make_teal_display (zlib_compress env) = Inr png)"

named_theorems handler_ok "every operation keeps the invariant"

lemma notify_simps [simp]:
  "cache (notify ev h) = cache h" "current_display_key (notify ev h) = current_display_key h"
  "default_teal (notify ev h) = default_teal h" "event_callback (notify ev h) = event_callback h"
  "display_confirmer (notify ev h) = display_confirmer h"
  by (simp_all add: notify_def split: option.split)

lemma notify_ok [simp]: "handlers_ok env (notify ev h) \<longleftrightarrow> handlers_ok env h"
  by (simp add: handlers_ok_def)

lemma handlers_init_ok: "handlers_ok env (handlers_init w)"
  by (simp add: handlers_ok_def handlers_init_def)

lemma reset_ok [handler_ok]: "handlers_ok env (reset h)"
  by (simp add: handlers_ok_def reset_def)

lemma set_dict_set: "(k', v') \<in> set (dict_set k v d) \<Longrightarrow> (k', v') \<in> set d \<or> (k', v') = (k, v)"
  by (induction d) (auto split: if_splits)

lemma submit_bytes_ok [handler_ok]: "handlers_ok env h \<Longrightarrow> handlers_ok env (snd (submit_bytes env raw h))"
  unfolding handlers_ok_def submit_bytes_def Let_def
  by (auto dest!: set_dict_set)

lemma submit_ok [handler_ok]:
  "handlers_ok env h \<Longrightarrow> handle_submit_bitmap env v h = (r, h') \<Longrightarrow> handlers_ok env h'"
  using submit_bytes_ok [of env h]
  by (cases v) (auto simp: handle_submit_bitmap_def case_prod_beta split: sum.splits)

lemma screenshot_state:
  assumes "handle_get_screenshot env h = (r, h')"
  shows "h' = h \<or> (\<exists>png. make_teal_display (zlib_compress env) = Inr png \<and> h' = h\<lparr>default_teal := Some png\<rparr>)"
  using assms unfolding handle_get_screenshot_def
  by (auto split: option.splits sum.splits)

lemma default_teal_ok:
  "handlers_ok env h \<Longrightarrow> make_teal_display (zlib_compress env) = Inr png \<Longrightarrow>
   handlers_ok env (h\<lparr>default_teal := Some png\<rparr>)"
  by (simp add: handlers_ok_def)

lemma screenshot_ok [handler_ok]:
  "handlers_ok env h \<Longrightarrow> handle_get_screenshot env h = (r, h') \<Longrightarrow> handlers_ok env h'"
  using screenshot_state default_teal_ok by blast

lemma show_cached_ok: "k \<in> set (keys (cache h)) \<Longrightarrow> handlers_ok env h \<Longrightarrow>
    handlers_ok env (h\<lparr>current_display_key := Some k\<rparr>)"
  by (simp add: handlers_ok_def)

text \<open>A display of a string changes nothing, or makes a cached key current and tells the callback.\<close>

abbreviation shown :: "string \<Rightarrow> 'w handlers \<Rightarrow> 'w handlers" where
  "shown k h \<equiv> notify (DisplayRequested k) (h\<lparr>current_display_key := Some k\<rparr>)"

lemma display_unknown:
  "key \<notin> set (keys (cache h)) \<Longrightarrow> handle_display_bitmap env cf (JStr key) blocking timeout h =
     Some (Inr (failure (''Unknown cache key: '' @ key)), h)"
  by (simp add: handle_display_bitmap_def hashable_def)

lemma display_nonblocking:
  "key \<in> set (keys (cache h)) \<Longrightarrow> \<not> truthy blocking \<Longrightarrow>
   handle_display_bitmap env cf (JStr key) blocking timeout h =
     Some (Inr (JObj [(''success'', JBool True), (''cache_key'', JStr key), (''blocking'', JBool False)]),
           shown key h)"
  by (simp add: handle_display_bitmap_def hashable_def)

lemma display_unconfirmable:
  "key \<in> set (keys (cache h)) \<Longrightarrow> truthy blocking \<Longrightarrow> \<not> display_confirmer h \<Longrightarrow>
   handle_display_bitmap env cf (JStr key) blocking timeout h =
     Some (Inr (failure ''blocking=true requires a display confirmer (no Android app client configured)''),
           shown key h)"
  by (simp add: handle_display_bitmap_def hashable_def)

lemma display_blocking:
  "key \<in> set (keys (cache h)) \<Longrightarrow> truthy blocking \<Longrightarrow> display_confirmer h \<Longrightarrow>
   handle_display_bitmap env cf (JStr key) blocking timeout h =
     (case as_seconds timeout of
        Inl e \<Rightarrow> Some (Inl e, shown key h)
      | Inr t \<Rightarrow> map_option (\<lambda>c. (Inr (case c of
            None \<Rightarrow> failure (''Timeout after '' @ py_str (repr_float env) timeout @
              ''s waiting for app to display '' @ key)
          | Some confirmed \<Rightarrow> JObj [(''success'', JBool True), (''cache_key'', JStr key),
              (''blocking'', JBool True), (''confirmed_cache_key'', JStr confirmed)]), shown key h))
          (poll_for_confirmation cf key t))"
  by (simp add: handle_display_bitmap_def hashable_def Let_def split: sum.split option.split)

lemmas display_branches = display_unknown display_nonblocking display_unconfirmable display_blocking

lemma display_not_string:
  "(\<nexists>k. key = JStr k) \<Longrightarrow> handle_display_bitmap env cf key blocking timeout h = Some (r, h') \<Longrightarrow> h' = h"
  by (cases key) (simp_all add: handle_display_bitmap_def hashable_def)

lemma display_state:
  assumes "handle_display_bitmap env cf key blocking timeout h = Some (r, h')"
  shows "h' = h \<or> (\<exists>k. k \<in> set (keys (cache h)) \<and> h' = shown k h)"
proof (cases "\<exists>k. key = JStr k")
  case True
  then obtain k where k: "key = JStr k" by blast
  show ?thesis
  proof (cases "k \<in> set (keys (cache h))")
    case False
    with assms show ?thesis unfolding k display_unknown [OF False] by simp
  next
    case in_cache: True
    have "h' = shown k h"
    proof (cases "truthy blocking \<and> display_confirmer h")
      case True
      then show ?thesis using assms unfolding k display_blocking [OF in_cache True [THEN conjunct1] True [THEN conjunct2]]
        by (simp split: sum.splits) blast
    next
      case False
      then show ?thesis using assms unfolding k
        by (cases "truthy blocking") (simp_all only: display_nonblocking [OF in_cache] display_unconfirmable [OF in_cache]
            option.inject prod.inject simp_thms)
    qed
    with in_cache show ?thesis by blast
  qed
qed (use assms display_not_string in blast)

lemma display_ok [handler_ok]:
  assumes "handlers_ok env h" "handle_display_bitmap env cf key blocking timeout h = Some (r, h')"
  shows "handlers_ok env h'"
  using display_state [OF assms(2)] show_cached_ok [OF _ assms(1)] assms(1) notify_ok by metis

lemma calibrate_state:
  assumes "handle_calibrate_display env cf w ht h = Some (r, h')"
  shows "h' = h \<or> (\<exists>v r1 h1. handle_submit_bitmap env v h = (r1, h1) \<and>
    (h' = h1 \<or> (\<exists>key r2. handle_display_bitmap env cf key (JBool False) default_blocking_timeout h1 = Some (r2, h'))))"
  using assms unfolding handle_calibrate_display_def
  by (simp split: sum.splits option.splits prod.splits) blast+

lemma calibrate_ok [handler_ok]:
  assumes "handlers_ok env h" "handle_calibrate_display env cf w ht h = Some (r, h')"
  shows "handlers_ok env h'"
  using calibrate_state [OF assms(2)] assms(1) submit_ok display_ok by blast

section \<open>Properties\<close>

text \<open>The confirmer names the key at a poll that starts before the deadline.\<close>

definition confirmed_at :: "confirmation \<Rightarrow> string \<Rightarrow> seconds \<Rightarrow> nat \<Rightarrow> bool" where
  "confirmed_at cf key timeout n \<longleftrightarrow>
     (\<forall>j \<le> n. poll_clock cf j < poll_start cf + timeout) \<and>
     (case answer_at cf n of Inr s \<Rightarrow> s | Inl _ \<Rightarrow> []) = key"

lemma poll_for_confirmation_cases:
  assumes "\<exists>n. poll_start cf + timeout \<le> poll_clock cf n"
  shows "poll_for_confirmation cf key timeout =
    Some (if \<exists>n. confirmed_at cf key timeout n then Some key else None)"
proof -
  let ?probe = "\<lambda>k. let current = (case answer_at cf k of Inr s \<Rightarrow> s | Inl _ \<Rightarrow> [])
    in if current = key then Some current else None"
  have probe: "?probe k \<noteq> None \<longleftrightarrow> (case answer_at cf k of Inr s \<Rightarrow> s | Inl _ \<Rightarrow> []) = key"
    "?probe k \<noteq> None \<Longrightarrow> ?probe k = Some key" for k
    by (auto simp: Let_def split: if_splits)
  from assms show ?thesis
  proof (cases rule: poll_until_cases [where probe = ?probe])
    case (hit n v)
    then have "v = key" using probe(2) [of n] by simp
    moreover have "confirmed_at cf key timeout n"
      using hit probe(1) by (auto simp: confirmed_at_def polling_def le_less)
    ultimately show ?thesis using hit(1) by (auto simp: poll_for_confirmation_def)
  next
    case (timeout n)
    have "\<not> confirmed_at cf key timeout m" for m
    proof (cases "m < n")
      case True
      then have "?probe m = None" using timeout(2) by (simp add: polling_def)
      then show ?thesis using probe(1) [of m] by (auto simp: confirmed_at_def)
    next
      case False
      then show ?thesis using timeout(3) by (auto simp: confirmed_at_def not_less)
    qed
    then show ?thesis using timeout(1) by (simp add: poll_for_confirmation_def)
  qed
qed

text \<open>
  C35.  Blocking display.  For a cached key and a registered confirmer, if the clock ever reaches
  the deadline the call returns, and it reports success exactly when the confirmer named that very
  key at a poll before the deadline; otherwise it reports a timeout.  In both cases the key is the
  current display and the display command was sent.
\<close>

theorem blocking_display_spec:
  assumes "key \<in> set (keys (cache h))" "truthy blocking" "display_confirmer h"
    and "as_seconds timeout = Inr t" "\<exists>n. poll_start cf + t \<le> poll_clock cf n"
  shows "handle_display_bitmap env cf (JStr key) blocking timeout h =
    Some (Inr (if \<exists>n. confirmed_at cf key t n
      then JObj [(''success'', JBool True), (''cache_key'', JStr key), (''blocking'', JBool True),
        (''confirmed_cache_key'', JStr key)]
      else failure (''Timeout after '' @ py_str (repr_float env) timeout @
        ''s waiting for app to display '' @ key)),
      notify (DisplayRequested key) (h\<lparr>current_display_key := Some key\<rparr>))"
  unfolding display_blocking [OF assms(1-3)] assms(4) sum.case
    poll_for_confirmation_cases [OF assms(5)]
  by (cases "\<exists>n. confirmed_at cf key t n") (simp_all only: if_True if_False option.map option.case)


text \<open>
  Cache keys are eight hexadecimal digits, so two images can share one.  Submitting the
  second while the first is displayed replaces what the next screenshot shows, without any display
  request.
\<close>

theorem colliding_submission_replaces_display:
  assumes "png_cache_key env img' = png_cache_key env img" "current_display_key h = Some (png_cache_key env img)"
    and "event_callback h = Some cb"
  shows "\<exists>h'. handle_submit_bitmap env (JStr (b64encode img')) h =
      (Inr (JObj [(''cache_key'', JStr (png_cache_key env img)), (''courtesy_screenshot'', JStr (b64encode img'))]), h') \<and>
    handle_get_screenshot env h' = (Inr (JObj [(''screenshot'', JStr (b64encode img'))]), h') \<and>
    world h' = cb (BitmapSubmitted (png_cache_key env img) img') (world h)"
  using assms
  by (simp add: handle_submit_bitmap_def submit_bytes_def Let_def handle_get_screenshot_def displayed_def
      dict_simps notify_def)

section \<open>Concrete calls\<close>

definition toy_env :: mcp_env where
  "toy_env = \<lparr>sha256_hex = (\<lambda>d. replicate (length d) CHR ''a''), zlib_compress = (\<lambda>d. d),
     calibration_png = (\<lambda>_ _. Inr [1]), repr_float = (\<lambda>_. ''30.0'')\<rparr>"

text \<open>A confirmer that names another key at first.\<close>

definition late_answer :: confirmation where
  "late_answer = \<lparr>poll_start = 0, poll_clock = (\<lambda>k. of_nat k), answer_at =
     (\<lambda>k. if k = 0 then Inl OSError else if k = 1 then Inr ''0xOLD'' else Inr ''0xNEW'')\<rparr>"

definition toy_handlers :: "mcp_event list handlers" where
  "toy_handlers = \<lparr>cache = [(''0xNEW'', [1])], current_display_key = None, default_teal = None,
     event_callback = Some (\<lambda>e es. es @ [e]), display_confirmer = True, world = []\<rparr>"

theorem blocking_display_spec_witness:
  "handle_display_bitmap toy_env late_answer (JStr ''0xNEW'') (JBool True) (JInt 5) toy_handlers =
    Some (Inr (JObj [(''success'', JBool True), (''cache_key'', JStr ''0xNEW''), (''blocking'', JBool True),
        (''confirmed_cache_key'', JStr ''0xNEW'')]),
      toy_handlers\<lparr>current_display_key := Some ''0xNEW'', world := [DisplayRequested ''0xNEW'']\<rparr>)"
proof -
  have c: "\<exists>n. confirmed_at late_answer ''0xNEW'' 5 n"
    by (rule exI [of _ 2]) (auto simp: confirmed_at_def late_answer_def)
  have d: "\<exists>n. poll_start late_answer + 5 \<le> poll_clock late_answer n"
    by (rule exI [of _ 5]) (simp add: late_answer_def)
  have "''0xNEW'' \<in> set (keys (cache toy_handlers))" "display_confirmer toy_handlers"
    by (simp_all add: toy_handlers_def)
  from blocking_display_spec [OF this(1) _ this(2) _ d, of "JBool True" "JInt 5" toy_env] c
  show ?thesis by (simp only: if_True truthy.simps) (simp add: as_seconds_def notify_def toy_handlers_def)
qed


theorem colliding_submission_replaces_display_witness:
  "\<exists>h'. handle_submit_bitmap toy_env (JStr (b64encode [7, 8]))
      (toy_handlers\<lparr>current_display_key := Some ''0xAA''\<rparr>) =
      (Inr (JObj [(''cache_key'', JStr ''0xAA''), (''courtesy_screenshot'', JStr (b64encode [7, 8]))]), h') \<and>
    handle_get_screenshot toy_env h' = (Inr (JObj [(''screenshot'', JStr (b64encode [7, 8]))]), h')"
proof -
  have key: "png_cache_key toy_env [7, 8] = ''0xAA''" "png_cache_key toy_env [1, 2] = ''0xAA''"
    by code_simp+
  show ?thesis
    using colliding_submission_replaces_display [of toy_env "[7, 8]" "[1, 2]"
        "toy_handlers\<lparr>current_display_key := Some ''0xAA''\<rparr>" "\<lambda>e es. es @ [e]"]
    unfolding key by (auto simp: toy_handlers_def)
qed

end
