(* ===== verification/Mcp_Server.thy ===== *)
theory Mcp_Server
  imports Mcp_Handlers
begin

text \<open>
  \<^verbatim>\<open>mcp/src/tools.py\<close> and \<^verbatim>\<open>mcp/src/server.py\<close>: the tool schemas, and the
  JSON-RPC server that reads a request per line and writes a response per line.  The JSON decoder is
  a parameter (\<open>None\<close> for a \<open>JSONDecodeError\<close>).  An exception that no handler catches
  ends the server.
\<close>

section \<open>Tool definitions\<close>

definition tool :: "string \<Rightarrow> string \<Rightarrow> (string \<times> json) list \<Rightarrow> json" where
  "tool name description input_schema = JObj
     [(''name'', JStr name), (''description'', JStr description), (''inputSchema'', JObj input_schema)]"

definition TOOL_DEFINITIONS :: "json list" where
  "TOOL_DEFINITIONS =
     [tool ''display_bitmap''
        (''Instruct the Android Auto head unit to display a previously '' @
         ''cached bitmap. By default non-blocking (fire-and-forget). '' @
         ''Set blocking=true to wait for the app to confirm display.'')
        [(''type'', JStr ''object''),
         (''properties'', JObj
           [(''cache_key'', JObj
              [(''type'', JStr ''string''),
               (''description'', JStr ''Hex cache key of the bitmap to display (e.g., '0xDEADBEEF').'')]),
            (''blocking'', JObj
              [(''type'', JStr ''boolean''),
               (''description'', JStr (''If true, wait for the Android app to confirm it is '' @
                  ''displaying the bitmap. Default: false.'')),
               (''default'', JBool False)])]),
         (''required'', JList [JStr ''cache_key''])],
      tool ''submit_bitmap''
        (''Submit a rendered bitmap (PNG) for caching. Returns the assigned '' @
         ''hex cache key and a courtesy screenshot showing how it looks on '' @
         ''the display at the correct dimensions. Use this to verify '' @
         ''rendering before calling display_bitmap.'')
        [(''type'', JStr ''object''),
         (''properties'', JObj
           [(''image_data'', JObj
              [(''type'', JStr ''string''), (''description'', JStr ''Base64-encoded PNG image data.'')])]),
         (''required'', JList [JStr ''image_data''])],
      tool ''get_screenshot''
        (''Request a screenshot of the current Android Auto display. '' @
         ''Returns a base64-encoded PNG. Use for troubleshooting or '' @
         ''verifying what is currently shown on the head unit.'')
        [(''type'', JStr ''object''), (''properties'', JObj [])],
      tool ''calibrate_display''
        (''Run coordinate calibration to determine where the VanPilot app '' @
         ''appears within the DHU screenshot. Displays a calibration pattern '' @
         ''with colored corner markers, then returns the pattern info needed '' @
         ''to compute the app-to-DHU coordinate transform.'')
        [(''type'', JStr ''object''),
         (''properties'', JObj
           [(''pattern_width'', JObj
              [(''type'', JStr ''integer''),
               (''description'', JStr ''Width of the calibration pattern in pixels. Default: 1024.''),
               (''default'', JInt 1024)]),
            (''pattern_height'', JObj
              [(''type'', JStr ''integer''),
               (''description'', JStr ''Height of the calibration pattern in pixels. Default: 600.''),
               (''default'', JInt 600)])])]]"

definition get_tool_by_name :: "string \<Rightarrow> json option" where
  "get_tool_by_name name =
     find (\<lambda>t. json_get t ''name'' JNull = Inr (JStr name)) TOOL_DEFINITIONS"

section \<open>Calling a handler with keyword arguments\<close>

text \<open>The parameters of the handler functions with their defaults, in order.\<close>

definition handler_params :: "(string \<times> (string \<times> json option) list) list" where
  "handler_params =
     [(''display_bitmap'', [(''cache_key'', None), (''blocking'', Some (JBool False)),
         (''timeout_seconds'', Some default_blocking_timeout)]),
      (''submit_bitmap'', [(''image_data'', None)]),
      (''get_screenshot'', []),
      (''calibrate_display'', [(''pattern_width'', Some (JInt 1024)), (''pattern_height'', Some (JInt 600))])]"

fun bind_params :: "(string \<times> json option) list \<Rightarrow> (string \<times> json) list \<Rightarrow> json list result" where
  "bind_params [] kvs = Inr []"
| "bind_params ((name, dflt) # ps) kvs =
     (case map_of kvs name of
        Some v \<Rightarrow> map_sum id ((#) v) (bind_params ps kvs)
      | None \<Rightarrow> (case dflt of
            None \<Rightarrow> Inl TypeError
          | Some v \<Rightarrow> map_sum id ((#) v) (bind_params ps kvs)))"

text \<open>\<open>f(**arguments)\<close>: a mapping whose keys are all parameters, none required missing.\<close>

definition bind_arguments :: "(string \<times> json option) list \<Rightarrow> json \<Rightarrow> json list result" where
  "bind_arguments ps arguments =
     (case arguments of
        JObj kvs \<Rightarrow> if list_all (\<lambda>k. k \<in> set (map fst ps)) (map fst kvs) then bind_params ps kvs
                    else Inl TypeError
      | _ \<Rightarrow> Inl TypeError)"

definition run_tool ::
  "mcp_env \<Rightarrow> confirmation \<Rightarrow> string \<Rightarrow> json list \<Rightarrow> 'w handlers \<Rightarrow> (json result \<times> 'w handlers) option"
  where
  "run_tool env cf name args h =
     (if name = ''display_bitmap'' then
        handle_display_bitmap env cf (args ! 0) (args ! 1) (args ! 2) h
      else if name = ''submit_bitmap'' then Some (handle_submit_bitmap env (args ! 0) h)
      else if name = ''get_screenshot'' then Some (handle_get_screenshot env h)
      else handle_calibrate_display env cf (args ! 0) (args ! 1) h)"

section \<open>Requests\<close>

definition success_response :: "json \<Rightarrow> json \<Rightarrow> json" where
  "success_response request_id r =
     JObj [(''jsonrpc'', JStr ''2.0''), (''id'', request_id), (''result'', r)]"

definition error_response :: "json \<Rightarrow> int \<Rightarrow> string \<Rightarrow> json" where
  "error_response request_id err message =
     JObj [(''jsonrpc'', JStr ''2.0''), (''id'', request_id),
       (''error'', JObj [(''code'', JInt err), (''message'', JStr message)])]"

definition handle_initialize :: "json \<Rightarrow> json" where
  "handle_initialize request_id = success_response request_id (JObj
     [(''protocolVersion'', JStr ''2024-11-05''),
      (''capabilities'', JObj [(''tools'', JObj [])]),
      (''serverInfo'', JObj [(''name'', JStr ''vanpilot-display''), (''version'', JStr ''0.1.0'')])])"

definition handle_tools_list :: "json \<Rightarrow> json" where
  "handle_tools_list request_id =
     success_response request_id (JObj [(''tools'', JList TOOL_DEFINITIONS)])"

text \<open>The handler of a tool name: a name that cannot be hashed raises in the lookup.\<close>

definition find_handler :: "json \<Rightarrow> (string \<times> (string \<times> json option) list) option result" where
  "find_handler tool_name =
     (if \<not> hashable tool_name then Inl TypeError
      else case tool_name of
          JStr name \<Rightarrow> Inr (map_option (Pair name) (map_of handler_params name))
        | _ \<Rightarrow> Inr None)"

definition handle_tools_call ::
  "mcp_env \<Rightarrow> confirmation \<Rightarrow> json \<Rightarrow> json \<Rightarrow> 'w handlers \<Rightarrow> (json result \<times> 'w handlers) option" where
  "handle_tools_call env cf request_id params h =
     (case json_get params ''name'' JNull of
        Inl e \<Rightarrow> Some (Inl e, h)
      | Inr tool_name \<Rightarrow>
          (case json_get params ''arguments'' (JObj []) of
             Inl e \<Rightarrow> Some (Inl e, h)
           | Inr arguments \<Rightarrow>
               (case find_handler tool_name of
                  Inl e \<Rightarrow> Some (Inl e, h)
                | Inr None \<Rightarrow> Some (Inr (error_response request_id (- 32601)
                    (''Unknown tool: '' @ py_str (repr_float env) tool_name)), h)
                | Inr (Some (name, ps)) \<Rightarrow>
                    (case bind_arguments ps arguments of
                       Inl e \<Rightarrow> Some (Inl e, h)
                     | Inr args \<Rightarrow>
                         map_option (\<lambda>(r, h'). (map_sum id (\<lambda>res. success_response request_id (JObj
                             [(''content'', JList [JObj [(''type'', JStr ''text''),
                                (''text'', JStr (dumps (repr_float env) res))]])])) r, h'))
                           (run_tool env cf name args h)))))"

text \<open>\<open>Inr None\<close> is a notification: no response is written.\<close>

definition handle_request ::
  "mcp_env \<Rightarrow> confirmation \<Rightarrow> json \<Rightarrow> 'w handlers \<Rightarrow> (json option result \<times> 'w handlers) option" where
  "handle_request env cf request h =
     (case json_get request ''method'' JNull of
        Inl e \<Rightarrow> Some (Inl e, h)
      | Inr meth \<Rightarrow>
          (case (json_get request ''id'' JNull, json_get request ''params'' (JObj [])) of
             (Inr request_id, Inr params) \<Rightarrow>
               if request_id = JNull \<and> meth \<noteq> JNull then Some (Inr None, h)
               else if meth = JNull then
                 Some (Inr (Some (error_response request_id (- 32600) ''Invalid request: missing method'')), h)
               else if meth = JStr ''initialize'' then Some (Inr (Some (handle_initialize request_id)), h)
               else if meth = JStr ''tools/list'' then Some (Inr (Some (handle_tools_list request_id)), h)
               else if meth = JStr ''tools/call'' then
                 map_option (\<lambda>(r, h'). (map_sum id Some r, h')) (handle_tools_call env cf request_id params h)
               else Some (Inr (Some (error_response request_id (- 32601)
                   (''Method not found: '' @ py_str (repr_float env) meth))), h)
           | (Inl e, _) \<Rightarrow> Some (Inl e, h)
           | (_, Inl e) \<Rightarrow> Some (Inl e, h)))"

text \<open>
  The loop over standard input: the lines, each with what its call would observe, and the lines
  written.  The first component tells which exception ended the server, if any.
\<close>

fun serve ::
  "mcp_env \<Rightarrow> (string \<Rightarrow> json option) \<Rightarrow> (string \<times> confirmation) list \<Rightarrow> 'w handlers \<Rightarrow>
   (exn option \<times> string list \<times> 'w handlers) option" where
  "serve env loads [] h = Some (None, [], h)"
| "serve env loads ((raw, cf) # lines) h =
     (let line = strip raw
      in if line = [] then serve env loads lines h
         else case loads line of
             None \<Rightarrow>
               map_option (\<lambda>(e, out, h'). (e, dumps (repr_float env)
                   (error_response JNull (- 32700) ''Parse error'') # out, h'))
                 (serve env loads lines h)
           | Some request \<Rightarrow>
               (case handle_request env cf request h of
                  None \<Rightarrow> None
                | Some (Inl e, h') \<Rightarrow> Some (Some e, [], h')
                | Some (Inr None, h') \<Rightarrow> serve env loads lines h'
                | Some (Inr (Some response), h') \<Rightarrow>
                    map_option (\<lambda>(e, out, h''). (e, dumps (repr_float env) response # out, h''))
                      (serve env loads lines h')))"

section \<open>The invariant, through the server\<close>

lemma run_tool_ok [handler_ok]:
  assumes "handlers_ok env h" "run_tool env cf name args h = Some (r, h')"
  shows "handlers_ok env h'"
  using assms unfolding run_tool_def
  by (auto split: if_splits dest: submit_ok screenshot_ok display_ok calibrate_ok)

lemma tools_call_state:
  assumes "handle_tools_call env cf request_id params h = Some (r, h')"
  shows "h' = h \<or> (\<exists>name args r'. run_tool env cf name args h = Some (r', h'))"
  using assms unfolding handle_tools_call_def
  by (simp split: sum.splits option.splits prod.splits) blast+

lemma request_state:
  assumes "handle_request env cf request h = Some (r, h')"
  shows "h' = h \<or> (\<exists>request_id params r'. handle_tools_call env cf request_id params h = Some (r', h'))"
proof (cases "json_get request ''method'' JNull")
  case (Inl e)
  with assms show ?thesis by (simp add: handle_request_def)
next
  case (Inr meth)
  show ?thesis
  proof (cases "\<exists>i p. json_get request ''id'' JNull = Inr i \<and> json_get request ''params'' (JObj []) = Inr p")
    case True
    then obtain i p where ip: "json_get request ''id'' JNull = Inr i" "json_get request ''params'' (JObj []) = Inr p"
      by blast
    show ?thesis
    proof (cases "meth = JStr ''tools/call'' \<and> i \<noteq> JNull")
      case True
      then have "map_option (\<lambda>(r, h'). (map_sum id Some r, h')) (handle_tools_call env cf i p h) = Some (r, h')"
        using assms Inr ip by (simp add: handle_request_def)
      then show ?thesis by (auto split: option.splits)
    next
      case False
      then show ?thesis using assms Inr ip
        by (auto simp: handle_request_def split: if_splits)
    qed
  next
    case False
    then show ?thesis using assms Inr
      by (cases "json_get request ''id'' JNull"; cases "json_get request ''params'' (JObj [])")
        (simp_all add: handle_request_def)
  qed
qed

lemma request_ok [handler_ok]:
  assumes "handlers_ok env h" "handle_request env cf request h = Some (r, h')"
  shows "handlers_ok env h'"
  using request_state [OF assms(2)] tools_call_state run_tool_ok [OF assms(1)] assms(1) by blast

text \<open>What one line does: the response written, if any, or the end of the server.\<close>

definition serve_line ::
  "mcp_env \<Rightarrow> (string \<Rightarrow> json option) \<Rightarrow> string \<Rightarrow> confirmation \<Rightarrow> 'w handlers \<Rightarrow>
   (json option result \<times> 'w handlers) option" where
  "serve_line env loads raw cf h =
     (if strip raw = [] then Some (Inr None, h)
      else case loads (strip raw) of
          None \<Rightarrow> Some (Inr (Some (error_response JNull (- 32700) ''Parse error'')), h)
        | Some request \<Rightarrow> handle_request env cf request h)"

lemma serve_Cons:
  "serve env loads ((raw, cf) # lines) h =
     (case serve_line env loads raw cf h of
        None \<Rightarrow> None
      | Some (Inl e, h') \<Rightarrow> Some (Some e, [], h')
      | Some (Inr None, h') \<Rightarrow> serve env loads lines h'
      | Some (Inr (Some response), h') \<Rightarrow>
          map_option (\<lambda>(e, out, h''). (e, dumps (repr_float env) response # out, h''))
            (serve env loads lines h'))"
  by (cases "loads (strip raw)") (simp_all add: serve_line_def Let_def)

lemma serve_line_ok [handler_ok]:
  assumes "handlers_ok env h" "serve_line env loads raw cf h = Some (r, h')"
  shows "handlers_ok env h'"
  using assms request_ok [OF assms(1)] by (auto simp: serve_line_def split: if_splits option.splits)

text \<open>A run of the server is a run of its lines.\<close>

lemma serve_cases:
  assumes "serve env loads ((raw, cf) # lines) h = Some (e, out, h')"
  obtains (crash) x where "serve_line env loads raw cf h = Some (Inl x, h')" "e = Some x" "out = []"
    | (silent) h1 where "serve_line env loads raw cf h = Some (Inr None, h1)"
        "serve env loads lines h1 = Some (e, out, h')"
    | (reply) response out1 h1 where "serve_line env loads raw cf h = Some (Inr (Some response), h1)"
        "serve env loads lines h1 = Some (e, out1, h')" "out = dumps (repr_float env) response # out1"
  using assms unfolding serve_Cons by (auto split: option.splits sum.splits)

lemma serve_ok:
  "handlers_ok env h \<Longrightarrow> serve env loads lines h = Some (e, out, h') \<Longrightarrow> handlers_ok env h'"
proof (induction lines arbitrary: h e out)
  case (Cons l lines)
  obtain raw cf where l: "l = (raw, cf)" by (cases l)
  from Cons.prems(2) [unfolded l] show ?case
    by (cases rule: serve_cases) (use Cons.IH Cons.prems(1) serve_line_ok in blast)+
qed simp

text \<open>
  C37.  After any sequence of request lines, good or bad, the handlers' state is consistent: cache
  keys are the keys of their contents, each once, whatever is displayed is in the cache, and
  the default surface is the teal image.  Hence a screenshot always shows what was displayed last.
\<close>

theorem server_keeps_state_consistent:
  assumes "serve env loads lines (handlers_init w) = Some (e, out, h)"
  shows "handlers_ok env h \<and> (current_display_key h = Some k \<longrightarrow>
      (\<exists>png. displayed h = Some png \<and> png_cache_key env png = k \<and>
        handle_get_screenshot env h = (Inr (JObj [(''screenshot'', JStr (b64encode png))]), h)))"
proof (intro conjI impI)
  show ok: "handlers_ok env h" by (rule serve_ok [OF handlers_init_ok assms])
  assume cur: "current_display_key h = Some k"
  with ok have "k \<in> set (keys (cache h))" by (simp add: handlers_ok_def)
  then obtain png where png: "dict_get (cache h) k = Some png"
    by (metis dict_get_None_iff option.exhaust)
  with ok have "k = png_cache_key env png"
    using dict_get_in [OF png] by (auto simp: handlers_ok_def)
  with png cur show "\<exists>png. displayed h = Some png \<and> png_cache_key env png = k \<and>
        handle_get_screenshot env h = (Inr (JObj [(''screenshot'', JStr (b64encode png))]), h)"
    by (simp add: displayed_def handle_get_screenshot_def)
qed

section \<open>Responses\<close>

definition is_response_to :: "json \<Rightarrow> json \<Rightarrow> bool" where
  "is_response_to request_id response \<longleftrightarrow>
     (\<exists>r. response = success_response request_id r) \<or> (\<exists>c m. response = error_response request_id c m)"

lemma is_response_intros [simp]:
  "is_response_to i (success_response i r)" "is_response_to i (error_response i c m)"
  "is_response_to i (handle_initialize i)" "is_response_to i (handle_tools_list i)"
  by (auto simp: is_response_to_def handle_initialize_def handle_tools_list_def)

lemma map_sum_Inr_iff: "map_sum id f x = Inr y \<longleftrightarrow> (\<exists>z. x = Inr z \<and> y = f z)"
  by (cases x) auto

lemma tools_call_response:
  assumes "handle_tools_call env cf request_id params h = Some (Inr response, h')"
  shows "is_response_to request_id response"
  using assms unfolding handle_tools_call_def
  by (auto simp: map_sum_Inr_iff split: sum.splits option.splits prod.splits)

lemma response_matches_request_aux:
  assumes "handle_request env cf (JObj kvs) h = Some (Inr reply, h')"
  defines "request_id \<equiv> (case map_of kvs ''id'' of None \<Rightarrow> JNull | Some i \<Rightarrow> i)"
    and "meth \<equiv> (case map_of kvs ''method'' of None \<Rightarrow> JNull | Some m \<Rightarrow> m)"
  shows "reply = None \<longleftrightarrow> request_id = JNull \<and> meth \<noteq> JNull"
    and "reply = None \<Longrightarrow> h' = h"
    and "reply = Some response \<Longrightarrow> is_response_to request_id response"
proof -
  obtain params where req: "json_get (JObj kvs) ''method'' JNull = Inr meth"
    "json_get (JObj kvs) ''id'' JNull = Inr request_id" "json_get (JObj kvs) ''params'' (JObj []) = Inr params"
    by (simp add: json_get_def meth_def request_id_def)
  have "(reply = None \<longleftrightarrow> request_id = JNull \<and> meth \<noteq> JNull) \<and> (reply = None \<longrightarrow> h' = h) \<and>
      (\<forall>response. reply = Some response \<longrightarrow> is_response_to request_id response)"
  proof (cases "meth = JStr ''tools/call'' \<and> request_id \<noteq> JNull")
    case True
    with assms(1) req obtain response where "handle_tools_call env cf request_id params h = Some (Inr response, h')"
      "reply = Some response"
      by (auto simp: handle_request_def map_sum_Inr_iff)
    with True tools_call_response show ?thesis by blast
  next
    case False
    with assms(1) req show ?thesis by (auto simp: handle_request_def split: if_splits)
  qed
  then show "reply = None \<longleftrightarrow> request_id = JNull \<and> meth \<noteq> JNull" "reply = None \<Longrightarrow> h' = h"
    "reply = Some response \<Longrightarrow> is_response_to request_id response" by auto
qed

text \<open>
  C38.  Who gets an answer.  A response carries the request's own id and exactly one of a result
  and an error; a request without an id but with a method is a notification, which is neither
  answered nor carried out.
\<close>

theorem response_matches_request:
  assumes "handle_request env cf (JObj kvs) h = Some (Inr reply, h')"
    and "request_id = (case map_of kvs ''id'' of None \<Rightarrow> JNull | Some i \<Rightarrow> i)"
    and "meth = (case map_of kvs ''method'' of None \<Rightarrow> JNull | Some m \<Rightarrow> m)"
  shows "(reply = None \<longleftrightarrow> request_id = JNull \<and> meth \<noteq> JNull) \<and> (reply = None \<longrightarrow> h' = h) \<and>
    (\<forall>response. reply = Some response \<longrightarrow> is_response_to request_id response)"
  unfolding assms(2,3) using response_matches_request_aux [OF assms(1)] by blast

text \<open>Whether a line of input is to be answered.\<close>

definition expects_reply :: "(string \<Rightarrow> json option) \<Rightarrow> string \<Rightarrow> bool" where
  "expects_reply loads line \<longleftrightarrow> line \<noteq> [] \<and>
     (case loads line of
        None \<Rightarrow> True
      | Some (JObj kvs) \<Rightarrow> \<not> ((map_of kvs ''id'' = None \<or> map_of kvs ''id'' = Some JNull) \<and>
          map_of kvs ''method'' \<noteq> None \<and> map_of kvs ''method'' \<noteq> Some JNull)
      | Some _ \<Rightarrow> False)"

lemma not_object_raises:
  "(\<nexists>kvs. request = JObj kvs) \<Longrightarrow> handle_request env cf request h = Some (Inl AttributeError, h)"
  by (cases request) (simp_all add: handle_request_def json_get_def)

lemma request_reply_iff:
  assumes "handle_request env cf request h = Some (Inr reply, h')" "loads line = Some request" "line \<noteq> []"
  shows "reply \<noteq> None \<longleftrightarrow> expects_reply loads line"
proof -
  obtain kvs where "request = JObj kvs" using assms(1) not_object_raises [of request env cf h] by auto
  with assms response_matches_request_aux [of env cf kvs h reply h'] show ?thesis
    by (auto simp: expects_reply_def split: option.splits)
qed

lemma line_reply_iff:
  assumes "serve_line env loads raw cf h = Some (Inr reply, h')"
  shows "reply \<noteq> None \<longleftrightarrow> expects_reply loads (strip raw)"
proof (cases "strip raw = []")
  case True
  with assms show ?thesis by (simp add: serve_line_def expects_reply_def)
next
  case False
  then show ?thesis
    using assms request_reply_iff [of env cf _ h reply h' loads "strip raw"]
    by (cases "loads (strip raw)") (auto simp: serve_line_def expects_reply_def)
qed

text \<open>
  Framing.  A server that reads its whole input has written one response for every line that
  asks for one, and every response is one line of output: no response contains a line break,
  whatever is in the reply.
\<close>

theorem one_line_per_request:
  assumes "serve env loads lines h = Some (None, out, h')" "\<And>x. one_line (repr_float env x)"
  shows "length out = length (filter (\<lambda>(raw, _). expects_reply loads (strip raw)) lines) \<and> list_all one_line out"
  using assms(1)
proof (induction lines arbitrary: h out)
  case (Cons l lines)
  obtain raw cf where l: "l = (raw, cf)" by (cases l)
  from Cons.prems [unfolded l] show ?case
  proof (cases rule: serve_cases)
    case (silent h1)
    with Cons.IH [of h1 out] line_reply_iff [OF silent(1)] show ?thesis by (simp add: l)
  next
    case (reply response out1 h1)
    with Cons.IH [of h1 out1] line_reply_iff [OF reply(1)] dumps_one_line [OF assms(2)]
    show ?thesis by (simp add: l)
  qed simp
qed simp

text \<open>
   What ends the server.  A request line whose JSON value is not an object (a batch, say), and
  a call of a known tool with a missing or unknown argument, stop the server without a response:
  no line after it is read.
\<close>

theorem bad_request_ends_server:
  assumes "strip raw \<noteq> []" "loads (strip raw) = Some request"
  shows "((\<nexists>kvs. request = JObj kvs) \<longrightarrow> serve env loads ((raw, cf) # lines) h = Some (Some AttributeError, [], h)) \<and>
    (request = JObj [(''jsonrpc'', v), (''id'', JInt i), (''method'', JStr ''tools/call''),
        (''params'', JObj [(''name'', JStr name), (''arguments'', arguments)])] \<longrightarrow>
      map_of handler_params name = Some ps \<longrightarrow> bind_arguments ps arguments = Inl e \<longrightarrow>
      serve env loads ((raw, cf) # lines) h = Some (Some e, [], h))"
proof (intro conjI impI)
  show "serve env loads ((raw, cf) # lines) h = Some (Some AttributeError, [], h)" if "\<nexists>kvs. request = JObj kvs"
    using assms that by (simp add: serve_Cons serve_line_def not_object_raises)
  show "serve env loads ((raw, cf) # lines) h = Some (Some e, [], h)"
    if "request = JObj [(''jsonrpc'', v), (''id'', JInt i), (''method'', JStr ''tools/call''),
        (''params'', JObj [(''name'', JStr name), (''arguments'', arguments)])]"
      "map_of handler_params name = Some ps" "bind_arguments ps arguments = Inl e"
    using assms that
    by (simp add: serve_Cons serve_line_def handle_request_def json_get_def handle_tools_call_def
        find_handler_def hashable_def)
qed

section \<open>The schemas and the handlers\<close>

definition schema_properties :: "json \<Rightarrow> (string \<times> json) list" where
  "schema_properties t = (case json_get t ''inputSchema'' JNull of
     Inr s \<Rightarrow> (case json_get s ''properties'' JNull of Inr (JObj ps) \<Rightarrow> ps | _ \<Rightarrow> []) | _ \<Rightarrow> [])"

definition schema_required :: "json \<Rightarrow> json list" where
  "schema_required t = (case json_get t ''inputSchema'' JNull of
     Inr s \<Rightarrow> (case json_get s ''required'' (JList []) of Inr (JList rs) \<Rightarrow> rs | _ \<Rightarrow> []) | _ \<Rightarrow> [])"

text \<open>What a schema says of a tool, in the form of a parameter list.\<close>

definition schema_params :: "json \<Rightarrow> (string \<times> json option) list" where
  "schema_params t = map (\<lambda>(name, p). (name, case json_get p ''default'' JNull of
     Inr JNull \<Rightarrow> None | Inr d \<Rightarrow> Some d | Inl _ \<Rightarrow> None)) (schema_properties t)"

text \<open>
  The schemas advertise the handlers: the tools are those with a handler, in the same order;
  a schema has the parameters of the handler with the same defaults, except the internal
  \<open>timeout_seconds\<close>; and the required properties are the parameters without a default.
\<close>

theorem schemas_match_handlers:
  "map (\<lambda>t. (t, get_tool_by_name (fst t) \<noteq> None)) handler_params = map (\<lambda>t. (t, True)) handler_params \<and>
   map (\<lambda>t. json_get t ''name'' JNull) TOOL_DEFINITIONS = map (\<lambda>(n, _). Inr (JStr n)) handler_params \<and>
   map schema_params TOOL_DEFINITIONS =
     map (\<lambda>(_, ps). filter (\<lambda>(n, _). n \<noteq> ''timeout_seconds'') ps) handler_params \<and>
   map schema_required TOOL_DEFINITIONS =
     map (\<lambda>(_, ps). map (JStr \<circ> fst) (filter (\<lambda>(_, d). d = None) ps)) handler_params"
  by (simp_all add: TOOL_DEFINITIONS_def handler_params_def get_tool_by_name_def tool_def json_get_def
      schema_params_def schema_properties_def schema_required_def default_blocking_timeout_def)

section \<open>Concrete requests\<close>

definition tool_request :: "string \<Rightarrow> (string \<times> json) list \<Rightarrow> json" where
  "tool_request name args = JObj [(''jsonrpc'', JStr ''2.0''), (''id'', JInt 1), (''method'', JStr ''tools/call''),
     (''params'', JObj [(''name'', JStr name), (''arguments'', JObj args)])]"

text \<open>A decoder of four request lines: submit, display, a notification, and a bad display.\<close>

definition toy_requests :: "string \<Rightarrow> json option" where
  "toy_requests s =
     (if s = ''S'' then Some (tool_request ''submit_bitmap'' [(''image_data'', JStr (b64encode [7, 8]))])
      else if s = ''D'' then Some (tool_request ''display_bitmap'' [(''cache_key'', JStr ''0xAA'')])
      else if s = ''N'' then Some (JObj [(''method'', JStr ''initialized'')])
      else if s = ''B'' then Some (tool_request ''display_bitmap'' [(''key'', JStr ''0xAA'')])
      else if s = ''L'' then Some (JList [])
      else None)"

definition toy_lines :: "(string \<times> confirmation) list" where
  "toy_lines = [(''S'', late_answer), (''N'', late_answer), (''?'', late_answer), (''D'', late_answer)]"

lemma toy_key: "png_cache_key toy_env [7, 8] = ''0xAA''"
  by code_simp

lemma strip_toy: "strip [CHR ''S''] = ''S''" "strip [CHR ''N''] = ''N''" "strip [CHR ''?''] = ''?''"
  "strip [CHR ''D''] = ''D''" "strip [CHR ''B''] = ''B''" "strip [CHR ''L''] = ''L''"
  by code_simp+

lemmas toy_run = serve_Cons serve_line_def strip_toy toy_requests_def tool_request_def handle_request_def
  handle_tools_call_def json_get_def find_handler_def hashable_def handler_params_def bind_arguments_def
  run_tool_def

lemma toy_serve:
  "\<exists>out h. serve toy_env toy_requests toy_lines (handlers_init ([] :: unit list)) = Some (None, out, h) \<and>
     current_display_key h = Some ''0xAA''"
proof -
  have "\<exists>r h1. handle_submit_bitmap toy_env (JStr (b64encode [7, 8])) (handlers_init ([] :: unit list)) = (Inr r, h1) \<and>
      ''0xAA'' \<in> set (keys (cache h1))"
    by (simp add: handle_submit_bitmap_def submit_bytes_def toy_key Let_def del: b64encode.simps)
  then obtain r h1 where sub: "handle_submit_bitmap toy_env (JStr (b64encode [7, 8])) (handlers_init ([] :: unit list)) = (Inr r, h1)"
    "''0xAA'' \<in> set (keys (cache h1))" by blast
  from display_nonblocking [OF this(2), of "JBool False" toy_env late_answer default_blocking_timeout]
  have dis: "handle_display_bitmap toy_env late_answer (JStr ''0xAA'') (JBool False) default_blocking_timeout h1 =
     Some (Inr (JObj [(''success'', JBool True), (''cache_key'', JStr ''0xAA''), (''blocking'', JBool False)]), shown ''0xAA'' h1)"
    by simp
  show ?thesis
    by (simp add: toy_run toy_lines_def sub(1) dis del: dumps.simps b64encode.simps)
qed

theorem server_keeps_state_consistent_witness:
  "\<exists>out h png. serve toy_env toy_requests toy_lines (handlers_init ([] :: unit list)) = Some (None, out, h) \<and>
     handlers_ok toy_env h \<and> displayed h = Some png \<and> png_cache_key toy_env png = ''0xAA''"
proof -
  obtain out and h :: "unit list handlers" where
    run: "serve toy_env toy_requests toy_lines (handlers_init []) = Some (None, out, h)"
    and cur: "current_display_key h = Some ''0xAA''"
    using toy_serve by blast
  from server_keeps_state_consistent [OF run] cur run show ?thesis by blast
qed

theorem response_matches_request_witness:
  "\<exists>reply h'. handle_request toy_env late_answer (JObj [(''id'', JInt 9), (''method'', JStr ''ping'')])
      (handlers_init ()) = Some (Inr (Some reply), h') \<and> is_response_to (JInt 9) reply"
proof -
  have "\<exists>reply h'. handle_request toy_env late_answer (JObj [(''id'', JInt 9), (''method'', JStr ''ping'')])
      (handlers_init ()) = Some (Inr reply, h')"
    by (simp add: handle_request_def json_get_def)
  then obtain reply h' where r: "handle_request toy_env late_answer (JObj [(''id'', JInt 9), (''method'', JStr ''ping'')])
      (handlers_init ()) = Some (Inr reply, h')" by blast
  with response_matches_request [OF r refl refl] show ?thesis by (cases reply) auto
qed

theorem one_line_per_request_witness:
  "\<exists>out h'. serve toy_env toy_requests toy_lines (handlers_init ([] :: unit list)) = Some (None, out, h') \<and> length out = 3"
proof -
  obtain out and h :: "unit list handlers" where
    run: "serve toy_env toy_requests toy_lines (handlers_init []) = Some (None, out, h)"
    using toy_serve by blast
  have "one_line (repr_float toy_env x)" for x
    by (simp add: toy_env_def is_line_end_def code_def)
  from one_line_per_request [OF run this] run show ?thesis
    by (simp add: toy_lines_def strip_toy expects_reply_def toy_requests_def tool_request_def)
qed

theorem bad_request_ends_server_witness:
  "serve toy_env toy_requests [(''L'', late_answer), (''D'', late_answer)] (handlers_init ()) =
     Some (Some AttributeError, [], handlers_init ()) \<and>
   serve toy_env toy_requests [(''B'', late_answer), (''D'', late_answer)] (handlers_init ()) =
     Some (Some TypeError, [], handlers_init ())"
proof -
  have ps: "map_of handler_params ''display_bitmap'' = Some [(''cache_key'', None), (''blocking'', Some (JBool False)),
         (''timeout_seconds'', Some default_blocking_timeout)]"
    by (simp add: handler_params_def)
  have "bind_arguments [(''cache_key'', None), (''blocking'', Some (JBool False)),
         (''timeout_seconds'', Some default_blocking_timeout)] (JObj [(''key'', JStr ''0xAA'')]) = Inl TypeError"
    by (simp add: bind_arguments_def)
  note bind = this
  have lines: "strip ''B'' \<noteq> []" "toy_requests (strip ''B'') = Some (tool_request ''display_bitmap'' [(''key'', JStr ''0xAA'')])"
    "strip ''L'' \<noteq> []" "toy_requests (strip ''L'') = Some (JList [])"
    by (simp_all only: strip_toy) (simp_all add: toy_requests_def)
  have "serve toy_env toy_requests [(''L'', late_answer), (''D'', late_answer)] (handlers_init ()) =
     Some (Some AttributeError, [], handlers_init ())"
    by (rule bad_request_ends_server [where raw = "''L''" and loads = toy_requests, OF lines(3,4), THEN conjunct1, rule_format]) simp
  moreover have "serve toy_env toy_requests [(''B'', late_answer), (''D'', late_answer)] (handlers_init ()) =
     Some (Some TypeError, [], handlers_init ())"
    by (rule bad_request_ends_server [where raw = "''B''" and loads = toy_requests, OF lines(1,2), THEN conjunct2, rule_format, OF tool_request_def ps bind])
  ultimately show ?thesis ..
qed

end
