(* ===== verification/Event_Store.thy ===== *)
theory Event_Store
  imports Prelude "HOL-Library.Sublist"
begin

text \<open>
  \<^verbatim>\<open>supervisor/src/event_store.py\<close>: the supervisor's event log, the messages of
  \<^verbatim>\<open>sync.proto\<close> it holds, and the client that drains it page by page
  (\<^verbatim>\<open>SyncClient.kt\<close>, the protocol \<^verbatim>\<open>sync.proto\<close> describes).

  The interface other components rely on is the locale \<open>event_sink\<close> (adding an event
  appends to the log) and its extension \<open>event_source\<close> (a fetch whose page is big enough
  returns everything that was added since); both are interpreted on the store's own operations.
\<close>

section \<open>Events\<close>

datatype payload =
    TextMessage (text_agent: string) (content: string)
  | DisplayCommand (display_key: string)
  | BitmapPayload (bitmap_key: string) (image_data: bytes)
  | WatchdogTimeout (silent_agent: string) (silent_duration_ms: int)
  | InputDeliveryFailure (attempted_input: string) (target_agent: string)

record event =
  timestamp_ms :: int
  payload :: payload

section \<open>The interface\<close>

locale event_sink =
  fixes add :: "'e \<Rightarrow> 's \<Rightarrow> 's" and log :: "'s \<Rightarrow> 'e list"
  assumes log_add: "log (add e s) = log s @ [e]"
begin

lemma log_fold_add: "log (fold add es s) = log s @ es"
  by (induction es arbitrary: s) (simp_all add: log_add)

lemma log_mono: "set (log s) \<subseteq> set (log (fold add es s))"
  by (simp add: log_fold_add)

end

locale event_source = event_sink +
  fixes fetch :: "'b \<Rightarrow> int \<Rightarrow> int \<Rightarrow> 'a list" and stamp :: "'a \<Rightarrow> int"
  assumes fetch_all:
    "int (length (log s)) \<le> n \<Longrightarrow> set (fetch s since n) = {e \<in> set (log s). since \<le> stamp e}"
begin

text \<open>What a component emits, a later fetch with room for the whole log returns.\<close>

lemma emitted_delivered:
  assumes "e \<in> set es" "since \<le> stamp e" "int (length (log s) + length es) \<le> n"
  shows "e \<in> set (fetch (fold add es s) since n)"
  using assms by (simp add: fetch_all log_fold_add)

lemma nothing_invented:
  assumes "int (length (log s) + length es) \<le> n" "e \<in> set (fetch (fold add es s) since n)"
  shows "e \<in> set (log s) \<or> e \<in> set es"
  using assms by (simp add: fetch_all log_fold_add)

end

section \<open>The store\<close>

definition make_hardcoded_events :: "event list" where
  "make_hardcoded_events =
     [\<lparr>timestamp_ms = 1000, payload =
         TextMessage ''lead'' ''VanPilot supervisor online. Awaiting instructions.''\<rparr>,
      \<lparr>timestamp_ms = 2000, payload =
         TextMessage ''lead'' ''Agent team initialized with 1 member.''\<rparr>,
      \<lparr>timestamp_ms = 3000, payload = WatchdogTimeout ''researcher'' 30000\<rparr>]"

record event_store =
  events :: "event list"

definition event_store_init :: event_store where
  "event_store_init = \<lparr>events = make_hardcoded_events\<rparr>"

definition get_events :: "event_store \<Rightarrow> int \<Rightarrow> int \<Rightarrow> event list" where
  "get_events st since_timestamp_ms max_count =
     (let filtered = filter (\<lambda>e. timestamp_ms e \<ge> since_timestamp_ms) (events st);
          sorted = sort_key timestamp_ms filtered
      in slice_to sorted max_count)"

definition add_event :: "event \<Rightarrow> event_store \<Rightarrow> event_store" where
  "add_event e st = st\<lparr>events := events st @ [e]\<rparr>"

lemma events_add_event [simp]: "events (add_event e st) = events st @ [e]"
  by (simp add: add_event_def)

text \<open>The events a request is entitled to: at or after its timestamp, oldest first.\<close>

definition due :: "event_store \<Rightarrow> int \<Rightarrow> event list" where
  "due st since = sort_key timestamp_ms (filter (\<lambda>e. timestamp_ms e \<ge> since) (events st))"

lemma get_events_take: "0 \<le> n \<Longrightarrow> get_events st since n = take (nat n) (due st since)"
  by (simp add: get_events_def due_def slice_simps Let_def)

lemma set_due: "set (due st since) = {e \<in> set (events st). since \<le> timestamp_ms e}"
  by (auto simp: due_def)

lemma sorted_due: "sorted (map timestamp_ms (due st since))"
  by (simp add: due_def)

lemma length_due: "length (due st since) \<le> length (events st)"
  by (simp add: due_def)

lemma filter_due:
  "filter (\<lambda>e. timestamp_ms e = t) (due st since) =
     (if since \<le> t then filter (\<lambda>e. timestamp_ms e = t) (events st) else [])"
proof -
  have "filter (\<lambda>e. timestamp_ms e = t) (due st since) =
      filter (\<lambda>e. timestamp_ms e = t) (filter (\<lambda>e. timestamp_ms e \<ge> since) (events st))"
    unfolding due_def by (rule sort_key_stable)
  also have "\<dots> = (if since \<le> t then filter (\<lambda>e. timestamp_ms e = t) (events st) else [])"
    by (auto simp: filter_empty_conv intro!: filter_cong)
  finally show ?thesis .
qed

interpretation store_sink: event_sink add_event events
  by unfold_locales simp

interpretation store_source: event_source add_event events get_events timestamp_ms
proof
  fix s :: event_store and n since
  assume n: "int (length (events s)) \<le> n"
  then have "length (due s since) \<le> nat n" using length_due [of s since] by linarith
  moreover from n have "0 \<le> n" by linarith
  ultimately show "set (get_events s since n) = {e \<in> set (events s). since \<le> timestamp_ms e}"
    by (simp add: get_events_take set_due)
qed

text \<open>
  C30.  A fetch with a non-negative \<open>max_count\<close> returns the oldest events that are due:
  it is sorted by timestamp, is drawn from the due events with their multiplicity, has
  \<open>max_count\<close> events or all of them, leaves behind only events at least as recent as every
  event it returns, and keeps the insertion order of events with equal timestamps.
\<close>

theorem get_events_spec:
  assumes "0 \<le> n"
  shows "sorted (map timestamp_ms (get_events st since n)) \<and>
     mset (get_events st since n) \<subseteq># filter_mset (\<lambda>e. since \<le> timestamp_ms e) (mset (events st)) \<and>
     length (get_events st since n) =
       min (nat n) (length (filter (\<lambda>e. since \<le> timestamp_ms e) (events st))) \<and>
     (\<forall>e \<in> set (get_events st since n).
        \<forall>e' \<in># filter_mset (\<lambda>e. since \<le> timestamp_ms e) (mset (events st))
                - mset (get_events st since n).
          timestamp_ms e \<le> timestamp_ms e') \<and>
     (\<forall>t \<ge> since. prefix (filter (\<lambda>e. timestamp_ms e = t) (get_events st since n))
                          (filter (\<lambda>e. timestamp_ms e = t) (events st)))"
proof -
  let ?page = "get_events st since n" and ?due = "due st since"
  have page: "?page = take (nat n) ?due" by (rule get_events_take [OF assms])
  have split: "?due = ?page @ drop (nat n) ?due" unfolding page by simp
  have due_mset: "mset ?due = filter_mset (\<lambda>e. since \<le> timestamp_ms e) (mset (events st))"
    by (simp add: due_def)
  have rest: "mset ?due - mset ?page = mset (drop (nat n) ?due)"
    by (subst split) (simp only: mset_append add_diff_cancel_left')
  have "sorted (map timestamp_ms (?page @ drop (nat n) ?due))"
    using sorted_due [of st since] by (simp only: split [symmetric])
  then have sorted: "sorted (map timestamp_ms ?page)"
    and order: "\<forall>e \<in> set ?page. \<forall>e' \<in> set (drop (nat n) ?due). timestamp_ms e \<le> timestamp_ms e'"
    by (auto simp: sorted_append)
  have sub: "mset ?page \<subseteq># mset ?due"
    by (metis split mset_append mset_subset_eq_add_left)
  have len: "length ?page = min (nat n) (length ?due)" by (simp add: page min.commute)
  have stable: "prefix (filter (\<lambda>e. timestamp_ms e = t) ?page)
      (filter (\<lambda>e. timestamp_ms e = t) (events st))" if "since \<le> t" for t
  proof -
    have "filter (\<lambda>e. timestamp_ms e = t) (?page @ drop (nat n) ?due) =
        filter (\<lambda>e. timestamp_ms e = t) (events st)"
      using filter_due [of t st since] that by (simp only: split [symmetric] if_True)
    then show ?thesis by (metis filter_append prefixI)
  qed
  show ?thesis
    using sorted order sub len stable unfolding due_mset [symmetric] rest
    by (simp add: due_def)
qed

definition sample_store :: event_store where
  "sample_store = \<lparr>events =
     [\<lparr>timestamp_ms = 20, payload = DisplayCommand ''b''\<rparr>,
      \<lparr>timestamp_ms = 10, payload = DisplayCommand ''a''\<rparr>,
      \<lparr>timestamp_ms = 20, payload = DisplayCommand ''c''\<rparr>]\<rparr>"

theorem get_events_spec_witness:
  "mset (get_events sample_store 5 2) \<subseteq>#
     filter_mset (\<lambda>e. 5 \<le> timestamp_ms e) (mset (events sample_store)) \<and>
   map payload (get_events sample_store 5 2) = [DisplayCommand ''a'', DisplayCommand ''b'']"
  using get_events_spec [of 2 sample_store 5]
  by (simp add: get_events_def sample_store_def slice_simps)

section \<open>The client that drains the log\<close>

text \<open>
  \<^verbatim>\<open>SyncClient.pollEvents\<close>: ask for events since the last timestamp seen, move to the
  timestamp of the last event received, and double the page size up to 200; an RPC error
  shrinks the page to 5.
\<close>

record sync_client =
  sc_since :: int
  sc_max_count :: int

definition poll_events :: "bool \<Rightarrow> event_store \<Rightarrow> sync_client \<Rightarrow> event list \<times> sync_client" where
  "poll_events rpc_ok st c =
     (if rpc_ok
      then let es = get_events st (sc_since c) (sc_max_count c)
           in (es, if es \<noteq> []
                   then c\<lparr>sc_since := timestamp_ms (last es),
                          sc_max_count := (if sc_max_count c < 200 then min (sc_max_count c * 2) 200
                                        else sc_max_count c)\<rparr>
                   else c)
      else ([], c\<lparr>sc_max_count := 5\<rparr>))"

fun poll_many :: "nat \<Rightarrow> event_store \<Rightarrow> sync_client \<Rightarrow> event list \<times> sync_client" where
  "poll_many 0 st c = ([], c)"
| "poll_many (Suc k) st c =
     (let (es, c') = poll_events True st c; (es', c'') = poll_many k st c' in (es @ es', c''))"

abbreviation same_time :: "event_store \<Rightarrow> int \<Rightarrow> event list" where
  "same_time st t \<equiv> filter (\<lambda>e. timestamp_ms e = t) (events st)"

lemma page_size_grows:
  assumes "0 < sc_max_count c"
  shows "sc_max_count c \<le> sc_max_count (snd (poll_events True st c))"
  using assms by (simp add: poll_events_def Let_def)

lemma since_poll:
  "es = get_events st (sc_since c) (sc_max_count c) \<Longrightarrow>
   sc_since (snd (poll_events True st c)) =
     (if es = [] then sc_since c else timestamp_ms (last es))"
  by (simp add: poll_events_def Let_def)

lemma poll_many_due:
  "0 < sc_max_count c \<Longrightarrow> set (fst (poll_many k st c)) \<subseteq> set (due st (sc_since c))"
proof (induction k arbitrary: c)
  case 0
  then show ?case by simp
next
  case (Suc k)
  let ?es = "get_events st (sc_since c) (sc_max_count c)"
  let ?c' = "snd (poll_events True st c)"
  have es: "fst (poll_events True st c) = ?es" by (simp add: poll_events_def Let_def)
  have page: "set ?es \<subseteq> set (due st (sc_since c))"
    using Suc.prems by (auto simp: get_events_take dest: in_set_takeD)
  have later: "sc_since c \<le> sc_since ?c'"
  proof (cases "?es = []")
    case False
    then have "last ?es \<in> set (due st (sc_since c))" using page last_in_set by blast
    with False show ?thesis by (simp add: since_poll [OF refl] set_due)
  qed (simp add: since_poll [OF refl])
  have "0 < sc_max_count ?c'" using page_size_grows [OF Suc.prems, of st] Suc.prems by linarith
  from Suc.IH [OF this] later
  have "set (fst (poll_many k st ?c')) \<subseteq> set (due st (sc_since c))"
    by (auto simp: set_due)
  with page show ?case by (simp add: split_beta es)
qed

text \<open>
  A full page of a log in which no timestamp fills a page by itself ends strictly later than
  it began, and what it left out is due at the next request.
\<close>

lemma full_page_advances:
  fixes st since n
  defines "es \<equiv> get_events st since n"
  assumes few: "\<And>t. int (length (same_time st t)) < n"
    and more: "n < int (length (due st since))"
  shows "set (due st since) \<subseteq> set es \<union> set (due st (timestamp_ms (last es)))"
    and "length (due st (timestamp_ms (last es))) < length (due st since)"
    and "es \<noteq> []"
proof -
  let ?due = "due st since" and ?t = "timestamp_ms (last es)"
  have n: "0 < n" using few [of 0] by linarith
  have es: "es = take (nat n) ?due" using n by (simp add: es_def get_events_take)
  with n more show ne: "es \<noteq> []" by auto
  have len: "length es = nat n" using n more by (simp add: es)
  have split: "?due = es @ drop (nat n) ?due" unfolding es by simp
  have "sorted (map timestamp_ms (es @ drop (nat n) ?due))"
    using sorted_due [of st since] by (simp only: split [symmetric])
  then have after: "\<forall>e' \<in> set (drop (nat n) ?due). ?t \<le> timestamp_ms e'"
    and sorted: "sorted (map timestamp_ms es)"
    using ne by (auto simp: sorted_append)
  have drop_sub: "set (drop (nat n) ?due) \<subseteq> set (events st)"
    using set_due [of st since] by (auto dest: in_set_dropD)
  show "set ?due \<subseteq> set es \<union> set (due st ?t)"
    using after drop_sub by (subst split) (auto simp: set_due)
  have "\<exists>e \<in> set es. timestamp_ms e \<noteq> ?t"
  proof (rule ccontr)
    assume "\<not> ?thesis"
    then have "filter (\<lambda>e. timestamp_ms e = ?t) es = es" by (simp add: filter_id_conv)
    moreover have "filter (\<lambda>e. timestamp_ms e = ?t) ?due =
        filter (\<lambda>e. timestamp_ms e = ?t) es @ filter (\<lambda>e. timestamp_ms e = ?t) (drop (nat n) ?due)"
      by (subst split) (rule filter_append)
    ultimately have "length es \<le> length (filter (\<lambda>e. timestamp_ms e = ?t) ?due)" by simp
    also have "\<dots> \<le> length (same_time st ?t)" by (simp add: filter_due)
    finally show False using few [of ?t] len by linarith
  qed
  then obtain e where e: "e \<in> set es" "timestamp_ms e \<noteq> ?t" by blast
  have "timestamp_ms e \<le> ?t"
  proof -
    obtain i where i: "i < length es" "es ! i = e" using e(1) by (auto simp: in_set_conv_nth)
    have "map timestamp_ms es ! i \<le> map timestamp_ms es ! (length es - 1)"
      using sorted i by (intro sorted_nth_mono) auto
    with i ne show ?thesis by (simp add: last_conv_nth)
  qed
  with e have older: "timestamp_ms e < ?t" by linarith
  have e_due: "e \<in> set (filter (\<lambda>e. since \<le> timestamp_ms e) (events st))"
    using e(1) split set_due [of st since] by (metis (mono_tags, lifting) Un_iff mem_Collect_eq set_append set_filter)
  then have "since < ?t" using older by auto
  then have "length (filter (\<lambda>e. ?t \<le> timestamp_ms e) (events st)) =
      length (filter (\<lambda>e. ?t \<le> timestamp_ms e) (filter (\<lambda>e. since \<le> timestamp_ms e) (events st)))"
    by (auto intro!: arg_cong [where f = length] filter_cong)
  also have "\<dots> < length (filter (\<lambda>e. since \<le> timestamp_ms e) (events st))"
    using e_due older by (intro length_filter_less [where x = e]) auto
  finally show "length (due st ?t) < length ?due" by (simp add: due_def)
qed

text \<open>
  C1.  Draining is complete: if no timestamp fills a page by itself, then polling once more than
  there are events due delivers exactly the events due at the client's timestamp, whatever the
  growth of the page size.
\<close>

theorem poll_many_complete:
  assumes "\<And>t. int (length (same_time st t)) < sc_max_count c"
    and "length (filter (\<lambda>e. sc_since c \<le> timestamp_ms e) (events st)) < k"
  shows "set (fst (poll_many k st c)) =
    {e \<in> set (events st). sc_since c \<le> timestamp_ms e}"
  using assms
proof (induction k arbitrary: c)
  case 0
  then show ?case by simp
next
  case (Suc k)
  let ?since = "sc_since c" and ?n = "sc_max_count c"
  let ?es = "get_events st ?since ?n" and ?c' = "snd (poll_events True st c)"
  have n: "0 < ?n" using Suc.prems(1) [of 0] by linarith
  have poll: "fst (poll_many (Suc k) st c) = ?es @ fst (poll_many k st ?c')"
    by (simp add: split_beta) (simp add: poll_events_def Let_def)
  have within: "set (fst (poll_many (Suc k) st c)) \<subseteq> set (due st ?since)"
    using poll_many_due [OF n] .
  have "set (due st ?since) \<subseteq> set (fst (poll_many (Suc k) st c))"
  proof (cases "int (length (due st ?since)) \<le> ?n")
    case True
    then have "?es = due st ?since" using n by (simp add: get_events_take)
    then show ?thesis unfolding poll by simp
  next
    case False
    then have full: "?n < int (length (due st ?since))" by simp
    note adv = full_page_advances [where n = ?n and st = st and since = ?since, OF Suc.prems(1) full]
    have since': "sc_since ?c' = timestamp_ms (last ?es)"
      using adv(3) by (simp add: since_poll [OF refl])
    have grown: "?n \<le> sc_max_count ?c'" by (rule page_size_grows [OF n])
    have "set (fst (poll_many k st ?c')) = set (due st (sc_since ?c'))"
      unfolding set_due
    proof (rule Suc.IH)
      show "int (length (same_time st t)) < sc_max_count ?c'" for t
        using Suc.prems(1) [of t] grown by linarith
      show "length (filter (\<lambda>e. sc_since ?c' \<le> timestamp_ms e) (events st)) < k"
        using adv(2) Suc.prems(2) unfolding since' by (simp add: due_def)
    qed
    then show ?thesis using adv(1) unfolding poll since' by auto
  qed
  with within show ?case by (simp add: set_due)
qed

theorem poll_many_complete_witness:
  "set (fst (poll_many 4 sample_store \<lparr>sc_since = 5, sc_max_count = 3\<rparr>)) =
     set (events sample_store)"
proof -
  let ?c = "\<lparr>sc_since = 5, sc_max_count = 3\<rparr> :: sync_client"
  have few: "int (length (same_time sample_store t)) < sc_max_count ?c" for t
    by (simp add: sample_store_def)
  have all: "filter (\<lambda>e. sc_since ?c \<le> timestamp_ms e) (events sample_store) =
      events sample_store"
    by (simp add: sample_store_def)
  then have "length (filter (\<lambda>e. sc_since ?c \<le> timestamp_ms e) (events sample_store)) < 4"
    unfolding all by (simp add: sample_store_def)
  from poll_many_complete [OF few this] show ?thesis
    unfolding set_filter [symmetric] all .
qed

lemma poll_stuck:
  assumes count: "max 200 (sc_max_count c) \<le> int (length (same_time st t))"
    and c: "sc_since c = t" "0 < sc_max_count c"
  defines "es \<equiv> fst (poll_events True st c)" and "c' \<equiv> snd (poll_events True st c)"
  shows "set es \<subseteq> set (same_time st t)"
    and "sc_since c' = t" and "0 < sc_max_count c'"
    and "max 200 (sc_max_count c') \<le> int (length (same_time st t))"
proof -
  let ?n = "sc_max_count c"
  have es: "es = take (nat ?n) (due st t)"
    using c by (simp add: es_def poll_events_def Let_def get_events_take)
  have split: "filter (\<lambda>e. timestamp_ms e = t) (due st t) = same_time st t"
    by (simp add: filter_due)
  have pick: "take m zs = take m (filter (\<lambda>e. timestamp_ms e = t) zs)"
    if "sorted (map timestamp_ms zs)" "\<forall>e \<in> set zs. t \<le> timestamp_ms e"
      "m \<le> length (filter (\<lambda>e. timestamp_ms e = t) zs)" for m zs
    using that
  proof (induction zs arbitrary: m)
    case (Cons z zs)
    show ?case
    proof (cases "timestamp_ms z = t")
      case True
      with Cons show ?thesis by (cases m) auto
    next
      case False
      with Cons.prems have "\<forall>e \<in> set (z # zs). timestamp_ms e \<noteq> t" by force
      then have "filter (\<lambda>e. timestamp_ms e = t) (z # zs) = []" by (simp add: filter_empty_conv)
      with Cons.prems(3) show ?thesis by simp
    qed
  qed simp
  have "nat ?n \<le> length (same_time st t)" using count by linarith
  then have es': "es = take (nat ?n) (same_time st t)"
    unfolding es split [symmetric]
    using sorted_due [of st t] set_due [of st t] by (intro pick) auto
  then show sub: "set es \<subseteq> set (same_time st t)" by (auto dest: in_set_takeD)
  have ne: "es \<noteq> []" using es' count c(2) by auto
  with sub have "timestamp_ms (last es) = t" using last_in_set by fastforce
  with ne c show "sc_since c' = t"
    by (simp add: c'_def es_def poll_events_def Let_def)
  show "0 < sc_max_count c'" using page_size_grows [OF c(2), of st] c(2) by (simp add: c'_def)
  show "max 200 (sc_max_count c') \<le> int (length (same_time st t))"
    using count by (auto simp: c'_def poll_events_def Let_def)
qed

text \<open>
   The converse, a livelock: once the client stands at a timestamp that carries at least as
  many events as the largest page (200), every further poll returns events of that timestamp
  only, so no later event is ever delivered, however often the client polls.
\<close>

theorem poll_many_stuck:
  assumes "max 200 (sc_max_count c) \<le> int (length (same_time st (sc_since c)))"
    and "0 < sc_max_count c" and "sc_since c < timestamp_ms e"
  shows "e \<notin> set (fst (poll_many k st c))"
proof -
  have "set (fst (poll_many k st c)) \<subseteq> set (same_time st t)"
    if "max 200 (sc_max_count c) \<le> int (length (same_time st t))"
      "sc_since c = t" "0 < sc_max_count c" for t
    using that
  proof (induction k arbitrary: c)
    case (Suc k)
    from poll_stuck [OF Suc.prems] Suc.IH show ?case by (simp add: split_beta)
  qed simp
  from this [OF assms(1) refl assms(2)] assms(3) show ?thesis by auto
qed

definition crowded_store :: "nat \<Rightarrow> event_store" where
  "crowded_store n = \<lparr>events =
     replicate n \<lparr>timestamp_ms = 7, payload = TextMessage ''lead'' ''x''\<rparr> @
     [\<lparr>timestamp_ms = 8, payload = DisplayCommand ''k''\<rparr>]\<rparr>"

lemma crowded_same_time: "length (same_time (crowded_store n) 7) = n"
  by (simp add: crowded_store_def)

lemma crowded_last: "\<lparr>timestamp_ms = 8, payload = DisplayCommand ''k''\<rparr> \<in> set (events (crowded_store n))"
  by (simp add: crowded_store_def)

theorem poll_many_stuck_witness:
  "\<lparr>timestamp_ms = 8, payload = DisplayCommand ''k''\<rparr> \<in> set (events (crowded_store 200)) \<and>
   (\<forall>k. \<lparr>timestamp_ms = 8, payload = DisplayCommand ''k''\<rparr> \<notin>
     set (fst (poll_many k (crowded_store 200) \<lparr>sc_since = 7, sc_max_count = 50\<rparr>)))"
proof (intro conjI allI)
  show "\<lparr>timestamp_ms = 8, payload = DisplayCommand ''k''\<rparr> \<in> set (events (crowded_store 200))"
    by (rule crowded_last)
next
  fix k
  show "\<lparr>timestamp_ms = 8, payload = DisplayCommand ''k''\<rparr> \<notin>
     set (fst (poll_many k (crowded_store 200) \<lparr>sc_since = 7, sc_max_count = 50\<rparr>))"
    by (rule poll_many_stuck) (simp_all add: crowded_same_time)
qed

end
