(* ===== verification/Bitmap_Cache.thy ===== *)
theory Bitmap_Cache
  imports Prelude
begin

text \<open>
  \<^verbatim>\<open>supervisor/src/bitmap_cache_tracker.py\<close> and the \<open>BitmapStore\<close> of
  \<^verbatim>\<open>supervisor/src/mcp_bridge.py\<close> that delegates to it: the bitmaps submitted so far,
  the keys sent to each client, reconciliation on reconnection, and the event that wakes blocked
  readers.  The locale \<open>bitmap_cache\<close> is the contract the sync service and the bridge
  rely on; both classes satisfy it.
\<close>

section \<open>The contract\<close>

locale bitmap_cache =
  fixes put :: "string \<Rightarrow> bytes \<Rightarrow> 's \<Rightarrow> 's"
    and get :: "'s \<Rightarrow> string \<Rightarrow> bytes option"
    and stored :: "'s \<Rightarrow> string set"
    and mark :: "string \<Rightarrow> string \<Rightarrow> 's \<Rightarrow> 's"
    and known :: "'s \<Rightarrow> string \<Rightarrow> string set"
    and forget :: "string \<Rightarrow> 's \<Rightarrow> 's"
    and resync :: "string \<Rightarrow> string set \<Rightarrow> 's \<Rightarrow> string set \<times> 's"
  assumes get_put: "get (put k v s) = (get s)(k \<mapsto> v)"
    and get_mark: "get (mark c k s) = get s"
    and get_forget: "get (forget c s) = get s"
    and get_resync: "get (snd (resync c present s)) = get s"
    and stored_iff: "k \<in> stored s \<longleftrightarrow> get s k \<noteq> None"
    and known_put: "known (put k v s) = known s"
    and known_mark: "known (mark c k s) = (known s)(c := insert k (known s c))"
    and known_forget: "known (forget c s) = (known s)(c := {})"
    and known_resync: "known (snd (resync c present s)) = (known s)(c := present)"
    and missing: "fst (resync c present s) = stored s - present"
begin

lemmas cache_simps = get_put get_mark get_forget get_resync known_put known_mark
  known_forget known_resync missing

lemma stored_put: "stored (put k v s) = insert k (stored s)"
  by (auto simp: stored_iff get_put split: if_splits)

lemma stored_resync: "stored (snd (resync c present s)) = stored s"
  by (auto simp: stored_iff get_resync)

lemma stored_mark: "stored (mark c k s) = stored s"
  by (auto simp: stored_iff get_mark)

lemma stored_fold_mark: "stored (fold (mark c) ks s) = stored s"
  by (induction ks arbitrary: s) (simp_all add: stored_mark)

lemma known_fold_mark:
  "known (fold (mark c) ks s) = (known s)(c := set ks \<union> known s c)"
  by (induction ks arbitrary: s) (auto simp: known_mark fun_eq_iff)

text \<open>
  Sending a reconnecting client the keys its reconciliation reported as missing brings it up to
  date: the record of what it holds covers the store, and reporting that record leaves nothing.
\<close>

lemma resync_then_send:
  assumes "set ks = fst (resync c present s)"
  defines "s' \<equiv> fold (mark c) ks (snd (resync c present s))"
  shows "known s' c = present \<union> stored s" and "c' \<noteq> c \<Longrightarrow> known s' c' = known s c'"
    and "fst (resync c (known s' c) s') = {}"
proof -
  show known_c: "known s' c = present \<union> stored s"
    using assms(1) by (auto simp: s'_def known_fold_mark known_resync missing)
  show "known s' c' = known s c'" if "c' \<noteq> c"
    using that by (simp add: s'_def known_fold_mark known_resync)
  show "fst (resync c (known s' c) s') = {}"
    unfolding known_c missing by (auto simp: s'_def stored_fold_mark stored_resync)
qed

end

section \<open>BitmapCacheTracker\<close>

record tracker =
  bitmaps :: "(string, bytes) dict"
  sent :: "(string, string set) dict"
  new_bitmap_event :: bool

definition tracker_init :: tracker where
  "tracker_init = \<lparr>bitmaps = [], sent = [], new_bitmap_event = False\<rparr>"

definition store_bitmap :: "string \<Rightarrow> bytes \<Rightarrow> tracker \<Rightarrow> tracker" where
  "store_bitmap cache_key image_data t =
     t\<lparr>bitmaps := dict_set cache_key image_data (bitmaps t), new_bitmap_event := True\<rparr>"

text \<open>
  \<open>Event.wait\<close> returns whether the event is set when it comes back; what other threads do
  while the caller is blocked has already happened to \<open>t\<close>.
\<close>

definition wait_for_new_bitmap :: "tracker \<Rightarrow> bool \<times> tracker" where
  "wait_for_new_bitmap t = (new_bitmap_event t, t\<lparr>new_bitmap_event := False\<rparr>)"

definition get_bitmap :: "tracker \<Rightarrow> string \<Rightarrow> bytes option" where
  "get_bitmap t cache_key = dict_get (bitmaps t) cache_key"

definition has_bitmap :: "tracker \<Rightarrow> string \<Rightarrow> bool" where
  "has_bitmap t cache_key \<longleftrightarrow> cache_key \<in> set (keys (bitmaps t))"

definition all_keys :: "tracker \<Rightarrow> string set" where
  "all_keys t = set (keys (bitmaps t))"

definition mark_sent :: "string \<Rightarrow> string \<Rightarrow> tracker \<Rightarrow> tracker" where
  "mark_sent client_id cache_key t =
     (let s = (if client_id \<notin> set (keys (sent t)) then dict_set client_id {} (sent t) else sent t)
      in t\<lparr>sent := dict_set client_id (insert cache_key (the (dict_get s client_id))) s\<rparr>)"

definition get_sent_keys :: "tracker \<Rightarrow> string \<Rightarrow> string set" where
  "get_sent_keys t client_id = (case dict_get (sent t) client_id of None \<Rightarrow> {} | Some ks \<Rightarrow> ks)"

definition clear_client :: "string \<Rightarrow> tracker \<Rightarrow> tracker" where
  "clear_client client_id t = t\<lparr>sent := dict_pop client_id (sent t)\<rparr>"

definition reconcile :: "string \<Rightarrow> string set \<Rightarrow> tracker \<Rightarrow> string set \<times> tracker" where
  "reconcile client_id present_keys t =
     (set (keys (bitmaps t)) - present_keys, t\<lparr>sent := dict_set client_id present_keys (sent t)\<rparr>)"

lemmas tracker_defs = store_bitmap_def wait_for_new_bitmap_def get_bitmap_def has_bitmap_def
  all_keys_def mark_sent_def get_sent_keys_def clear_client_def reconcile_def

interpretation tracker: bitmap_cache store_bitmap get_bitmap all_keys mark_sent get_sent_keys
  clear_client reconcile
proof
  fix k c v t present
  show "get_bitmap (store_bitmap k v t) = (get_bitmap t)(k \<mapsto> v)"
    and "get_bitmap (mark_sent c k t) = get_bitmap t"
    and "get_bitmap (clear_client c t) = get_bitmap t"
    and "get_bitmap (snd (reconcile c present t)) = get_bitmap t"
    and "get_sent_keys (store_bitmap k v t) = get_sent_keys t"
    and "fst (reconcile c present t) = all_keys t - present"
    by (simp_all add: tracker_defs fun_eq_iff dict_simps Let_def)
  show "(k \<in> all_keys t) = (get_bitmap t k \<noteq> None)"
    by (simp add: tracker_defs dict_get_None_iff)
  show "get_sent_keys (clear_client c t) = (get_sent_keys t)(c := {})"
    and "get_sent_keys (snd (reconcile c present t)) = (get_sent_keys t)(c := present)"
    by (simp_all add: tracker_defs fun_eq_iff dict_simps)
  show "get_sent_keys (mark_sent c k t) = (get_sent_keys t)(c := insert k (get_sent_keys t c))"
    using dict_get_None_iff [of "sent t" c]
    by (cases "dict_get (sent t) c") (auto simp: tracker_defs fun_eq_iff dict_simps Let_def)
qed

lemma has_bitmap_iff: "has_bitmap t k \<longleftrightarrow> get_bitmap t k \<noteq> None"
  by (simp add: tracker_defs dict_get_None_iff)

section \<open>BitmapStore\<close>

record bitmap_store =
  tracker_of :: tracker

definition bitmap_store_init :: bitmap_store where
  "bitmap_store_init = \<lparr>tracker_of = tracker_init\<rparr>"

definition bs_put :: "string \<Rightarrow> bytes \<Rightarrow> bitmap_store \<Rightarrow> bitmap_store" where
  "bs_put cache_key data b = b\<lparr>tracker_of := store_bitmap cache_key data (tracker_of b)\<rparr>"

definition bs_get :: "bitmap_store \<Rightarrow> string \<Rightarrow> bytes option" where
  "bs_get b cache_key = get_bitmap (tracker_of b) cache_key"

definition bs_has :: "bitmap_store \<Rightarrow> string \<Rightarrow> bool" where
  "bs_has b cache_key = has_bitmap (tracker_of b) cache_key"

definition bs_all_keys :: "bitmap_store \<Rightarrow> string set" where
  "bs_all_keys b = all_keys (tracker_of b)"

definition bs_mark_sent :: "string \<Rightarrow> string \<Rightarrow> bitmap_store \<Rightarrow> bitmap_store" where
  "bs_mark_sent client_id cache_key b =
     b\<lparr>tracker_of := mark_sent client_id cache_key (tracker_of b)\<rparr>"

definition bs_get_sent_keys :: "bitmap_store \<Rightarrow> string \<Rightarrow> string set" where
  "bs_get_sent_keys b client_id = get_sent_keys (tracker_of b) client_id"

definition bs_clear_client :: "string \<Rightarrow> bitmap_store \<Rightarrow> bitmap_store" where
  "bs_clear_client client_id b = b\<lparr>tracker_of := clear_client client_id (tracker_of b)\<rparr>"

definition bs_wait_for_new_bitmap :: "bitmap_store \<Rightarrow> bool \<times> bitmap_store" where
  "bs_wait_for_new_bitmap b =
     (let (r, t) = wait_for_new_bitmap (tracker_of b) in (r, b\<lparr>tracker_of := t\<rparr>))"

definition bs_reconcile :: "string \<Rightarrow> string set \<Rightarrow> bitmap_store \<Rightarrow> string set \<times> bitmap_store" where
  "bs_reconcile client_id present_keys b =
     (let (missing, t) = reconcile client_id present_keys (tracker_of b)
      in (missing, b\<lparr>tracker_of := t\<rparr>))"

lemmas bitmap_store_defs = bs_put_def bs_get_def bs_has_def bs_all_keys_def bs_mark_sent_def
  bs_get_sent_keys_def bs_clear_client_def bs_wait_for_new_bitmap_def bs_reconcile_def

interpretation bstore: bitmap_cache bs_put bs_get bs_all_keys bs_mark_sent bs_get_sent_keys
  bs_clear_client bs_reconcile
  by unfold_locales
    (simp_all add: bitmap_store_defs fun_eq_iff split_beta tracker.cache_simps tracker.stored_iff)

lemma bs_get_wait [simp]: "bs_get (snd (bs_wait_for_new_bitmap b)) = bs_get b"
  by (simp add: bitmap_store_defs tracker_defs fun_eq_iff)

lemma bs_sent_wait [simp]:
  "bs_get_sent_keys (snd (bs_wait_for_new_bitmap b)) = bs_get_sent_keys b"
  by (simp add: bitmap_store_defs tracker_defs fun_eq_iff)

text \<open>
  C27.  Reconciliation.  The reply to a reconnecting client is exactly the stored keys it does not
  report; once those have been sent to it, its record is what it reported plus everything stored,
  a second reconciliation on that record finds nothing missing, and no other client's record
  has changed.
\<close>

theorem reconcile_then_send_complete:
  assumes "set ks = fst (bs_reconcile c present b)"
  shows "fst (bs_reconcile c present b) = bs_all_keys b - present \<and>
    (let b' = fold (bs_mark_sent c) ks (snd (bs_reconcile c present b))
     in bs_get_sent_keys b' c = present \<union> bs_all_keys b \<and>
        fst (bs_reconcile c (bs_get_sent_keys b' c) b') = {} \<and>
        (\<forall>c'. c' = c \<or> bs_get_sent_keys b' c' = bs_get_sent_keys b c'))"
  using bstore.resync_then_send [OF assms] by (auto simp: bstore.missing Let_def)

definition sample_cache :: bitmap_store where
  "sample_cache =
     bs_mark_sent ''car'' ''a'' (bs_put ''b'' [2] (bs_put ''a'' [1] bitmap_store_init))"

lemma stored_sample_cache: "bs_all_keys sample_cache = {''a'', ''b''}"
proof -
  have "bs_all_keys bitmap_store_init = {}"
    by (simp add: bitmap_store_defs tracker_defs bitmap_store_init_def tracker_init_def)
  then show ?thesis by (auto simp: sample_cache_def bstore.stored_put bstore.stored_mark)
qed

theorem reconcile_then_send_complete_witness:
  "let b' = fold (bs_mark_sent ''phone'') [''b'']
              (snd (bs_reconcile ''phone'' {''a'', ''z''} sample_cache))
   in bs_get_sent_keys b' ''phone'' = {''a'', ''z''} \<union> {''a'', ''b''} \<and>
      fst (bs_reconcile ''phone'' (bs_get_sent_keys b' ''phone'') b') = {}"
proof -
  have "{''a'', ''b''} - {''a'', ''z''} = {''b''}" by auto
  then have "set [''b''] = fst (bs_reconcile ''phone'' {''a'', ''z''} sample_cache)"
    by (simp add: bstore.missing stored_sample_cache)
  from reconcile_then_send_complete [OF this] show ?thesis
    unfolding stored_sample_cache Let_def by blast
qed

end
