(* ===== verification/Sync_Service.thy ===== *)
theory Sync_Service
  imports Event_Store Bitmap_Cache
begin

text \<open>
  \<^verbatim>\<open>supervisor/src/sync_service.py\<close>: the RPC handlers the Android app calls.  A
  handler that blocks, \<open>GetBitmap\<close>, is a loop over what it observes of the outside world
  (the clock, the state of the connection) and over what other threads do to the bitmap store
  while it holds no lock.
\<close>

definition fallback_client_id :: string where
  "fallback_client_id = ''default''"

text \<open>The context's \<open>peer()\<close> may raise; there is no context in unit tests.\<close>

type_synonym rpc_context = "string result option"

definition client_id :: "rpc_context \<Rightarrow> string" where
  "client_id context = (case context of
       None \<Rightarrow> fallback_client_id
     | Some (Inr peer) \<Rightarrow> if peer \<noteq> [] then peer else fallback_client_id
     | Some (Inl _) \<Rightarrow> fallback_client_id)"

record servicer =
  store :: event_store
  bitmap_store :: bitmap_store
  has_injector :: bool

definition GetEvents :: "servicer \<Rightarrow> int \<Rightarrow> int \<Rightarrow> event list" where
  "GetEvents s since_timestamp_ms max_count = get_events (store s) since_timestamp_ms max_count"

text \<open>\<open>accepted\<close>, and the injection that is started in the background, if any.\<close>

definition SendUserInput ::
  "servicer \<Rightarrow> string \<Rightarrow> string \<Rightarrow> bool \<times> (string \<times> string \<times> string) option" where
  "SendUserInput s text target_agent_id =
     (if \<not> has_injector s then (False, None)
      else let target = (if target_agent_id \<noteq> [] then target_agent_id else ''lead'');
               session_name = ''vanpilot-'' @ target
           in (True, Some (session_name, text, target)))"

text \<open>
  What one \<open>GetBitmap\<close> call observes in its \<open>k\<close>-th iteration: the clock at the
  deadline test, whether the client is still connected, the clock before blocking, and the effect
  of the other threads from its lookup to the end of its wait.
\<close>

record bitmap_env =
  now_at :: "nat \<Rightarrow> seconds"
  active_at :: "nat \<Rightarrow> bool"
  later_at :: "nat \<Rightarrow> seconds"
  others_at :: "nat \<Rightarrow> bitmap_store \<Rightarrow> bitmap_store"

definition GetBitmap_body ::
  "bitmap_env \<Rightarrow> string \<Rightarrow> string \<Rightarrow> int \<Rightarrow> seconds \<Rightarrow> nat \<Rightarrow> bitmap_store \<Rightarrow>
   bitmap_store + (bytes option \<times> bitmap_store)" where
  "GetBitmap_body env client key wait_ms deadline k b =
     (case bs_get b key of
        Some data \<Rightarrow> Inr (Some data, bs_mark_sent client key b)
      | None \<Rightarrow>
          if wait_ms \<le> 0 \<or> now_at env k \<ge> deadline then Inr (None, b)
          else if \<not> active_at env k then Inr (None, b)
          else let b' = others_at env k b
               in Inl (if deadline - later_at env k > 0
                       then snd (bs_wait_for_new_bitmap b') else b'))"

definition bitmap_deadline :: "seconds \<Rightarrow> int \<Rightarrow> seconds" where
  "bitmap_deadline start wait_ms = (if wait_ms > 0 then start + of_int wait_ms / 1000 else 0)"

definition GetBitmap ::
  "bitmap_env \<Rightarrow> seconds \<Rightarrow> rpc_context \<Rightarrow> string \<Rightarrow> int \<Rightarrow> bitmap_store \<Rightarrow>
   (bytes option \<times> bitmap_store) option" where
  "GetBitmap env start context cache_key wait_ms b =
     loop (GetBitmap_body env (client_id context) cache_key wait_ms (bitmap_deadline start wait_ms))
       0 b"

definition ReconcileCache ::
  "rpc_context \<Rightarrow> string list \<Rightarrow> bitmap_store \<Rightarrow> string set \<times> bitmap_store" where
  "ReconcileCache context present_keys b =
     bs_reconcile (client_id context) (set present_keys) b"

datatype sync_method = M_GetEvents | M_SendUserInput | M_GetBitmap | M_ReconcileCache

definition sync_method_handlers :: "(string, sync_method) dict" where
  "sync_method_handlers =
     [(''/vanpilot.v1.SyncService/GetEvents'', M_GetEvents),
      (''/vanpilot.v1.SyncService/SendUserInput'', M_SendUserInput),
      (''/vanpilot.v1.SyncService/GetBitmap'', M_GetBitmap),
      (''/vanpilot.v1.SyncService/ReconcileCache'', M_ReconcileCache)]"

definition sync_service_route :: "string \<Rightarrow> sync_method option" where
  "sync_service_route rpc_method = dict_get sync_method_handlers rpc_method"

section \<open>Blocking reads\<close>

lemma GetBitmap_leaves:
  assumes "wait_ms \<le> 0 \<or> bitmap_deadline start wait_ms \<le> now_at env n"
  shows "\<exists>r. GetBitmap_body env client key wait_ms (bitmap_deadline start wait_ms) n b = Inr r"
  using assms by (auto simp: GetBitmap_body_def split: option.split)

lemma GetBitmap_returns:
  assumes "wait_ms \<le> 0 \<or> (\<exists>n. bitmap_deadline start wait_ms \<le> now_at env n)"
  shows "\<exists>r b'. GetBitmap env start ctx key wait_ms b = Some (r, b')"
proof -
  have "\<exists>n. \<forall>b. \<exists>r. GetBitmap_body env (client_id ctx) key wait_ms
      (bitmap_deadline start wait_ms) n b = Inr r"
    using assms GetBitmap_leaves by blast
  from loop_terminates [OF this] show ?thesis by (auto simp: GetBitmap_def)
qed

lemma GetBitmap_result:
  assumes "GetBitmap env start ctx key wait_ms b = Some (r, b')"
  shows "r = bs_get b' key"
    and "r \<noteq> None \<Longrightarrow> key \<in> bs_get_sent_keys b' (client_id ctx)"
proof -
  from assms obtain n u where
    "GetBitmap_body env (client_id ctx) key wait_ms (bitmap_deadline start wait_ms) n u = Inr (r, b')"
    unfolding GetBitmap_def by (rule loop_exit)
  then show "r = bs_get b' key" and "r \<noteq> None \<Longrightarrow> key \<in> bs_get_sent_keys b' (client_id ctx)"
    by (auto simp: GetBitmap_body_def bstore.get_mark bstore.known_mark Let_def
        split: option.splits if_splits)
qed

text \<open>
  C28.  A \<open>GetBitmap\<close> call that does not wait, or whose clock reaches the deadline, returns.
  It answers with the bitmap stored under the key when it answers, or with nothing only if the
  store then holds nothing under the key; and a bitmap it returns is recorded as sent to the
  client it was sent to.
\<close>

theorem GetBitmap_total_correct:
  assumes "wait_ms \<le> 0 \<or> (\<exists>n. bitmap_deadline start wait_ms \<le> now_at env n)"
  shows "\<exists>r b'. GetBitmap env start ctx key wait_ms b = Some (r, b') \<and>
     r = bs_get b' key \<and>
     (r = None \<or> key \<in> bs_get_sent_keys b' (client_id ctx))"
proof -
  from GetBitmap_returns [OF assms] obtain r b' where
    ret: "GetBitmap env start ctx key wait_ms b = Some (r, b')" by blast
  show ?thesis
    using ret GetBitmap_result [OF ret] by (intro exI [of _ r] exI [of _ b']) blast
qed

text \<open>A store in which a bitmap appears while the call waits.\<close>

definition arriving_env :: bitmap_env where
  "arriving_env = \<lparr>now_at = (\<lambda>k. of_nat k), active_at = (\<lambda>k. True), later_at = (\<lambda>k. of_nat k),
     others_at = (\<lambda>k. if k = 1 then bs_put ''k'' [7] else id)\<rparr>"

theorem GetBitmap_total_correct_witness:
  "\<exists>r b'. GetBitmap arriving_env 0 (Some (Inr ''car'')) ''k'' 5000 bitmap_store_init = Some (r, b') \<and>
     r = bs_get b' ''k'' \<and> (r = None \<or> ''k'' \<in> bs_get_sent_keys b' ''car'')"
proof -
  have "bitmap_deadline 0 5000 \<le> now_at arriving_env 5"
    by (simp add: bitmap_deadline_def arriving_env_def)
  then have "(5000::int) \<le> 0 \<or> (\<exists>n. bitmap_deadline 0 5000 \<le> now_at arriving_env n)" by blast
  from GetBitmap_total_correct [OF this, of "Some (Inr ''car'')" "''k''" bitmap_store_init]
  show ?thesis by (simp add: client_id_def)
qed

text \<open>
  The state before iteration \<open>n\<close> when nothing has ended the call: the other threads' effects,
  with the wake-up event cleared after each wait.
\<close>

lemma GetBitmap_still_waiting:
  assumes "loop_at (GetBitmap_body env client key wait_ms d) b n = Inl u" "m < n"
  shows "now_at env m < d" and "active_at env m" and "0 < wait_ms"
proof -
  from assms have "Suc m \<le> n" by simp
  from loop_at_mono [OF assms(1) this] obtain v w
    where "loop_at (GetBitmap_body env client key wait_ms d) b m = Inl w"
      and "GetBitmap_body env client key wait_ms d m w = Inl v"
    by (auto split: sum.splits)
  then show "now_at env m < d" and "active_at env m" and "0 < wait_ms"
    by (auto simp: GetBitmap_body_def split: option.splits if_splits)
qed

text \<open>
  A waiting \<open>GetBitmap\<close> does not miss a bitmap that arrives in time: if other threads never
  remove the key, store it during iteration \<open>n\<close>, and up to that iteration the clock is before
  the deadline and the client connected, then the call returns the bitmap.
\<close>

theorem GetBitmap_sees_arrival:
  assumes wait: "0 < wait_ms"
    and stays: "\<And>k b. bs_get b key \<noteq> None \<Longrightarrow> bs_get (others_at env k b) key \<noteq> None"
    and arrives: "\<And>b. bs_get (others_at env n b) key \<noteq> None"
    and in_time: "\<And>k. k \<le> n \<Longrightarrow> now_at env k < bitmap_deadline start wait_ms"
    and connected: "\<And>k. k \<le> n \<Longrightarrow> active_at env k"
  shows "\<exists>data b'. GetBitmap env start ctx key wait_ms b = Some (Some data, b')"
proof -
  define body where
    "body = GetBitmap_body env (client_id ctx) key wait_ms (bitmap_deadline start wait_ms)"
  have "(\<exists>data b'. loop_at body b m = Inr (Some data, b')) \<or> (\<exists>u. loop_at body b m = Inl u)"
    if "m \<le> n" for m
    using that
  proof (induction m)
    case (Suc m)
    then show ?case
      using wait in_time [of m] connected [of m]
      by (auto simp: body_def GetBitmap_body_def Let_def split: option.splits)
  qed simp
  then consider (found) data b' where "loop_at body b n = Inr (Some data, b')"
    | (waiting) u where "loop_at body b n = Inl u"
    by blast
  then show ?thesis
  proof cases
    case found
    then show ?thesis unfolding GetBitmap_def body_def [symmetric] by (auto dest: loop_result)
  next
    case waiting
    show ?thesis
    proof (cases "bs_get u key")
      case (Some data)
      then have "body n u = Inr (Some data, bs_mark_sent (client_id ctx) key u)"
        by (simp add: body_def GetBitmap_body_def)
      from loop_enter [where body = body, OF waiting this] show ?thesis
        unfolding GetBitmap_def body_def [symmetric] by blast
    next
      case None
      define v where "v = (if bitmap_deadline start wait_ms - later_at env n > 0
        then snd (bs_wait_for_new_bitmap (others_at env n u)) else others_at env n u)"
      have "body n u = Inl v"
        using None wait in_time [of n] connected [of n]
        by (simp add: body_def GetBitmap_body_def v_def Let_def)
      with waiting have here: "loop_at body b (Suc n) = Inl v" by simp
      have "bs_get v key \<noteq> None" using arrives [of u] by (simp add: v_def)
      then obtain data where "bs_get v key = Some data" by blast
      then have "body (Suc n) v = Inr (Some data, bs_mark_sent (client_id ctx) key v)"
        by (simp add: body_def GetBitmap_body_def)
      from loop_enter [where body = body, OF here this] show ?thesis
        unfolding GetBitmap_def body_def [symmetric] by blast
    qed
  qed
qed

theorem GetBitmap_sees_arrival_witness:
  "\<exists>data b'. GetBitmap arriving_env 0 None ''k'' 5000 bitmap_store_init = Some (Some data, b')"
  by (rule GetBitmap_sees_arrival [where n = 1])
    (auto simp: arriving_env_def bitmap_deadline_def bstore.cache_simps)

end
