(* ===== verification/Mcp_Bridge.thy ===== *)
theory Mcp_Bridge
  imports Sync_Service Py_Strings
begin

text \<open>
  The \<open>McpBridge\<close> of \<^verbatim>\<open>supervisor/src/mcp_bridge.py\<close>, which turns display
  tool calls into events, and \<^verbatim>\<open>supervisor/src/server.py\<close>, which builds the
  supervisor: the bridge, the sync service and the log tailer share one event store, the bridge and
  the sync service one bitmap store, so the servicer's record is the state of all of them.
\<close>

section \<open>The Android app's reverse service\<close>

text \<open>
  \<^verbatim>\<open>supervisor/src/android_app_client.py\<close>: the three remote calls are parameters; each
  wrapper unpacks the reply or lets the RPC error through.
\<close>

definition get_current_display :: "string result \<Rightarrow> string result" where
  "get_current_display reply = reply"

definition request_screenshot :: "bytes result \<Rightarrow> bytes result" where
  "request_screenshot reply = reply"

definition query_cache ::
  "(string list \<Rightarrow> (string list \<times> string list) result) \<Rightarrow> string list option \<Rightarrow>
   (string list \<times> string list) result" where
  "query_cache rpc ks = rpc (case ks of None \<Rightarrow> [] | Some ks \<Rightarrow> ks)"

text \<open>The display confirmer the bridge registers with the MCP handlers.\<close>

definition bridge_confirmer :: "string result \<Rightarrow> string" where
  "bridge_confirmer reply = (case get_current_display reply of Inr key \<Rightarrow> key | Inl _ \<Rightarrow> [])"

section \<open>The bridge\<close>

definition on_bitmap_submitted :: "seconds \<Rightarrow> string \<Rightarrow> bytes \<Rightarrow> servicer \<Rightarrow> servicer" where
  "on_bitmap_submitted clock cache_key data s =
     s\<lparr>bitmap_store := bs_put cache_key data (bitmap_store s),
       store := add_event \<lparr>timestamp_ms = to_ms clock, payload = BitmapPayload cache_key data\<rparr> (store s)\<rparr>"

definition on_display_requested :: "seconds \<Rightarrow> string \<Rightarrow> servicer \<Rightarrow> servicer" where
  "on_display_requested clock cache_key s =
     s\<lparr>store := add_event \<lparr>timestamp_ms = to_ms clock, payload = DisplayCommand cache_key\<rparr> (store s)\<rparr>"

section \<open>Configuration and construction\<close>

type_synonym environ = "string \<Rightarrow> string option"

definition env_get :: "environ \<Rightarrow> string \<Rightarrow> string \<Rightarrow> string" where
  "env_get env name fallback = (case env name of None \<Rightarrow> fallback | Some v \<Rightarrow> v)"

definition default_host :: string where "default_host = ''[::]''"
definition default_port :: int where "default_port = 50051"
definition default_app_port :: int where "default_app_port = 50052"

definition parse_server_config :: "environ \<Rightarrow> (string \<times> int \<times> string) result" where
  "parse_server_config env =
     (let host = env_get env ''GRPC_HOST'' default_host;
          port_text = env_get env ''GRPC_PORT'' (show_int default_port)
      in case parse_int port_text of
           None \<Rightarrow> Inl (ValueError (''invalid literal for int() with base 10: '' @ quote port_text))
         | Some port \<Rightarrow>
             Inr (host, port,
               env_get env ''GRPC_APP_TARGET'' (''localhost:'' @ show_int default_app_port)))"

text \<open>
  \<open>create_server\<close> passes no input injector to the sync service.  The result is the shared
  state, the address bound, the tailed directory, and whether a display confirmer was registered;
  \<open>bind\<close> is gRPC's choice of the actual port.
\<close>

definition create_server ::
  "(string \<Rightarrow> int) \<Rightarrow> environ \<Rightarrow> string \<Rightarrow> int \<Rightarrow> string \<Rightarrow> bool \<Rightarrow>
   servicer \<times> int \<times> string \<times> bool" where
  "create_server bind env home port host has_app_client =
     (\<lparr>store = event_store_init, bitmap_store = bitmap_store_init, has_injector = False\<rparr>,
      bind (host @ '':'' @ show_int port),
      env_get env ''AGENT_LOG_DIR'' (home @ ''/.claude/projects''),
      has_app_client)"

definition app_client_target :: "string option \<Rightarrow> string" where
  "app_client_target target =
     (case target of None \<Rightarrow> ''localhost:'' @ show_int default_app_port | Some t \<Rightarrow> t)"

section \<open>Properties\<close>

text \<open>
  Configuration.  With no port in the environment the default is used; a port written in
  decimal is read back as it is; any text that is not a decimal integer is a \<open>ValueError\<close>,
  whatever the other variables are.
\<close>

lemma parse_server_config_spec:
  "parse_server_config (env(''GRPC_PORT'' := None)) =
     Inr (env_get env ''GRPC_HOST'' default_host, default_port,
          env_get env ''GRPC_APP_TARGET'' ''localhost:50052'')"
  "parse_server_config (env(''GRPC_PORT'' \<mapsto> show_int p)) =
     Inr (env_get env ''GRPC_HOST'' default_host, p, env_get env ''GRPC_APP_TARGET'' ''localhost:50052'')"
  "(\<exists>e. parse_server_config (env(''GRPC_PORT'' \<mapsto> t)) = Inl (ValueError e)) \<longleftrightarrow> parse_int t = None"
proof -
  have target: "''localhost:'' @ show_int default_app_port = ''localhost:50052''"
    by (simp add: default_app_port_def show_simps)
  have set: "env_get (env(''GRPC_PORT'' := v)) n d = env_get env n d" if "n \<noteq> ''GRPC_PORT''" for n d v
    using that by (simp add: env_get_def)
  have port: "env_get (env(''GRPC_PORT'' := None)) ''GRPC_PORT'' d = d"
    "env_get (env(''GRPC_PORT'' \<mapsto> v)) ''GRPC_PORT'' d = v" for d v
    by (simp_all add: env_get_def)
  note config = parse_server_config_def Let_def target port set parse_show_int
  show "parse_server_config (env(''GRPC_PORT'' := None)) =
     Inr (env_get env ''GRPC_HOST'' default_host, default_port,
          env_get env ''GRPC_APP_TARGET'' ''localhost:50052'')"
    unfolding config(1,2,3,4) parse_show_int by (simp add: set)
  show "parse_server_config (env(''GRPC_PORT'' \<mapsto> show_int p)) =
     Inr (env_get env ''GRPC_HOST'' default_host, p, env_get env ''GRPC_APP_TARGET'' ''localhost:50052'')"
    unfolding config(1,2,3) port parse_show_int by (simp add: set)
  show "(\<exists>e. parse_server_config (env(''GRPC_PORT'' \<mapsto> t)) = Inl (ValueError e)) \<longleftrightarrow> parse_int t = None"
    unfolding config(1,2) port by (cases "parse_int t") simp_all
qed

text \<open>
  A supervisor built by \<open>create_server\<close> never delivers user input: with no injector
  every \<open>SendUserInput\<close> is refused, and the calls the bridge makes cannot change that.
\<close>

theorem created_server_refuses_input:
  "SendUserInput (on_display_requested t k (on_bitmap_submitted t' k' d
     (fst (create_server bind env home port host app)))) text target = (False, None)"
  by (simp add: create_server_def SendUserInput_def on_display_requested_def on_bitmap_submitted_def)

end
