(* ===== verification/Golden_Diff.thy ===== *)
theory Golden_Diff
  imports Png
begin

text \<open>
  \<^verbatim>\<open>goldens/golden_diff.py\<close>: the PNG reader (chunks, the five row filters, RGB and
  RGBA), the writer, cropping and masking, and the comparison of a screenshot with its golden
  image.  \<open>zlib\<close> is the pair of parameters \<open>compress\<close> and \<open>decompress\<close>
  (\<open>None\<close> for \<open>zlib.error\<close>), of which the proofs only use that decompressing undoes
  compressing.
\<close>

section \<open>Row filters\<close>

definition paeth_predictor :: "int \<Rightarrow> int \<Rightarrow> int \<Rightarrow> int" where
  "paeth_predictor a b c =
     (let p = a + b - c; pa = abs (p - a); pb = abs (p - b); pc = abs (p - c)
      in if pa \<le> pb \<and> pa \<le> pc then a else if pb \<le> pc then b else c)"

text \<open>What a filter adds to the byte, from the bytes to the left, above, and above left.\<close>

definition predict :: "nat \<Rightarrow> 8 word \<Rightarrow> 8 word \<Rightarrow> 8 word \<Rightarrow> 8 word" where
  "predict filter_type left up up_left =
     (if filter_type = 1 then left
      else if filter_type = 2 then up
      else if filter_type = 3 then of_int ((uint left + uint up) div 2)
      else if filter_type = 4 then of_int (paeth_predictor (uint left) (uint up) (uint up_left))
      else 0)"

definition byte_before :: "bytes \<Rightarrow> nat \<Rightarrow> nat \<Rightarrow> 8 word" where
  "byte_before row i bpp = (if i \<ge> bpp then row ! (i - bpp) else 0)"

text \<open>The loop of a filter: \<open>row\<close> holds the bytes written so far.\<close>

fun defilter_loop :: "nat \<Rightarrow> nat \<Rightarrow> bytes \<Rightarrow> bytes \<Rightarrow> bytes \<Rightarrow> bytes" where
  "defilter_loop filter_type bpp prev_row [] row = row"
| "defilter_loop filter_type bpp prev_row (x # raw) row =
     (let i = length row;
          left = byte_before row i bpp;
          up = prev_row ! i;
          up_left = byte_before prev_row i bpp
      in defilter_loop filter_type bpp prev_row raw (row @ [x + predict filter_type left up up_left]))"

definition defilter_row :: "nat \<Rightarrow> bytes \<Rightarrow> bytes \<Rightarrow> nat \<Rightarrow> bytes result" where
  "defilter_row filter_type raw_row prev_row bpp =
     (if filter_type > 4
      then Inl (ValueError (''Unknown PNG filter type '' @ show_nat filter_type))
      else if filter_type \<ge> 2 \<and> length prev_row < length raw_row then Inl IndexError
      else Inr (defilter_loop filter_type bpp prev_row raw_row []))"

section \<open>Reading\<close>

record png_state =
  png_width :: nat
  png_height :: nat
  png_color_type :: nat
  idat_chunks :: "bytes list"

definition png_state_init :: png_state where
  "png_state_init = \<lparr>png_width = 0, png_height = 0, png_color_type = 0, idat_chunks = []\<rparr>"

definition read_ihdr :: "bytes \<Rightarrow> png_state \<Rightarrow> png_state result" where
  "read_ihdr chunk_data st =
     (if length (take 10 chunk_data) \<noteq> 10 then Inl StructError
      else let w = be32_value (take 4 chunk_data);
               h = be32_value (take 4 (drop 4 chunk_data));
               bit_depth = unat (chunk_data ! 8);
               ct = unat (chunk_data ! 9)
           in if bit_depth \<noteq> 8 \<or> ct \<notin> {2, 6}
              then Inl (ValueError (''Unsupported PNG format: bit_depth='' @ show_nat bit_depth @
                '', color_type='' @ show_nat ct @ '' (only 8-bit RGB and RGBA supported)''))
              else Inr (st\<lparr>png_width := w, png_height := h, png_color_type := ct\<rparr>))"

text \<open>The chunk loop, on the bytes from \<open>pos\<close> on.\<close>

function read_chunks :: "bytes \<Rightarrow> png_state \<Rightarrow> png_state result" where
  "read_chunks rest st =
     (if rest = [] then Inr st
      else case unpack_I (take 4 rest) of
          Inl e \<Rightarrow> Inl e
        | Inr len \<Rightarrow>
            let chunk_type = take 4 (drop 4 rest);
                chunk_data = take len (drop 8 rest);
                rest' = drop (12 + len) rest
            in if chunk_type = ascii ''IHDR'' then
                 (case read_ihdr chunk_data st of Inl e \<Rightarrow> Inl e | Inr st' \<Rightarrow> read_chunks rest' st')
               else if chunk_type = ascii ''IDAT'' then
                 read_chunks rest' (st\<lparr>idat_chunks := idat_chunks st @ [chunk_data]\<rparr>)
               else if chunk_type = ascii ''IEND'' then Inr st
               else read_chunks rest' st)"
  by pat_completeness auto
termination by (relation "measure (length \<circ> fst)") auto

declare read_chunks.simps [simp del]

text \<open>The pixels of one defiltered row; reading past its end is an \<open>IndexError\<close>.\<close>

fun row_pixels :: "nat \<Rightarrow> nat \<Rightarrow> bytes \<Rightarrow> pixel list result" where
  "row_pixels 0 bpp row = Inr []"
| "row_pixels (Suc n) bpp row =
     (case row of
        r # g # b # _ \<Rightarrow> map_sum id ((#) (r, g, b)) (row_pixels n bpp (drop bpp row))
      | _ \<Rightarrow> Inl IndexError)"

text \<open>The row loop, on the decompressed bytes from the row's start on.\<close>

fun read_rows :: "nat \<Rightarrow> nat \<Rightarrow> nat \<Rightarrow> bytes \<Rightarrow> bytes \<Rightarrow> pixel list result" where
  "read_rows 0 width bpp raw prev_row = Inr []"
| "read_rows (Suc n) width bpp raw prev_row =
     (case raw of
        [] \<Rightarrow> Inl IndexError
      | filter_type # rest \<Rightarrow>
          (case defilter_row (unat filter_type) (take (width * bpp) rest) prev_row bpp of
             Inl e \<Rightarrow> Inl e
           | Inr defiltered \<Rightarrow>
               (case row_pixels width bpp defiltered of
                  Inl e \<Rightarrow> Inl e
                | Inr ps \<Rightarrow>
                    map_sum id ((@) ps)
                      (read_rows n width bpp (drop (width * bpp) rest) defiltered))))"

definition read_png_pixels ::
  "(bytes \<Rightarrow> bytes option) \<Rightarrow> bytes \<Rightarrow> (nat \<times> nat \<times> pixel list) result" where
  "read_png_pixels decompress png_data =
     (if take 8 png_data \<noteq> png_signature then Inl (ValueError ''Not a valid PNG file'')
      else case read_chunks (drop 8 png_data) png_state_init of
          Inl e \<Rightarrow> Inl e
        | Inr st \<Rightarrow>
            if idat_chunks st = [] then Inl (ValueError ''No IDAT chunks found'')
            else case decompress (concat (idat_chunks st)) of
                None \<Rightarrow> Inl ZlibError
              | Some raw \<Rightarrow>
                  let bpp = (if png_color_type st = 2 then 3 else 4)
                  in map_sum id (\<lambda>ps. (png_width st, png_height st, ps))
                       (read_rows (png_height st) (png_width st) bpp raw
                          (replicate (png_width st * bpp) 0)))"

section \<open>Writing\<close>

text \<open>
  The rows \<open>pixels[y * width + x]\<close> of \<open>_make_png_from_pixels\<close>; an index past the end
  raises.
\<close>

definition pixel_rows :: "int \<Rightarrow> int \<Rightarrow> pixel list \<Rightarrow> bytes list result" where
  "pixel_rows width height pixels =
     (if width * height \<le> int (length pixels) \<or> width \<le> 0 \<or> height \<le> 0
      then Inr (map (\<lambda>y. 0 # concat (map (\<lambda>x. pixel_bytes (pixels ! (y * nat width + x))) [0..<nat width]))
                  [0..<nat height])
      else Inl IndexError)"

definition make_png_from_pixels ::
  "(bytes \<Rightarrow> bytes) \<Rightarrow> int \<Rightarrow> int \<Rightarrow> pixel list \<Rightarrow> bytes result" where
  "make_png_from_pixels compress width height pixels =
     (case ihdr_data width height of
        Inl e \<Rightarrow> Inl e
      | Inr hdr \<Rightarrow>
          (case pixel_rows width height pixels of
             Inl e \<Rightarrow> Inl e
           | Inr rows \<Rightarrow> assemble_png (Inr hdr) (compress (concat rows))))"

section \<open>Cropping, masking, comparing\<close>

definition crop_to_app_pane ::
  "(bytes \<Rightarrow> bytes) \<Rightarrow> (bytes \<Rightarrow> bytes option) \<Rightarrow> bytes \<Rightarrow> int \<Rightarrow> int \<Rightarrow> int \<Rightarrow> int \<Rightarrow> bytes result"
  where
  "crop_to_app_pane compress decompress png_data left0 top0 right0 bottom0 =
     (case read_png_pixels decompress png_data of
        Inl e \<Rightarrow> Inl e
      | Inr (w, h, pixels) \<Rightarrow>
          let left = max 0 (min left0 (int w));
              top = max 0 (min top0 (int h));
              right = max left (min right0 (int w));
              bottom = max top (min bottom0 (int h));
              cropped = concat (map (\<lambda>y. map (\<lambda>x. pixels ! (y * w + x)) [nat left..<nat right])
                          [nat top..<nat bottom])
          in make_png_from_pixels compress (right - left) (bottom - top) cropped)"

definition mask_status_bar ::
  "(bytes \<Rightarrow> bytes) \<Rightarrow> (bytes \<Rightarrow> bytes option) \<Rightarrow> bytes \<Rightarrow> int \<Rightarrow> bytes result" where
  "mask_status_bar compress decompress png_data rows =
     (case read_png_pixels decompress png_data of
        Inl e \<Rightarrow> Inl e
      | Inr (w, h, pixels) \<Rightarrow>
          let n = nat (min (rows * int w) (int (length pixels)))
          in make_png_from_pixels compress (int w) (int h)
               (replicate n (255, 0, 255) @ drop n pixels))"

definition pixel_differs :: "int \<Rightarrow> pixel \<Rightarrow> pixel \<Rightarrow> bool" where
  "pixel_differs tolerance a g =
     (case (a, g) of ((ar, ag, ab), (gr, gg, gb)) \<Rightarrow>
        abs (uint ar - uint gr) > tolerance \<or> abs (uint ag - uint gg) > tolerance \<or>
        abs (uint ab - uint gb) > tolerance)"

definition dimmed :: "pixel \<Rightarrow> pixel" where
  "dimmed a = (case a of (r, g, b) \<Rightarrow> (r div 3, g div 3, b div 3))"

fun compare_pixels :: "int \<Rightarrow> pixel list \<Rightarrow> pixel list \<Rightarrow> (nat \<times> pixel list) result" where
  "compare_pixels tolerance [] gs = Inr (0, [])"
| "compare_pixels tolerance (a # as) [] = Inl IndexError"
| "compare_pixels tolerance (a # as) (g # gs) =
     (if pixel_differs tolerance a g
      then map_sum id (\<lambda>(n, ps). (Suc n, (255, 0, 0) # ps)) (compare_pixels tolerance as gs)
      else map_sum id (\<lambda>(n, ps). (n, dimmed a # ps)) (compare_pixels tolerance as gs))"

definition make_size_mismatch_png :: "(bytes \<Rightarrow> bytes) \<Rightarrow> bytes result" where
  "make_size_mismatch_png compress = make_png compress 100 50 (255, 0, 0)"

definition compare_golden ::
  "(bytes \<Rightarrow> bytes) \<Rightarrow> (bytes \<Rightarrow> bytes option) \<Rightarrow> bytes \<Rightarrow> bytes \<Rightarrow> int \<Rightarrow>
   (bool \<times> nat \<times> bytes option) result" where
  "compare_golden compress decompress actual_png golden_png tolerance =
     (case read_png_pixels decompress actual_png of
        Inl e \<Rightarrow> Inl e
      | Inr (a_w, a_h, a_pixels) \<Rightarrow>
          (case read_png_pixels decompress golden_png of
             Inl e \<Rightarrow> Inl e
           | Inr (g_w, g_h, g_pixels) \<Rightarrow>
               if a_w \<noteq> g_w \<or> a_h \<noteq> g_h
               then map_sum id (\<lambda>png. (False, a_w * a_h, Some png)) (make_size_mismatch_png compress)
               else case compare_pixels tolerance a_pixels g_pixels of
                   Inl e \<Rightarrow> Inl e
                 | Inr (diff_count, diff_pixels) \<Rightarrow>
                     if diff_count = 0 then Inr (True, 0, None)
                     else map_sum id (\<lambda>png. (False, diff_count, Some png))
                            (make_png_from_pixels compress (int a_w) (int a_h) diff_pixels)))"

section \<open>The filters are undone\<close>

text \<open>
  What an encoder writes for a row, by the PNG specification (section 9.2) and not by the reader: from each
  byte a prediction is subtracted, computed on numbers from the byte one pixel to the left (\<open>a\<close>), the byte
  above (\<open>b\<close>) and the byte above left (\<open>c\<close>), where a byte outside the image is 0.  The
  predictions are: nothing, \<open>a\<close>, \<open>b\<close>, the mean of \<open>a\<close> and \<open>b\<close> rounded down, and
  the one of \<open>a\<close>, \<open>b\<close>, \<open>c\<close> that is nearest to \<open>a + b - c\<close>, the first in this
  order when there are several.
\<close>

definition first_nearest :: "int \<Rightarrow> int list \<Rightarrow> int" where
  "first_nearest p vs = hd (filter (\<lambda>v. \<forall>u \<in> set vs. \<bar>v - p\<bar> \<le> \<bar>u - p\<bar>) vs)"

definition png_prediction :: "nat \<Rightarrow> nat \<Rightarrow> nat \<Rightarrow> nat \<Rightarrow> nat" where
  "png_prediction filter_type a b c =
     [0, a, b, nat \<lfloor>(of_nat (a + b) :: rat) / 2\<rfloor>,
      nat (first_nearest (int a + int b - int c) [int a, int b, int c])] ! filter_type"

definition one_pixel_left :: "bytes \<Rightarrow> nat \<Rightarrow> nat \<Rightarrow> nat" where
  "one_pixel_left row bpp i = (if i < bpp then 0 else unat (row ! (i - bpp)))"

definition filter_row :: "nat \<Rightarrow> nat \<Rightarrow> bytes \<Rightarrow> bytes \<Rightarrow> bytes" where
  "filter_row filter_type bpp prev row =
     map (\<lambda>i. row ! i - of_nat (png_prediction filter_type (one_pixel_left row bpp i) (unat (prev ! i))
           (one_pixel_left prev bpp i)))
       [0..<length row]"

lemma first_nearest_of_three:
  "first_nearest p [a, b, c] =
    (if \<bar>a - p\<bar> \<le> \<bar>b - p\<bar> \<and> \<bar>a - p\<bar> \<le> \<bar>c - p\<bar> then a
     else if \<bar>b - p\<bar> \<le> \<bar>c - p\<bar> then b else c)"
  by (auto simp: first_nearest_def)

lemma paeth_nearest: "paeth_predictor a b c = first_nearest (a + b - c) [a, b, c]"
  unfolding paeth_predictor_def first_nearest_of_three Let_def
  by (simp only: abs_minus_commute [of "a + b - c"])

lemma mean_rounded_down: "\<lfloor>(of_nat n :: rat) / 2\<rfloor> = int (n div 2)"
  using floor_divide_of_nat_eq [of n 2, where 'a = rat] by simp

lemma first_nearest_nonneg:
  assumes "0 \<le> a" "0 \<le> b" "0 \<le> c"
  shows "0 \<le> first_nearest p [a, b, c]"
  using assms by (auto simp: first_nearest_def)

lemma png_prediction_simps:
  "png_prediction 0 a b c = 0" "png_prediction 1 a b c = a" "png_prediction 2 a b c = b"
  "png_prediction 3 a b c = (a + b) div 2"
  "png_prediction 4 a b c = nat (first_nearest (int a + int b - int c) [int a, int b, int c])"
  by (simp_all add: png_prediction_def mean_rounded_down del: of_nat_add)

lemma predict_simps:
  "predict 0 l u ul = 0" "predict 1 l u ul = l" "predict 2 l u ul = u"
  "predict 3 l u ul = of_int ((uint l + uint u) div 2)"
  "predict 4 l u ul = of_int (paeth_predictor (uint l) (uint u) (uint ul))"
  by (simp_all add: predict_def)

lemma predict_by_specification:
  assumes "filter_type \<le> 4"
  shows "predict filter_type l u ul = of_nat (png_prediction filter_type (unat l) (unat u) (unat ul))"
proof -
  have int_of: "uint w = int (unat w)" for w :: "8 word" by simp
  have "(uint l + uint u) div 2 = int ((unat l + unat u) div 2)" unfolding int_of by (simp add: zdiv_int)
  then have mean: "(of_int ((uint l + uint u) div 2) :: 8 word) = of_nat ((unat l + unat u) div 2)" by simp
  have "paeth_predictor (uint l) (uint u) (uint ul) =
      int (nat (first_nearest (int (unat l) + int (unat u) - int (unat ul)) [int (unat l), int (unat u), int (unat ul)]))"
    unfolding paeth_nearest int_of by (subst nat_0_le) (rule first_nearest_nonneg, simp_all)
  then have paeth: "(of_int (paeth_predictor (uint l) (uint u) (uint ul)) :: 8 word) =
      of_nat (nat (first_nearest (int (unat l) + int (unat u) - int (unat ul)) [int (unat l), int (unat u), int (unat ul)]))"
    by (simp only: of_int_of_nat_eq)
  have rep: "of_nat (unat w) = w" for w :: "8 word" by simp
  from assms consider "filter_type = 0" | "filter_type = 1" | "filter_type = 2" | "filter_type = 3" | "filter_type = 4" by linarith
  then show ?thesis
    by cases (simp_all only: predict_simps png_prediction_simps mean paeth rep, simp)
qed

lemma filter_row_predict:
  assumes "filter_type \<le> 4"
  shows "filter_row filter_type bpp prev row =
    map (\<lambda>i. row ! i - predict filter_type (byte_before row i bpp) (prev ! i) (byte_before prev i bpp)) [0..<length row]"
proof -
  have "one_pixel_left r bpp i = unat (byte_before r i bpp)" for r i
    by (simp add: one_pixel_left_def byte_before_def)
  then show ?thesis by (simp add: filter_row_def predict_by_specification [OF assms])
qed

lemma length_filter_row [simp]: "length (filter_row t bpp prev row) = length row"
  by (simp add: filter_row_def)

lemma defilter_loop_filter:
  assumes "0 < bpp" "n \<le> length row"
  shows "defilter_loop t bpp prev
    (map (\<lambda>i. row ! i - predict t (byte_before row i bpp) (prev ! i) (byte_before prev i bpp))
      [n..<length row]) (take n row) = row"
  using assms(2)
proof (induction "length row - n" arbitrary: n)
  case 0
  then show ?case by simp
next
  case (Suc k)
  then have n: "n < length row" by simp
  have before: "byte_before (take n row) n bpp = byte_before row n bpp"
    using assms(1) n by (simp add: byte_before_def)
  have "[n..<length row] = n # [Suc n..<length row]" using n by (simp add: upt_conv_Cons)
  moreover have "take (Suc n) row = take n row @ [row ! n]" using n by (simp add: take_Suc_conv_app_nth)
  moreover have "defilter_loop t bpp prev
    (map (\<lambda>i. row ! i - predict t (byte_before row i bpp) (prev ! i) (byte_before prev i bpp))
      [Suc n..<length row]) (take (Suc n) row) = row"
    using Suc n by simp
  ultimately show ?case using n before by (simp add: Let_def)
qed

lemma defilter_undo:
  assumes "filter_type \<le> 4" "0 < bpp" "length row \<le> length prev"
  shows "defilter_row filter_type (filter_row filter_type bpp prev row) prev bpp = Inr row"
  using assms defilter_loop_filter [of bpp 0 row filter_type prev]
  by (simp add: defilter_row_def filter_row_predict)

text \<open>
  Defiltering undoes each of the five filters of the PNG specification, for any bytes per
  pixel, any row, and any previous row of at least its length; the result has the row's length.
\<close>

theorem defilter_undoes_filter:
  assumes "filter_type \<le> 4" "0 < bpp" "length row \<le> length prev"
  shows "defilter_row filter_type (filter_row filter_type bpp prev row) prev bpp = Inr row"
  using assms by (rule defilter_undo)

section \<open>Reading valid files\<close>

text \<open>A chunk as a file holds it: the reader does not look at the checksum.\<close>

definition raw_chunk :: "bytes \<Rightarrow> bytes \<Rightarrow> bytes \<Rightarrow> bytes" where
  "raw_chunk ty data crc = be32 (length data) @ ty @ data @ crc"

definition chunk_wf :: "bytes \<times> bytes \<times> bytes \<Rightarrow> bool" where
  "chunk_wf c = (case c of (ty, data, crc) \<Rightarrow>
     length ty = 4 \<and> length crc = 4 \<and> length data < 2 ^ 32)"

lemma read_chunks_raw:
  assumes "chunk_wf (ty, data, crc)"
  shows "read_chunks (raw_chunk ty data crc @ rest) st =
    (if ty = ascii ''IHDR'' then
       (case read_ihdr data st of Inl e \<Rightarrow> Inl e | Inr st' \<Rightarrow> read_chunks rest st')
     else if ty = ascii ''IDAT'' then read_chunks rest (st\<lparr>idat_chunks := idat_chunks st @ [data]\<rparr>)
     else if ty = ascii ''IEND'' then Inr st
     else read_chunks rest st)"
  using assms
  by (subst read_chunks.simps)
    (simp add: chunk_wf_def raw_chunk_def unpack_I_def)

text \<open>Chunks between the header and the end: the image data, and others that are skipped.\<close>

definition middle :: "(bytes \<times> bytes \<times> bytes) list \<Rightarrow> bool" where
  "middle cs \<longleftrightarrow> list_all (\<lambda>c. chunk_wf c \<and> fst c \<noteq> ascii ''IHDR'' \<and> fst c \<noteq> ascii ''IEND'') cs"

definition idat_of :: "(bytes \<times> bytes \<times> bytes) list \<Rightarrow> bytes list" where
  "idat_of cs = map (fst \<circ> snd) (filter (\<lambda>c. fst c = ascii ''IDAT'') cs)"

definition raw_chunks :: "(bytes \<times> bytes \<times> bytes) list \<Rightarrow> bytes" where
  "raw_chunks cs = concat (map (\<lambda>(ty, data, crc). raw_chunk ty data crc) cs)"

lemma read_chunks_middle:
  "middle cs \<Longrightarrow> read_chunks (raw_chunks cs @ rest) st =
    read_chunks rest (st\<lparr>idat_chunks := idat_chunks st @ idat_of cs\<rparr>)"
proof (induction cs arbitrary: st)
  case Nil
  then show ?case by (simp add: raw_chunks_def idat_of_def)
next
  case (Cons c cs)
  obtain ty data crc where c: "c = (ty, data, crc)" by (cases c)
  from Cons.prems c have wf: "chunk_wf (ty, data, crc)" "middle cs"
    "ty \<noteq> ascii ''IHDR''" "ty \<noteq> ascii ''IEND''"
    by (simp_all add: middle_def)
  have "raw_chunks (c # cs) @ rest = raw_chunk ty data crc @ raw_chunks cs @ rest"
    by (simp add: raw_chunks_def c)
  then show ?case
    using wf read_chunks_raw [OF wf(1), of "raw_chunks cs @ rest" st] Cons.IH [OF wf(2)]
    by (cases "ty = ascii ''IDAT''") (simp_all add: idat_of_def c)
qed

text \<open>The image a list of rows stands for: the first three bytes of each pixel.\<close>

definition row_rgb :: "nat \<Rightarrow> nat \<Rightarrow> bytes \<Rightarrow> pixel list" where
  "row_rgb width bpp row =
     map (\<lambda>x. (row ! (x * bpp), row ! (x * bpp + 1), row ! (x * bpp + 2))) [0..<width]"

text \<open>The data an encoder compresses: each row with the filter chosen for it.\<close>

fun filtered_image :: "nat \<Rightarrow> bytes \<Rightarrow> (nat \<times> bytes) list \<Rightarrow> bytes" where
  "filtered_image bpp prev [] = []"
| "filtered_image bpp prev ((t, row) # rows) =
     of_nat t # filter_row t bpp prev row @ filtered_image bpp row rows"

lemma row_rgb_Suc:
  assumes "bpp \<le> length row"
  shows "row_rgb (Suc n) bpp row = (row ! 0, row ! 1, row ! 2) # row_rgb n bpp (drop bpp row)"
proof -
  have "[0..<Suc n] = 0 # map Suc [0..<n]" by (simp add: map_Suc_upt upt_conv_Cons del: upt_Suc)
  then show ?thesis
    unfolding row_rgb_def using assms by (simp add: o_def add.assoc numeral_2_eq_2 del: upt_Suc)
qed

lemma row_pixels_ok:
  "3 \<le> bpp \<Longrightarrow> length row = n * bpp \<Longrightarrow> row_pixels n bpp row = Inr (row_rgb n bpp row)"
proof (induction n arbitrary: row)
  case 0
  then show ?case by (simp add: row_rgb_def)
next
  case (Suc n)
  then have len: "2 < length row" by simp
  then obtain r g b tl where row: "row = r # g # b # tl"
    by (metis (no_types) length_Cons length_0_conv less_nat_zero_code list.exhaust not_less_eq numeral_2_eq_2)
  have "row_pixels n bpp (drop bpp row) = Inr (row_rgb n bpp (drop bpp row))"
    using Suc by simp
  then show ?case
    using row_rgb_Suc [of bpp row n] Suc.prems by (simp add: row numeral_2_eq_2)
qed

lemma read_rows_ok:
  assumes "3 \<le> bpp" "\<forall>(t, row) \<in> set rows. t \<le> 4 \<and> length row = width * bpp"
    and "length prev = width * bpp"
  shows "read_rows (length rows) width bpp (filtered_image bpp prev rows @ rest) prev =
    Inr (concat (map (\<lambda>r. row_rgb width bpp (snd r)) rows))"
  using assms(2,3)
proof (induction rows arbitrary: prev)
  case Nil
  then show ?case by simp
next
  case (Cons tr rows)
  obtain t row where tr: "tr = (t, row)" by (cases tr)
  with Cons.prems have t: "t \<le> 4" "length row = width * bpp" "length prev = width * bpp" by auto
  then have "defilter_row t (filter_row t bpp prev row) prev bpp = Inr row"
    using assms(1) by (intro defilter_undo) auto
  moreover have "unat (of_nat t :: 8 word) = t" using t(1) by (simp add: unat_of_nat)
  moreover have "read_rows (length rows) width bpp (filtered_image bpp row rows @ rest) row =
      Inr (concat (map (\<lambda>r. row_rgb width bpp (snd r)) rows))"
    using Cons.IH [of row] Cons.prems(1) t(2) by simp
  ultimately show ?case
    using assms(1) t by (simp add: tr row_pixels_ok)
qed

lemma read_ihdr_ok:
  assumes "w < 2 ^ 32" "h < 2 ^ 32" "ct = 2 \<or> ct = 6"
  shows "read_ihdr (be32 w @ be32 h @ [8, of_nat ct] @ xs) st =
    Inr (st\<lparr>png_width := w, png_height := h, png_color_type := ct\<rparr>)"
proof -
  have "(be32 w @ be32 h @ [8, of_nat ct] @ xs) ! 8 = 8"
    "(be32 w @ be32 h @ [8, of_nat ct] @ xs) ! 9 = of_nat ct"
    by (simp_all add: nth_append)
  moreover have "unat (of_nat ct :: 8 word) = ct" using assms(3) by auto
  ultimately show ?thesis using assms by (auto simp: read_ihdr_def Let_def)
qed

text \<open>
  A file in the format the reader supports: the signature, a header for an 8-bit RGB or RGBA
  image, further chunks of which the \<open>IDAT\<close> ones hold the image data, the end, and anything
  after it.
\<close>

definition png_file ::
  "nat \<Rightarrow> nat \<Rightarrow> nat \<Rightarrow> bytes \<Rightarrow> bytes \<Rightarrow> (bytes \<times> bytes \<times> bytes) list \<Rightarrow> bytes \<Rightarrow> bytes" where
  "png_file w h ct methods crc cs trailer =
     png_signature @ raw_chunk (ascii ''IHDR'') (be32 w @ be32 h @ [8, of_nat ct] @ methods) crc @
       raw_chunks cs @ trailer"

definition is_end :: "bytes \<Rightarrow> bool" where
  "is_end trailer \<longleftrightarrow> trailer = [] \<or> (\<exists>data crc rest. chunk_wf (ascii ''IEND'', data, crc) \<and>
     trailer = raw_chunk (ascii ''IEND'') data crc @ rest)"

lemma ascii_ne [simp]: "ascii ''IEND'' \<noteq> ascii ''IHDR''" "ascii ''IEND'' \<noteq> ascii ''IDAT''"
  "ascii ''IDAT'' \<noteq> ascii ''IHDR''"
  by (simp_all add: ascii_def)

lemma length_ascii [simp]: "length (ascii s) = length s"
  by (simp add: ascii_def)

lemma read_end: "is_end trailer \<Longrightarrow> read_chunks trailer st = Inr st"
  by (auto simp: is_end_def read_chunks_raw ascii_ne [symmetric] read_chunks.simps [of "[]"])

lemma read_png_file:
  assumes "w < 2 ^ 32" "h < 2 ^ 32" "ct = 2 \<or> ct = 6" "length methods = 3" "length crc = 4"
    and "middle cs" "is_end trailer" "idat_of cs \<noteq> []"
  shows "read_png_pixels decompress (png_file w h ct methods crc cs trailer) =
    (case decompress (concat (idat_of cs)) of
       None \<Rightarrow> Inl ZlibError
     | Some raw \<Rightarrow> let bpp = (if ct = 2 then 3 else 4)
         in map_sum id (\<lambda>ps. (w, h, ps)) (read_rows h w bpp raw (replicate (w * bpp) 0)))"
proof -
  let ?hdr = "be32 w @ be32 h @ [8, of_nat ct] @ methods"
  have wf: "chunk_wf (ascii ''IHDR'', ?hdr, crc)" using assms by (simp add: chunk_wf_def)
  let ?st = "\<lparr>png_width = w, png_height = h, png_color_type = ct, idat_chunks = idat_of cs\<rparr>"
  have "read_chunks (raw_chunk (ascii ''IHDR'') ?hdr crc @ raw_chunks cs @ trailer) png_state_init = Inr ?st"
    unfolding read_chunks_raw [OF wf] read_ihdr_ok [OF assms(1-3)]
    by (simp add: read_chunks_middle [OF assms(6)] read_end [OF assms(7)] png_state_init_def)
  then show ?thesis
    using assms(8) by (simp add: read_png_pixels_def png_file_def png_signature_def split: option.split)
qed

lemma read_png_pixels_correct_aux:
  assumes "w < 2 ^ 32" "length rows < 2 ^ 32" "ct = 2 \<or> ct = 6" "length methods = 3" "length crc = 4"
    and "middle cs" "is_end trailer" "idat_of cs \<noteq> []"
    and bpp: "bpp = (if ct = 2 then 3 else 4)"
    and rows: "\<forall>(t, row) \<in> set rows. t \<le> 4 \<and> length row = w * bpp"
    and data: "decompress (concat (idat_of cs)) = Some (filtered_image bpp (replicate (w * bpp) 0) rows @ rest)"
  shows "read_png_pixels decompress (png_file w (length rows) ct methods crc cs trailer) =
    Inr (w, length rows, concat (map (\<lambda>r. row_rgb w bpp (snd r)) rows))"
proof -
  have "3 \<le> bpp" using bpp by simp
  from read_rows_ok [OF this rows, of "replicate (w * bpp) 0" rest]
  have "read_rows (length rows) w bpp (filtered_image bpp (replicate (w * bpp) 0) rows @ rest)
      (replicate (w * bpp) 0) = Inr (concat (map (\<lambda>r. row_rgb w bpp (snd r)) rows))"
    by simp
  then show ?thesis
    unfolding read_png_file [OF assms(1-8)] data bpp by simp
qed

text \<open>
  C33.  The reader decodes every valid 8-bit RGB or RGBA file that is not interlaced: whatever
  filter each row uses (as the specification defines the five filters), however the compressed data is split into \<open>IDAT\<close> chunks, whatever
  other chunks lie between, and whatever the checksums are, it returns the image's size and the
  colours of its pixels, the alpha bytes left out.
\<close>

theorem read_png_pixels_correct:
  assumes "w < 2 ^ 32" "length rows < 2 ^ 32" "ct = 2 \<or> ct = 6" "length methods = 3" "length crc = 4"
    and "middle cs" "is_end trailer" "idat_of cs \<noteq> []"
    and bpp: "bpp = (if ct = 2 then 3 else 4)"
    and rows: "\<forall>(t, row) \<in> set rows. t \<le> 4 \<and> length row = w * bpp"
    and data: "decompress (concat (idat_of cs)) = Some (filtered_image bpp (replicate (w * bpp) 0) rows @ rest)"
  shows "read_png_pixels decompress (png_file w (length rows) ct methods crc cs trailer) =
    Inr (w, length rows, concat (map (\<lambda>r. row_rgb w bpp (snd r)) rows))"
  using assms by (rule read_png_pixels_correct_aux)

section \<open>Written files are read back\<close>

definition zlib_ok :: "(bytes \<Rightarrow> bytes) \<Rightarrow> (bytes \<Rightarrow> bytes option) \<Rightarrow> bool" where
  "zlib_ok compress decompress \<longleftrightarrow> (\<forall>raw. decompress (compress raw) = Some raw)"

lemma filter_row_None [simp]: "filter_row 0 bpp prev row = row"
  by (simp add: filter_row_def png_prediction_def map_nth)

lemma filtered_None:
  "filtered_image bpp prev (map (\<lambda>r. (0, r)) rows) = concat (map ((#) 0) rows)"
  by (induction rows arbitrary: prev) simp_all

lemma length_pixel_bytes [simp]: "length (concat (map pixel_bytes ps)) = length ps * 3"
  by (induction ps) (auto simp: pixel_bytes_def)

lemma pixel_bytes_simp [simp]: "pixel_bytes (r, g, b) = [r, g, b]"
  by (simp add: pixel_bytes_def)

lemma row_rgb_pixels: "row_rgb (length ps) 3 (concat (map pixel_bytes ps)) = ps"
proof (induction ps)
  case Nil
  then show ?case by (simp add: row_rgb_def)
next
  case (Cons p ps)
  have "3 \<le> length (concat (map pixel_bytes (p # ps)))" by (cases p) simp
  from row_rgb_Suc [OF this, of "length ps"] Cons show ?case
    by (cases p) (simp add: numeral_3_eq_3 numeral_2_eq_2)
qed

lemma concat_rows:
  "h * w \<le> length px \<Longrightarrow>
   concat (map (\<lambda>y. map (\<lambda>x. px ! (y * w + x)) [0..<w]) [0..<h]) = take (h * w) px"
proof (induction h)
  case (Suc h)
  have "map (\<lambda>x. px ! (h * w + x)) [0..<w] = take w (drop (h * w) px)"
    using Suc.prems by (intro nth_equalityI) auto
  then show ?case using Suc by (simp add: take_add [symmetric] add.commute)
qed simp

definition image_row :: "nat \<Rightarrow> pixel list \<Rightarrow> nat \<Rightarrow> pixel list" where
  "image_row w px y = map (\<lambda>x. px ! (y * w + x)) [0..<w]"

lemma length_image_row [simp]: "length (image_row w px y) = w"
  by (simp add: image_row_def)

lemma pixel_rows_ok:
  assumes "h * w \<le> length px"
  shows "pixel_rows (int w) (int h) px =
    Inr (map ((#) 0) (map (\<lambda>y. concat (map pixel_bytes (image_row w px y))) [0..<h]))"
proof -
  have "int w * int h \<le> int (length px)"
    using assms by (metis mult.commute of_nat_le_iff of_nat_mult)
  then show ?thesis by (simp add: pixel_rows_def image_row_def o_def)
qed

lemma written_sizes:
  assumes "make_png_from_pixels compress width height px = Inr png"
  obtains w h where "width = int w" "height = int h" "w < 2 ^ 32" "h < 2 ^ 32" "h * w \<le> length px"
    "length (compress (concat (map ((#) 0) (map (\<lambda>y. concat (map pixel_bytes (image_row w px y))) [0..<h])))) < 2 ^ 32"
proof -
  from assms have hdr: "\<exists>hdr. ihdr_data width height = Inr hdr"
    and rows: "width * height \<le> int (length px) \<or> width \<le> 0 \<or> height \<le> 0"
    by (auto simp: make_png_from_pixels_def pixel_rows_def split: sum.splits if_splits)
  from hdr have b: "0 \<le> width" "width < 2 ^ 32" "0 \<le> height" "height < 2 ^ 32"
    by (auto simp: ihdr_data_def pack_I_def split: if_splits)
  define w h where "w = nat width" and "h = nat height"
  with b have wh: "width = int w" "height = int h" "w < 2 ^ 32" "h < 2 ^ 32" by auto
  have "h * w \<le> length px"
  proof (cases "width \<le> 0 \<or> height \<le> 0")
    case True
    with b show ?thesis by (auto simp: w_def h_def)
  next
    case False
    with rows have "int (w * h) \<le> int (length px)" by (simp add: wh)
    then show ?thesis by (metis mult.commute of_nat_le_iff)
  qed
  moreover from this have "length (compress (concat (map ((#) 0) (map (\<lambda>y. concat (map pixel_bytes (image_row w px y))) [0..<h])))) < 2 ^ 32"
    using assms unfolding wh make_png_from_pixels_def pixel_rows_ok [OF \<open>h * w \<le> length px\<close>]
    by (auto simp: assemble_png_def chunk_def pack_I_def split: sum.splits if_splits)
  ultimately show thesis using wh that by blast
qed

lemma read_written_sized:
  assumes "zlib_ok compress decompress" "w < 2 ^ 32" "h < 2 ^ 32" "h * w \<le> length px"
    and "length (compress (concat (map ((#) 0) (map (\<lambda>y. concat (map pixel_bytes (image_row w px y))) [0..<h])))) < 2 ^ 32"
  obtains png where "make_png_from_pixels compress (int w) (int h) px = Inr png"
    "read_png_pixels decompress png = Inr (w, h, take (h * w) px)"
proof -
  let ?row = "\<lambda>y. concat (map pixel_bytes (image_row w px y))"
  let ?rows = "map ?row [0..<h]"
  let ?raw = "concat (map ((#) 0) ?rows)"
  let ?idat = "compress ?raw"
  let ?hdr = "be32 w @ be32 h @ [8, of_nat 2] @ [0, 0, 0]"
  define c1 c2 c3 where "c1 = be32 (unat (crc32 (ascii ''IHDR'' @ be32 w @ be32 h @ [8, 2, 0, 0, 0])))"
    and "c2 = be32 (unat (crc32 (ascii ''IDAT'' @ ?idat)))" and "c3 = be32 (unat (crc32 (ascii ''IEND'')))"
  let ?cs = "[(ascii ''IDAT'', ?idat, c2)]"
  let ?file = "png_file w h 2 [0, 0, 0] c1 ?cs (raw_chunk (ascii ''IEND'') [] c3)"
  have crcs: "length c1 = 4" "length c2 = 4" "length c3 = 4"
    by (simp_all add: c1_def c2_def c3_def)
  have made: "make_png_from_pixels compress (int w) (int h) px = Inr ?file"
    using assms assemble_png_ok [of w h ?idat]
    by (simp add: make_png_from_pixels_def ihdr_data_ok pixel_rows_ok png_file_def raw_chunk_def
        raw_chunks_def c1_def c2_def c3_def)
  have mid: "middle ?cs" "idat_of ?cs = [?idat]"
    using crcs assms(5) by (simp_all add: middle_def chunk_wf_def idat_of_def ascii_ne [symmetric])
  have "is_end (raw_chunk (ascii ''IEND'') [] c3)"
    using crcs unfolding is_end_def chunk_wf_def by (intro disjI2 exI [of _ "[]"] exI [of _ c3]) simp
  moreover have "decompress (concat (idat_of ?cs)) =
      Some (filtered_image 3 (replicate (w * 3) 0) (map (\<lambda>r. (0, r)) ?rows) @ [])"
    using assms(1) unfolding mid(2) filtered_None by (simp add: zlib_ok_def)
  moreover have "\<forall>(t, row) \<in> set (map (\<lambda>r. (0 :: nat, r)) ?rows). t \<le> 4 \<and> length row = w * 3"
    by auto
  ultimately have "read_png_pixels decompress ?file =
      Inr (w, h, concat (map (\<lambda>r. row_rgb w 3 (snd r)) (map (\<lambda>r. (0 :: nat, r)) ?rows)))"
    using read_png_pixels_correct_aux [of w "map (\<lambda>r. (0, r)) ?rows" 2 "[0, 0, 0]" c1 ?cs
        "raw_chunk (ascii ''IEND'') [] c3" 3 decompress "[]"] assms(2,3) crcs mid
    by simp
  moreover have "concat (map (\<lambda>r. row_rgb w 3 (snd r)) (map (\<lambda>r. (0 :: nat, r)) ?rows)) = take (h * w) px"
  proof -
    have "row_rgb w 3 (?row y) = image_row w px y" for y
      using row_rgb_pixels [of "image_row w px y"] by (simp add: image_row_def)
    then show ?thesis
      using concat_rows [OF assms(4)] by (simp add: o_def image_row_def)
  qed
  ultimately show thesis using made that by simp
qed

lemma read_written:
  assumes "zlib_ok compress decompress" "make_png_from_pixels compress width height px = Inr png"
  shows "read_png_pixels decompress png = Inr (nat width, nat height, take (nat height * nat width) px)"
proof -
  from assms(2) obtain w h where "width = int w" "height = int h" "w < 2 ^ 32" "h < 2 ^ 32"
    "h * w \<le> length px"
    "length (compress (concat (map ((#) 0) (map (\<lambda>y. concat (map pixel_bytes (image_row w px y))) [0..<h])))) < 2 ^ 32"
    by (rule written_sizes)
  with assms(2) read_written_sized [OF assms(1), of w h px] show ?thesis by fastforce
qed

text \<open>The length of what the reader returns.\<close>

lemma length_row_pixels: "row_pixels n bpp row = Inr ps \<Longrightarrow> length ps = n"
proof (induction n arbitrary: row ps)
  case (Suc n)
  then show ?case
    by (cases "row_pixels n bpp (drop bpp row)") (auto split: list.splits)
qed simp

lemma length_read_rows: "read_rows n w bpp raw prev = Inr ps \<Longrightarrow> length ps = n * w"
proof (induction n arbitrary: raw prev ps)
  case (Suc n)
  from Suc.prems obtain t rest d qs where
    "raw = t # rest" "row_pixels w bpp d = Inr qs"
    "map_sum id ((@) qs) (read_rows n w bpp (drop (w * bpp) rest) d) = Inr ps"
    by (auto split: list.splits sum.splits)
  with Suc.IH length_row_pixels show ?case
    by (cases "read_rows n w bpp (drop (w * bpp) rest) d") fastforce+
qed simp

lemma length_read:
  assumes "read_png_pixels decompress png = Inr (w, h, px)"
  shows "length px = h * w"
proof -
  obtain st where st: "read_chunks (drop 8 png) png_state_init = Inr st"
    using assms by (cases "read_chunks (drop 8 png) png_state_init")
      (simp_all add: read_png_pixels_def split: if_splits)
  then obtain raw where raw: "decompress (concat (idat_chunks st)) = Some raw"
    using assms by (cases "decompress (concat (idat_chunks st))")
      (simp_all add: read_png_pixels_def split: if_splits)
  define bpp where "bpp = (if png_color_type st = 2 then 3 else 4 :: nat)"
  have "map_sum id (\<lambda>ps. (png_width st, png_height st, ps)) (read_rows (png_height st)
      (png_width st) bpp raw (replicate (png_width st * bpp) 0)) = Inr (w, h, px)"
    using assms st raw by (simp add: read_png_pixels_def Let_def bpp_def [symmetric] split: if_splits)
  then show ?thesis
    by (cases "read_rows (png_height st) (png_width st) bpp raw (replicate (png_width st * bpp) 0)")
      (auto dest: length_read_rows)
qed

lemma make_png_eq:
  "make_png compress (int w) (int h) rgb = make_png_from_pixels compress (int w) (int h) (replicate (h * w) rgb)"
proof (cases "ihdr_data (int w) (int h)")
  case (Inl e)
  then show ?thesis by (simp add: make_png_def make_png_from_pixels_def assemble_png_def)
next
  case (Inr hdr)
  have "image_row w (replicate (h * w) rgb) y = replicate w rgb" if "y < h" for y
  proof -
    have "y * w + x < h * w" if "x < w" for x
    proof -
      have "y * w + x < Suc y * w" using that by simp
      also have "\<dots> \<le> h * w" using \<open>y < h\<close> by (intro mult_right_mono) auto
      finally show ?thesis .
    qed
    then show ?thesis by (intro nth_equalityI) (simp_all add: image_row_def)
  qed
  then have "map (\<lambda>y. concat (map pixel_bytes (image_row w (replicate (h * w) rgb) y))) [0..<h] =
      replicate h (concat (replicate w (pixel_bytes rgb)))"
    by (intro nth_equalityI) (simp_all add: map_replicate)
  then show ?thesis
    using Inr pixel_rows_ok [of h w "replicate (h * w) rgb"]
    by (simp add: make_png_def make_png_from_pixels_def map_replicate)
qed

text \<open>
  The two writers and the reader agree: a file written from pixels reads back as its size
  and its pixels, and a solid image reads back as so many pixels of its colour.
\<close>

theorem written_png_reads_back:
  assumes "zlib_ok compress decompress" "length px = h * w"
    and "make_png_from_pixels compress (int w) (int h) px = Inr png"
    and "make_png compress (int w) (int h) rgb = Inr solid"
  shows "read_png_pixels decompress png = Inr (w, h, px) \<and>
    read_png_pixels decompress solid = Inr (w, h, replicate (h * w) rgb)"
  using read_written [OF assms(1,3)] read_written [OF assms(1) assms(4) [unfolded make_png_eq]] assms(2)
  by simp_all

section \<open>Comparison, masking and cropping\<close>

definition marked :: "int \<Rightarrow> pixel \<Rightarrow> pixel \<Rightarrow> pixel" where
  "marked tolerance a g = (if pixel_differs tolerance a g then (255, 0, 0) else dimmed a)"

text \<open>The largest difference of a channel, and a third of each channel, on numbers.\<close>

definition largest_gap :: "pixel \<Rightarrow> pixel \<Rightarrow> int" where
  "largest_gap a g = (case (a, g) of ((ar, ag, ab), (gr, gg, gb)) \<Rightarrow>
     Max {\<bar>int (unat ar) - int (unat gr)\<bar>, \<bar>int (unat ag) - int (unat gg)\<bar>, \<bar>int (unat ab) - int (unat gb)\<bar>})"

lemma pixel_differs_gap: "pixel_differs tolerance a g \<longleftrightarrow> tolerance < largest_gap a g"
  by (auto simp: pixel_differs_def largest_gap_def less_max_iff_disj split: prod.split)

lemma dimmed_third: "dimmed (r, g, b) = (of_nat (unat r div 3), of_nat (unat g div 3), of_nat (unat b div 3))"
  by (simp add: dimmed_def word_arith_nat_div)

lemma compare_pixels_eq:
  "length as = length gs \<Longrightarrow> compare_pixels tolerance as gs =
    Inr (length (filter (\<lambda>(a, g). pixel_differs tolerance a g) (zip as gs)), map2 (marked tolerance) as gs)"
  by (induction tolerance as gs rule: compare_pixels.induct) (auto simp: marked_def)

lemma no_difference_iff:
  "length as = length gs \<Longrightarrow>
   filter (\<lambda>(a, g). pixel_differs t a g) (zip as gs) = [] \<longleftrightarrow> (\<forall>i < length as. \<not> pixel_differs t (as ! i) (gs ! i))"
  by (simp add: filter_empty_conv all_set_conv_all_nth case_prod_beta)

lemma number_of_differences:
  "length as = length gs \<Longrightarrow>
   length (filter (\<lambda>(a, g). pixel_differs t a g) (zip as gs)) = card {i. i < length as \<and> pixel_differs t (as ! i) (gs ! i)}"
  by (simp add: length_filter_conv_card case_prod_beta cong: conj_cong)

lemma compare_golden_cases:
  assumes "zlib_ok compress decompress"
    and "read_png_pixels decompress actual = Inr (w, h, as)"
    and "read_png_pixels decompress golden = Inr (gw, gh, gs)"
    and "compare_golden compress decompress actual golden tolerance = Inr (match, n, diff)"
  shows "(match \<longleftrightarrow> w = gw \<and> h = gh \<and> (\<forall>i < h * w. \<not> pixel_differs tolerance (as ! i) (gs ! i))) \<and>
    (diff = None \<longleftrightarrow> match) \<and>
    (w = gw \<and> h = gh \<longrightarrow> n = card {i. i < h * w \<and> pixel_differs tolerance (as ! i) (gs ! i)}) \<and>
    (w = gw \<and> h = gh \<and> diff = Some png \<longrightarrow>
      read_png_pixels decompress png = Inr (w, h, map2 (marked tolerance) as gs))"
proof -
  have len: "length as = h * w" "length gs = gh * gw" using assms(2,3) by (simp_all add: length_read)
  let ?d = "filter (\<lambda>(a, g). pixel_differs tolerance a g) (zip as gs)"
  show ?thesis
  proof (cases "w = gw \<and> h = gh")
    case False
    then show ?thesis using assms(2-4)
      by (cases "make_size_mismatch_png compress") (auto simp: compare_golden_def)
  next
    case True
    then have eq: "length as = length gs" using len by simp
    show ?thesis
    proof (cases "?d = []")
      case True
      then show ?thesis
        using assms(2-4) \<open>w = gw \<and> h = gh\<close> len eq no_difference_iff [OF eq, of tolerance]
          number_of_differences [OF eq, of tolerance]
        by (auto simp: compare_golden_def compare_pixels_eq)
    next
      case False
      then obtain png' where made: "make_png_from_pixels compress (int w) (int h) (map2 (marked tolerance) as gs) = Inr png'"
        and res: "match = False" "n = length ?d" "diff = Some png'"
        using assms(2-4) \<open>w = gw \<and> h = gh\<close>
        by (cases "make_png_from_pixels compress (int w) (int h) (map2 (marked tolerance) as gs)")
          (auto simp: compare_golden_def compare_pixels_eq [OF eq])
      from read_written [OF assms(1) made] len eq
      have "read_png_pixels decompress png' = Inr (w, h, map2 (marked tolerance) as gs)" by simp
      then show ?thesis
        using res False \<open>w = gw \<and> h = gh\<close> len no_difference_iff [OF eq, of tolerance]
          number_of_differences [OF eq, of tolerance] by auto
    qed
  qed
qed

text \<open>
  C34.  \<open>compare_golden\<close>.  Two images match exactly when they have the same size and no
  channel of any pixel differs by more than the tolerance; then there is no diff image.  Otherwise,
  when the sizes agree, the count is the number of pixels that differ, and the diff image, read back,
  has the size of the screenshot, is red where the pixels differ, and everywhere else has the screenshot's
  pixel with each channel divided by three and rounded down (dark colours, not the dim gray of the docstring).
\<close>

theorem compare_golden_correct:
  assumes "zlib_ok compress decompress"
    and "read_png_pixels decompress actual = Inr (w, h, as)"
    and "read_png_pixels decompress golden = Inr (gw, gh, gs)"
    and "compare_golden compress decompress actual golden tolerance = Inr (match, n, diff)"
  shows "(match \<longleftrightarrow> w = gw \<and> h = gh \<and> (\<forall>i < h * w. largest_gap (as ! i) (gs ! i) \<le> tolerance)) \<and>
    (diff = None \<longleftrightarrow> match) \<and>
    (w = gw \<and> h = gh \<longrightarrow> n = card {i. i < h * w \<and> largest_gap (as ! i) (gs ! i) > tolerance}) \<and>
    (w = gw \<and> h = gh \<and> diff = Some png \<longrightarrow>
      (\<exists>ps. read_png_pixels decompress png = Inr (w, h, ps) \<and> length ps = h * w \<and>
        (\<forall>i < h * w. ps ! i =
          (if largest_gap (as ! i) (gs ! i) > tolerance then (255, 0, 0)
           else case as ! i of (r, g, b) \<Rightarrow> (of_nat (unat r div 3), of_nat (unat g div 3), of_nat (unat b div 3))))))"
proof -
  have len: "length as = h * w" "length gs = gh * gw" using assms(2,3) by (simp_all add: length_read)
  have marks: "marked tolerance a g = (if largest_gap a g > tolerance then (255, 0, 0)
      else case a of (r, g, b) \<Rightarrow> (of_nat (unat r div 3), of_nat (unat g div 3), of_nat (unat b div 3)))" for a g
    by (simp add: marked_def pixel_differs_gap dimmed_third split: prod.split)
  from compare_golden_cases [OF assms, of png] len show ?thesis
    by (auto simp: pixel_differs_gap not_less marks)
qed

lemma nth_concat_rows:
  "y < h \<Longrightarrow> x < w \<Longrightarrow> concat (map (\<lambda>y. map (f y) [0..<w]) [0..<h]) ! (y * w + x) = f y x"
proof (induction h)
  case (Suc h)
  have len: "length (concat (map (\<lambda>y. map (f y) [0..<w]) [0..<h])) = h * w"
    by (induction h) simp_all
  show ?case
  proof (cases "y = h")
    case True
    then show ?thesis using Suc.prems len by (simp add: nth_append)
  next
    case False
    then have y: "y < h" using Suc.prems by simp
    have "y * w + x < Suc y * w" using Suc.prems by simp
    also have "\<dots> \<le> h * w" using y by (intro mult_right_mono) auto
    finally show ?thesis using Suc y len by (simp add: nth_append)
  qed
qed simp

lemma map_upt_shift: "map f [l..<r] = map (\<lambda>i. f (l + i)) [0..<r - l]"
  by (intro nth_equalityI) auto

text \<open>The crop rectangle, clamped to a width \<open>w\<close> and a height \<open>h\<close>.\<close>

definition clamp :: "int \<Rightarrow> nat \<Rightarrow> nat" where
  "clamp v limit = nat (max 0 (min v (int limit)))"

definition crop_width :: "int \<Rightarrow> int \<Rightarrow> nat \<Rightarrow> nat" where
  "crop_width left right w = clamp right w - clamp left w"

lemma clamp_le [simp]: "clamp v limit \<le> limit"
  by (simp add: clamp_def)

lemma clamped_diff:
  "0 \<le> a \<Longrightarrow> nat (max a r - a) = nat (max 0 r) - nat a"
  "0 \<le> a \<Longrightarrow> nat (max a r) - nat a = nat (max 0 r) - nat a"
  by (auto simp: max_def)

lemma crop_pixels:
  assumes "zlib_ok compress decompress" "read_png_pixels decompress png = Inr (w, h, px)"
    and "crop_to_app_pane compress decompress png left0 top0 right0 bottom0 = Inr out"
  shows "read_png_pixels decompress out = Inr (crop_width left0 right0 w, crop_width top0 bottom0 h,
    concat (map (\<lambda>y. map (\<lambda>x. px ! ((clamp top0 h + y) * w + (clamp left0 w + x))) [0..<crop_width left0 right0 w])
      [0..<crop_width top0 bottom0 h]))"
proof -
  let ?l = "max 0 (min left0 (int w))" and ?t = "max 0 (min top0 (int h))"
  let ?r = "max ?l (min right0 (int w))" and ?b = "max ?t (min bottom0 (int h))"
  let ?px = "concat (map (\<lambda>y. map (\<lambda>x. px ! (y * w + x)) [nat ?l..<nat ?r]) [nat ?t..<nat ?b])"
  have size: "nat (?r - ?l) = crop_width left0 right0 w" "nat (?b - ?t) = crop_width top0 bottom0 h"
    "nat ?r - nat ?l = crop_width left0 right0 w" "nat ?b - nat ?t = crop_width top0 bottom0 h"
    by (simp_all add: crop_width_def clamp_def clamped_diff)
  define out_px where "out_px = concat (map (\<lambda>y. map (\<lambda>x. px ! ((clamp top0 h + y) * w + (clamp left0 w + x)))
      [0..<crop_width left0 right0 w]) [0..<crop_width top0 bottom0 h])"
  have "?px = out_px"
    unfolding map_upt_shift [of _ "nat ?l"] map_upt_shift [of _ "nat ?t"] size clamp_def out_px_def ..
  then have "make_png_from_pixels compress (?r - ?l) (?b - ?t) out_px = Inr out"
    using assms(2,3) by (simp add: crop_to_app_pane_def Let_def)
  from read_written [OF assms(1) this]
  have "read_png_pixels decompress out = Inr (crop_width left0 right0 w, crop_width top0 bottom0 h,
      take (crop_width top0 bottom0 h * crop_width left0 right0 w) out_px)"
    unfolding size(1,2) .
  moreover have "length out_px = crop_width top0 bottom0 h * crop_width left0 right0 w"
    by (simp add: out_px_def length_concat o_def sum_list_triv)
  ultimately show ?thesis by (simp add: out_px_def [symmetric])
qed

text \<open>
   Cropping.  The cropped file reads back as the part of the screenshot between the four
  edges, clamped to the image: every pixel of it is the screenshot's pixel at that position moved
  by the left and top edges.  On a 1920 by 1080 screenshot the default edges give 1832 by 1056.
\<close>

theorem crop_to_app_pane_correct:
  assumes "zlib_ok compress decompress" "read_png_pixels decompress png = Inr (w, h, px)"
    and "crop_to_app_pane compress decompress png left0 top0 right0 bottom0 = Inr out"
  shows "\<exists>px'. read_png_pixels decompress out = Inr (crop_width left0 right0 w, crop_width top0 bottom0 h, px') \<and>
      (\<forall>y < crop_width top0 bottom0 h. \<forall>x < crop_width left0 right0 w.
         px' ! (y * crop_width left0 right0 w + x) = px ! ((clamp top0 h + y) * w + (clamp left0 w + x)))"
proof -
  show "\<exists>px'. read_png_pixels decompress out = Inr (crop_width left0 right0 w, crop_width top0 bottom0 h, px') \<and>
      (\<forall>y < crop_width top0 bottom0 h. \<forall>x < crop_width left0 right0 w.
         px' ! (y * crop_width left0 right0 w + x) = px ! ((clamp top0 h + y) * w + (clamp left0 w + x)))"
    unfolding crop_pixels [OF assms] by (intro exI conjI allI impI, rule refl, erule (1) nth_concat_rows)
qed

lemma mask_pixels:
  assumes "zlib_ok compress decompress" "read_png_pixels decompress png = Inr (w, h, px)"
    and "mask_status_bar compress decompress png rows = Inr out"
  shows "read_png_pixels decompress out =
    Inr (w, h, replicate (min (nat rows * w) (length px)) (255, 0, 255) @ drop (nat rows * w) px)"
proof -
  let ?n = "nat (min (rows * int w) (int (length px)))"
  have "nat (rows * int w) = nat rows * w"
    by (cases "0 \<le> rows") (simp_all add: nat_mult_distrib mult_nonpos_nonneg)
  then have n: "?n = min (nat rows * w) (length px)"
    by (cases "rows * int w \<le> int (length px)") (auto simp: min_def)
  define out_px where "out_px = replicate (min (nat rows * w) (length px)) (255, 0, 255 :: 8 word) @ drop (nat rows * w) px"
  have "drop ?n px = drop (nat rows * w) px" unfolding n by (simp add: min_def)
  then have "make_png_from_pixels compress (int w) (int h) out_px = Inr out"
    using assms(2,3) unfolding out_px_def n [symmetric] by (simp add: mask_status_bar_def Let_def)
  from read_written [OF assms(1) this]
  have "read_png_pixels decompress out = Inr (w, h, take (h * w) out_px)" by simp
  moreover have "length out_px = h * w"
    using length_read [OF assms(2)] by (simp add: out_px_def)
  ultimately show ?thesis by (simp add: out_px_def [symmetric])
qed

text \<open>
   Masking.  Comparing two screenshots of one size after masking their top rows looks at
  exactly the pixels below those rows: the masked images match if and only if no pixel from the
  first unmasked row on differs by more than the tolerance.
\<close>

theorem masked_comparison:
  assumes "zlib_ok compress decompress" "0 \<le> tolerance"
    and "read_png_pixels decompress actual = Inr (w, h, as)"
    and "read_png_pixels decompress golden = Inr (w, h, gs)"
    and "mask_status_bar compress decompress actual rows = Inr actual'"
    and "mask_status_bar compress decompress golden rows = Inr golden'"
    and "compare_golden compress decompress actual' golden' tolerance = Inr (match, n, diff)"
  shows "match \<longleftrightarrow> (\<forall>i. nat rows * w \<le> i \<and> i < h * w \<longrightarrow> \<not> pixel_differs tolerance (as ! i) (gs ! i))"
proof -
  have len: "length as = h * w" "length gs = h * w" using assms(3,4) by (simp_all add: length_read)
  define mask :: "pixel list \<Rightarrow> pixel list" where "mask = (\<lambda>px. replicate (min (nat rows * w) (h * w)) (255, 0, 255) @ drop (nat rows * w) px)"
  have px: "mask px ! i = (if i < nat rows * w then (255, 0, 255) else px ! i)"
    if "i < h * w" "length px = h * w" for i and px :: "pixel list"
  proof (cases "i < nat rows * w")
    case True
    with that show ?thesis by (simp add: mask_def nth_append)
  next
    case False
    with that(1) have "min (nat rows * w) (h * w) = nat rows * w" by (intro min_absorb1) linarith
    moreover have "nat rows * w \<le> length px" using False that by linarith
    from nth_drop [OF this, of "i - nat rows * w"] have "drop (nat rows * w) px ! (i - nat rows * w) = px ! i"
      using False by simp
    ultimately show ?thesis using False by (simp add: mask_def nth_append)
  qed
  have same: "\<not> pixel_differs tolerance p p" for p
    using assms(2) by (simp add: pixel_differs_def split: prod.split)
  have "match \<longleftrightarrow> (\<forall>i < h * w. \<not> pixel_differs tolerance (mask as ! i) (mask gs ! i))"
    using compare_golden_cases [OF assms(1) mask_pixels [OF assms(1,3,5)] mask_pixels [OF assms(1,4,6)] assms(7), of "[]"]
    by (simp add: mask_def len)
  also have "\<dots> \<longleftrightarrow> (\<forall>i. nat rows * w \<le> i \<and> i < h * w \<longrightarrow> \<not> pixel_differs tolerance (as ! i) (gs ! i))"
    using px [OF _ len(1)] px [OF _ len(2)] same by (metis not_le)
  finally show ?thesis .
qed

section \<open>Concrete images\<close>

text \<open>Storing without compression.\<close>

definition stored :: "bytes \<Rightarrow> bytes" where
  "stored raw = raw"

lemma zlib_ok_stored [simp]: "zlib_ok stored Some"
  by (simp add: zlib_ok_def stored_def)

lemma small_png:
  assumes "w < 2000" "h < 2000" "length px = h * w"
  obtains png where "make_png_from_pixels stored (int w) (int h) px = Inr png"
    "read_png_pixels Some png = Inr (w, h, px)"
proof -
  let ?raw = "concat (map ((#) 0) (map (\<lambda>y. concat (map pixel_bytes (image_row w px y))) [0..<h]))"
  have "length (concat (map ((#) 0) rows)) = length rows * (w * 3 + 1)"
    if "\<forall>r \<in> set rows. length r = w * 3" for rows :: "bytes list"
    using that by (induction rows) simp_all
  from this [of "map (\<lambda>y. concat (map pixel_bytes (image_row w px y))) [0..<h]"]
  have "length ?raw = h * (w * 3 + 1)" by simp
  also have "\<dots> \<le> 2000 * (2000 * 3 + 1)" using assms by (intro mult_mono) auto
  finally have "length (stored ?raw) < 2 ^ 32" by (simp add: stored_def)
  then obtain png where "make_png_from_pixels stored (int w) (int h) px = Inr png"
    "read_png_pixels Some png = Inr (w, h, take (h * w) px)"
    using read_written_sized [OF zlib_ok_stored, of w h px] assms by auto
  with assms(3) that show thesis by simp
qed

definition sample_shot :: "pixel list" where
  "sample_shot = [(10, 20, 30), (0, 0, 0)]"

definition sample_golden :: "pixel list" where
  "sample_golden = [(13, 20, 30), (200, 0, 0)]"

lemmas sample_images = sample_shot_def sample_golden_def

theorem defilter_undoes_filter_witness:
  "defilter_row 4 (filter_row 4 3 [1, 2, 3, 4, 5, 6] [9, 8, 7, 6, 5, 250]) [1, 2, 3, 4, 5, 6] 3 =
     Inr [9, 8, 7, 6, 5, 250]"
  using defilter_undoes_filter [of 4 3 "[9, 8, 7, 6, 5, 250]" "[1, 2, 3, 4, 5, 6]"] by simp

theorem read_png_pixels_correct_witness:
  "\<exists>file. read_png_pixels Some file = Inr (1, 2, [(9, 8, 7), (6, 5, 250)])"
proof -
  let ?rows = "[(1, [9, 8, 7, 255]), (4, [6, 5, 250, 0])] :: (nat \<times> bytes) list"
  let ?raw = "filtered_image 4 (replicate (1 * 4) 0) ?rows @ []"
  let ?cs = "[(ascii ''IDAT'', take 3 ?raw, [0, 0, 0, 0]), (ascii ''tEXt'', [1], [0, 0, 0, 0]),
    (ascii ''IDAT'', drop 3 ?raw, [0, 0, 0, 0])]"
  have "ascii ''tEXt'' \<noteq> ascii ''IHDR''" "ascii ''tEXt'' \<noteq> ascii ''IEND''" "ascii ''tEXt'' \<noteq> ascii ''IDAT''"
    by (simp_all add: ascii_def)
  then have "middle ?cs" "idat_of ?cs = [take 3 ?raw, drop 3 ?raw]"
    by (simp_all add: middle_def chunk_wf_def idat_of_def ascii_ne [symmetric])
  then have "read_png_pixels Some (png_file 1 (length ?rows) 6 [0, 0, 0] [0, 0, 0, 0] ?cs []) =
      Inr (1, length ?rows, concat (map (\<lambda>r. row_rgb 1 4 (snd r)) ?rows))"
    by (intro read_png_pixels_correct [where rest = "[]"]) (simp_all add: is_end_def)
  then show ?thesis by (intro exI) (simp add: row_rgb_def numeral_2_eq_2)
qed

theorem written_png_reads_back_witness:
  "\<exists>png solid. read_png_pixels Some png = Inr (2, 1, sample_shot) \<and>
     read_png_pixels Some solid = Inr (2, 1, [(1, 2, 3), (1, 2, 3)])"
proof -
  obtain png where png: "make_png_from_pixels stored (int 2) (int 1) sample_shot = Inr png"
    using small_png [of 2 1 sample_shot] by (auto simp: sample_images)
  obtain solid where "make_png stored (int 2) (int 1) (1, 2, 3) = Inr solid"
    unfolding make_png_eq using small_png [of 2 1 "replicate (1 * 2) (1, 2, 3)"] by auto
  from written_png_reads_back [OF zlib_ok_stored _ png this] show ?thesis
    by (auto simp: sample_images numeral_2_eq_2)
qed

theorem compare_golden_correct_witness:
  "\<exists>actual golden diff. compare_golden stored Some actual golden 5 = Inr (False, 1, Some diff) \<and>
     read_png_pixels Some diff = Inr (2, 1, [(3, 6, 10), (255, 0, 0)])"
proof -
  obtain a where a: "read_png_pixels Some a = Inr (2, 1, sample_shot)"
    using small_png [of 2 1 sample_shot] by (auto simp: sample_images)
  obtain g where g: "read_png_pixels Some g = Inr (2, 1, sample_golden)"
    using small_png [of 2 1 sample_golden] by (auto simp: sample_images)
  have d: "pixel_differs 5 (0, 0, 0) (200, 0, 0)" "\<not> pixel_differs 5 (10, 20, 30) (13, 20, 30)"
    "dimmed (10, 20, 30) = (3, 6, 10)"
    by (simp_all add: pixel_differs_def dimmed_def)
  obtain diff where "make_png_from_pixels stored (int 2) (int 1) [(3, 6, 10), (255, 0, 0)] = Inr diff"
    using small_png [of 2 1 "[(3, 6, 10), (255, 0, 0)]"] by auto
  then have c: "compare_golden stored Some a g 5 = Inr (False, 1, Some diff)"
    using a g d by (simp add: compare_golden_def sample_images)
  have gaps: "largest_gap (10, 20, 30) (13, 20, 30) = 3" "largest_gap (0, 0, 0) (200, 0, 0) = 200"
    by (simp_all add: largest_gap_def)
  from compare_golden_correct [OF zlib_ok_stored a g c, of diff] obtain ps where
    ps: "read_png_pixels Some diff = Inr (2, 1, ps)" "length ps = 2" and
    px: "\<forall>i < 2. ps ! i = (if largest_gap (sample_shot ! i) (sample_golden ! i) > 5 then (255, 0, 0)
      else case sample_shot ! i of (r, g, b) \<Rightarrow> (of_nat (unat r div 3), of_nat (unat g div 3), of_nat (unat b div 3)))"
    by auto
  from px [rule_format, of 0] px [rule_format, of 1] have "ps ! 0 = (3, 6, 10)" "ps ! 1 = (255, 0, 0)"
    by (simp_all add: sample_images gaps)
  with ps(2) have "ps = [(3, 6, 10), (255, 0, 0)]" by (intro nth_equalityI) (auto simp: less_2_cases_iff)
  with ps have "read_png_pixels Some diff = Inr (2, 1, [(3, 6, 10), (255, 0, 0)])" by simp
  with c show ?thesis by blast
qed

theorem crop_to_app_pane_correct_witness:
  "\<exists>png out px. crop_to_app_pane stored Some png 1 0 9 9 = Inr out \<and>
     read_png_pixels Some out = Inr (1, 1, px) \<and> px ! 0 = (0, 0, 0)"
proof -
  obtain png where png: "read_png_pixels Some png = Inr (2, 1, sample_shot)"
    using small_png [of 2 1 sample_shot] by (auto simp: sample_images)
  obtain out where "make_png_from_pixels stored (int 1) (int 1) [(0, 0, 0)] = Inr out"
    using small_png [of 1 1 "[(0, 0, 0)]"] by auto
  then have c: "crop_to_app_pane stored Some png 1 0 9 9 = Inr out"
    using png by (simp add: crop_to_app_pane_def sample_images numeral_2_eq_2)
  have size: "crop_width 1 9 2 = 1" "crop_width 0 9 1 = 1" "clamp 1 2 = 1" "clamp 0 1 = 0"
    by (simp_all add: crop_width_def clamp_def)
  from crop_to_app_pane_correct [OF zlib_ok_stored png c] obtain px where
    "read_png_pixels Some out = Inr (1, 1, px)" "px ! 0 = (0, 0, 0)"
    unfolding size by (auto simp: sample_images)
  with c show ?thesis by blast
qed

theorem masked_comparison_witness:
  "\<exists>actual golden actual' golden' match n diff. mask_status_bar stored Some actual 1 = Inr actual' \<and>
     mask_status_bar stored Some golden 1 = Inr golden' \<and>
     compare_golden stored Some actual' golden' 0 = Inr (match, n, diff) \<and> \<not> match"
proof -
  obtain a where a: "read_png_pixels Some a = Inr (1, 2, sample_shot)"
    using small_png [of 1 2 sample_shot] by (auto simp: sample_images)
  obtain g where g: "read_png_pixels Some g = Inr (1, 2, sample_golden)"
    using small_png [of 1 2 sample_golden] by (auto simp: sample_images)
  obtain a' where a': "make_png_from_pixels stored (int 1) (int 2) [(255, 0, 255), (0, 0, 0)] = Inr a'"
    "read_png_pixels Some a' = Inr (1, 2, [(255, 0, 255), (0, 0, 0)])"
    using small_png [of 1 2 "[(255, 0, 255), (0, 0, 0)]"] by auto
  obtain g' where g': "make_png_from_pixels stored (int 1) (int 2) [(255, 0, 255), (200, 0, 0)] = Inr g'"
    "read_png_pixels Some g' = Inr (1, 2, [(255, 0, 255), (200, 0, 0)])"
    using small_png [of 1 2 "[(255, 0, 255), (200, 0, 0)]"] by auto
  have mask: "mask_status_bar stored Some a 1 = Inr a'" "mask_status_bar stored Some g 1 = Inr g'"
    using a g a'(1) g'(1) by (simp_all add: mask_status_bar_def sample_images)
  have d: "\<not> pixel_differs 0 (255, 0, 255) (255, 0, 255)" "pixel_differs 0 (0, 0, 0) (200, 0, 0)"
    "dimmed (255, 0, 255) = (85, 0, 85)"
    by (simp_all add: pixel_differs_def dimmed_def)
  obtain d where "make_png_from_pixels stored (int 1) (int 2) [(85, 0, 85), (255, 0, 0)] = Inr d"
    using small_png [of 1 2 "[(85, 0, 85), (255, 0, 0)]"] by auto
  then obtain match n diff where c: "compare_golden stored Some a' g' 0 = Inr (match, n, diff)"
    using a'(2) g'(2) d by (simp add: compare_golden_def)
  have "pixel_differs 0 (sample_shot ! 1) (sample_golden ! 1)"
    by (simp add: pixel_differs_def sample_images)
  then have "\<not> match"
    using masked_comparison [OF zlib_ok_stored _ a g mask c] by auto
  with mask c show ?thesis by blast
qed

end
