(* ===== verification/Smoke_Test.thy ===== *)
theory Smoke_Test
  imports Mcp_Server Mcp_Bridge Golden_Diff
begin

text \<open>
  \<^verbatim>\<open>e2e/smoke_test_runner.py\<close>: the wiring of the MCP handlers to the supervisor (the
  callback, the bridge, the stores the sync service shares) and the checks of the smoke test.  The
  handlers' world is the servicer's record; the state of the instance manager is whether the
  instance was created.  gRPC is taken to call the service's methods.
\<close>

section \<open>Wiring\<close>

definition on_mcp_event :: "(mcp_event \<Rightarrow> seconds) \<Rightarrow> mcp_event \<Rightarrow> servicer \<Rightarrow> servicer" where
  "on_mcp_event clock ev s = (case ev of
       BitmapSubmitted key data \<Rightarrow> on_bitmap_submitted (clock ev) key data s
     | DisplayRequested key \<Rightarrow> on_display_requested (clock ev) key s)"

record smoke_runner =
  instance_created :: bool
  smoke_handlers :: "servicer handlers"
  server_started :: bool

definition smoke_servicer :: servicer where
  "smoke_servicer = \<lparr>store = event_store_init, bitmap_store = bitmap_store_init, has_injector = False\<rparr>"

text \<open>
  \<open>setup\<close>; \<open>created\<close> is the reply of the instance manager.  With an APK configured it
  imports two functions that \<open>golden_test_harness\<close> does not have.
\<close>

definition smoke_setup ::
  "(mcp_event \<Rightarrow> seconds) \<Rightarrow> unit result \<Rightarrow> bool \<Rightarrow> smoke_runner \<Rightarrow> unit result \<times> smoke_runner" where
  "smoke_setup clock created apk_configured r =
     (case created of
        Inl e \<Rightarrow> (Inl e, r)
      | Inr _ \<Rightarrow>
          let h = reset (smoke_handlers r)\<lparr>world := smoke_servicer\<rparr>;
              r' = \<lparr>instance_created = True,
                    smoke_handlers = set_event_callback (Some (on_mcp_event clock)) h,
                    server_started = True\<rparr>
          in (if apk_configured then Inl (OtherError ''ImportError'') else Inr (), r'))"

text \<open>\<open>destroyed\<close> is the instance manager's reply; an RPC error is swallowed.\<close>

definition smoke_teardown :: "unit result \<Rightarrow> smoke_runner \<Rightarrow> smoke_runner" where
  "smoke_teardown destroyed r =
     r\<lparr>smoke_handlers := reset (smoke_handlers r), server_started := False,
       instance_created := instance_created r \<and> isl destroyed\<rparr>"

section \<open>The test\<close>

definition submit_and_display_test_bitmap ::
  "mcp_env \<Rightarrow> confirmation \<Rightarrow> nat \<times> nat \<Rightarrow> pixel \<Rightarrow> servicer handlers \<Rightarrow>
   (string result \<times> servicer handlers) option" where
  "submit_and_display_test_bitmap env cf test_size test_color h =
     (case make_png (zlib_compress env) (int (fst test_size)) (int (snd test_size)) test_color of
        Inl e \<Rightarrow> Some (Inl e, h)
      | Inr png_data \<Rightarrow>
          (case handle_submit_bitmap env (JStr (b64encode png_data)) h of
             (Inl e, h') \<Rightarrow> Some (Inl e, h')
           | (Inr result, h') \<Rightarrow>
               (case json_get result ''cache_key'' JNull of
                  Inr (JStr cache_key) \<Rightarrow>
                    (case handle_display_bitmap env cf (JStr cache_key) (JBool False) default_blocking_timeout h' of
                       None \<Rightarrow> None
                     | Some (Inl e, h'') \<Rightarrow> Some (Inl e, h'')
                     | Some (Inr display_result, h'') \<Rightarrow>
                         (if json_get display_result ''success'' JNull = Inr (JBool True)
                          then Some (Inr cache_key, h'')
                          else Some (Inl (RuntimeError ''display_bitmap failed''), h'')))
                | _ \<Rightarrow> Some (Inl (KeyError ''cache_key''), h'))))"

definition smoke_get_events :: "int \<Rightarrow> servicer handlers \<Rightarrow> event list" where
  "smoke_get_events since_ms h = GetEvents (world h) since_ms 100"

definition verify_display_command_in_events :: "string \<Rightarrow> int \<Rightarrow> servicer handlers \<Rightarrow> bool" where
  "verify_display_command_in_events cache_key since_ms h =
     list_ex (\<lambda>e. case payload e of DisplayCommand k \<Rightarrow> k = cache_key | _ \<Rightarrow> False)
       (smoke_get_events since_ms h)"

text \<open>\<open>GetBitmap\<close> without waiting, as a client with the given peer name.\<close>

definition fetch_bitmap :: "string \<Rightarrow> string \<Rightarrow> servicer handlers \<Rightarrow> bytes option" where
  "fetch_bitmap peer cache_key h =
     (case GetBitmap \<lparr>now_at = \<lambda>_. 0, active_at = \<lambda>_. True, later_at = \<lambda>_. 0, others_at = \<lambda>_ b. b\<rparr>
        0 (Some (Inr peer)) cache_key 0 (bitmap_store (world h)) of
        Some (data, _) \<Rightarrow> data | None \<Rightarrow> None)"

definition verify_bitmap_retrievable :: "string \<Rightarrow> string \<Rightarrow> servicer handlers \<Rightarrow> bool" where
  "verify_bitmap_retrievable peer cache_key h \<longleftrightarrow> fetch_bitmap peer cache_key h \<noteq> None"

section \<open>The smoke test passes\<close>

lemma fetch_bitmap_eq: "fetch_bitmap peer key h = bs_get (bitmap_store (world h)) key"
proof -
  let ?env = "\<lparr>now_at = \<lambda>_. 0, active_at = \<lambda>_. True, later_at = \<lambda>_. 0, others_at = \<lambda>_ b. b\<rparr>"
  obtain r b' where g: "GetBitmap ?env 0 (Some (Inr peer)) key 0 (bitmap_store (world h)) = Some (r, b')"
    using GetBitmap_returns [of 0 0 ?env "Some (Inr peer)" key "bitmap_store (world h)"] by auto
  then have "r = bs_get (bitmap_store (world h)) key"
    by (cases "bs_get (bitmap_store (world h)) key")
      (auto simp: GetBitmap_def GetBitmap_body_def loop.simps [of _ 0])
  with g show ?thesis by (simp add: fetch_bitmap_def)
qed

lemma world_notify: "event_callback h = Some cb \<Longrightarrow> world (notify ev h) = cb ev (world h)"
  by (simp add: notify_def)

text \<open>
  C32.  End to end.  On a freshly wired system with a clock past 1970, submitting and displaying a
  test image of any size and colour that can be encoded succeeds; the Android client then finds the
  display command among the events it polls, fetches under the key exactly the file submitted, and
  decodes it to the test colour.
\<close>

theorem smoke_test_passes:
  assumes "smoke_setup clock (Inr ()) False r0 = (Inr (), r)"
    and "make_png (zlib_compress env) (int w) (int ht) color = Inr png"
    and "zlib_ok (zlib_compress env) decompress" "\<And>ev. 0 \<le> clock ev"
  shows "\<exists>key h. submit_and_display_test_bitmap env cf (w, ht) color (smoke_handlers r) = Some (Inr key, h) \<and>
    verify_display_command_in_events key 0 h \<and> verify_bitmap_retrievable peer key h \<and>
    fetch_bitmap peer key h = Some png \<and>
    read_png_pixels decompress png = Inr (w, ht, replicate (ht * w) color)"
proof -
  define key where "key = png_cache_key env png"
  define h1 where "h1 = snd (submit_bytes env png (smoke_handlers r))"
  have cb: "event_callback (smoke_handlers r) = Some (on_mcp_event clock)" "world (smoke_handlers r) = smoke_servicer"
    using assms(1) by (auto simp: smoke_setup_def Let_def set_event_callback_def)
  have h1: "key \<in> set (keys (cache h1))" "event_callback h1 = Some (on_mcp_event clock)"
    "world h1 = on_bitmap_submitted (clock (BitmapSubmitted key png)) key png smoke_servicer"
    using cb by (simp_all add: h1_def submit_bytes_def Let_def key_def notify_def on_mcp_event_def)
  define h2 where "h2 = shown key h1"
  have world: "world h2 = on_display_requested (clock (DisplayRequested key)) key (world h1)"
    using h1(2) by (simp add: h2_def notify_def on_mcp_event_def)
  have run: "submit_and_display_test_bitmap env cf (w, ht) color (smoke_handlers r) = Some (Inr key, h2)"
    using assms(2) display_nonblocking [OF h1(1), of "JBool False" env cf default_blocking_timeout]
    by (simp add: submit_and_display_test_bitmap_def handle_submit_bitmap_def submit_bytes_def Let_def
        h1_def key_def [symmetric] json_get_def h2_def)
  have fetched: "fetch_bitmap peer key h2 = Some png"
    unfolding fetch_bitmap_eq world h1(3)
    by (simp add: on_display_requested_def on_bitmap_submitted_def bstore.get_put)
  let ?e = "\<lparr>timestamp_ms = to_ms (clock (DisplayRequested key)), payload = DisplayCommand key\<rparr>"
  have "events (store (world h2)) = make_hardcoded_events @
      [\<lparr>timestamp_ms = to_ms (clock (BitmapSubmitted key png)), payload = BitmapPayload key png\<rparr>, ?e]"
    unfolding world h1(3)
    by (simp add: on_display_requested_def on_bitmap_submitted_def smoke_servicer_def event_store_init_def)
  moreover have "length make_hardcoded_events \<le> 3" by (simp add: make_hardcoded_events_def)
  moreover have "0 \<le> to_ms (clock (DisplayRequested key))"
    using assms(4) by (simp add: to_ms_def py_int_def)
  ultimately have "?e \<in> set (get_events (store (world h2)) 0 100)"
    using store_source.fetch_all [of "store (world h2)" 100 0] by simp
  then have "verify_display_command_in_events key 0 h2"
    by (force simp: verify_display_command_in_events_def smoke_get_events_def GetEvents_def list_ex_iff)
  moreover have "read_png_pixels decompress png = Inr (w, ht, replicate (ht * w) color)"
    using read_written [OF assms(3) assms(2) [unfolded make_png_eq]] by simp
  ultimately show ?thesis
    using run fetched by (auto simp: verify_bitmap_retrievable_def)
qed

theorem smoke_test_passes_witness:
  "\<exists>r key h. smoke_setup (\<lambda>_. 5) (Inr ()) False
      \<lparr>instance_created = False, smoke_handlers = handlers_init smoke_servicer, server_started = False\<rparr> = (Inr (), r) \<and>
    submit_and_display_test_bitmap (toy_env\<lparr>zlib_compress := stored\<rparr>) late_answer (2, 1) (255, 0, 0)
      (smoke_handlers r) = Some (Inr key, h) \<and>
    verify_display_command_in_events key 0 h \<and> verify_bitmap_retrievable ''app'' key h"
proof -
  let ?r0 = "\<lparr>instance_created = False, smoke_handlers = handlers_init smoke_servicer, server_started = False\<rparr>"
  obtain r where r: "smoke_setup (\<lambda>_. 5) (Inr ()) False ?r0 = (Inr (), r)"
    by (simp add: smoke_setup_def Let_def)
  obtain png where "make_png stored (int 2) (int 1) (255, 0, 0) = Inr png"
    unfolding make_png_eq using small_png [of 2 1 "replicate (1 * 2) (255, 0, 0)"] by auto
  then show ?thesis
    using smoke_test_passes [OF r, of "toy_env\<lparr>zlib_compress := stored\<rparr>" 2 1 "(255, 0, 0)" png Some late_answer "''app''"] r
    by auto
qed

text \<open>
  With an APK configured the set-up always fails, after the instance was created and the
  server started: the functions it imports do not exist.
\<close>

theorem smoke_setup_with_apk_fails:
  "\<exists>r'. smoke_setup clock (Inr ()) True r = (Inl (OtherError ''ImportError''), r') \<and>
     instance_created r' \<and> server_started r'"
  by (simp add: smoke_setup_def Let_def)

end
