(* ===== verification/Watchdog.thy ===== *)
theory Watchdog
  imports Event_Store
begin

text \<open>
  \<^verbatim>\<open>supervisor/src/watchdog.py\<close>: for each registered agent the watchdog remembers the
  last pane content and when it last changed, and emits a \<open>WatchdogTimeout\<close> event when the
  content has not changed for the configured time.  A check cycle observes one reading of the
  monotonic clock, the pane of every agent (or the exception the capture raised), and the wall
  clock at each emission.
\<close>

section \<open>State and operations\<close>

record session_state =
  session_name :: string
  last_output :: "string option"
  last_activity_time :: seconds

record watchdog =
  timeout_seconds :: seconds
  check_interval :: seconds
  sessions :: "(string, session_state) dict"
  stop_event :: bool
  thread_alive :: "bool option"

record cycle =
  now :: seconds
  pane :: "string \<Rightarrow> string result"
  wall :: "string \<Rightarrow> seconds"

definition watchdog_init :: "seconds \<Rightarrow> seconds \<Rightarrow> watchdog" where
  "watchdog_init timeout interval =
     \<lparr>timeout_seconds = timeout, check_interval = interval, sessions = [], stop_event = False,
      thread_alive = None\<rparr>"

definition new_session_state :: "string \<Rightarrow> seconds \<Rightarrow> session_state" where
  "new_session_state name t = \<lparr>session_name = name, last_output = None, last_activity_time = t\<rparr>"

definition monitored_agents :: "watchdog \<Rightarrow> string list" where
  "monitored_agents w = keys (sessions w)"

definition is_running :: "watchdog \<Rightarrow> bool" where
  "is_running w \<longleftrightarrow> thread_alive w = Some True"

definition register_session :: "string \<Rightarrow> string \<Rightarrow> seconds \<Rightarrow> watchdog \<Rightarrow> watchdog" where
  "register_session agent_id name clock w =
     w\<lparr>sessions := dict_set agent_id (new_session_state name clock) (sessions w)\<rparr>"

definition unregister_session :: "string \<Rightarrow> watchdog \<Rightarrow> watchdog" where
  "unregister_session agent_id w = w\<lparr>sessions := dict_pop agent_id (sessions w)\<rparr>"

text \<open>The default reader of a pane, \<open>run\<close> being what tmux answers.\<close>

definition default_capture_pane :: "(string list \<Rightarrow> completed) \<Rightarrow> string \<Rightarrow> string result" where
  "default_capture_pane run name =
     (let r = run [''tmux'', ''capture-pane'', ''-p'', ''-t'', name]
      in if returncode r \<noteq> 0
         then Inl (RuntimeError (''Failed to capture pane for '' @ quote name @ '': '' @ stderr r))
         else Inr (stdout r))"

text \<open>One agent in one cycle: its new state and what is added to the event store.\<close>

definition check_session ::
  "seconds \<Rightarrow> cycle \<Rightarrow> string \<Rightarrow> session_state \<Rightarrow> session_state \<times> event list" where
  "check_session timeout c agent_id state =
     (case pane c agent_id of
        Inl _ \<Rightarrow> (state, [])
      | Inr current_output \<Rightarrow>
          if last_output state = None \<or> Some current_output \<noteq> last_output state
          then (state\<lparr>last_output := Some current_output, last_activity_time := now c\<rparr>, [])
          else let silent_seconds = now c - last_activity_time state
               in if silent_seconds \<ge> timeout
                  then (state\<lparr>last_activity_time := now c\<rparr>,
                        [\<lparr>timestamp_ms = to_ms (wall c agent_id),
                          payload = WatchdogTimeout agent_id (to_ms silent_seconds)\<rparr>])
                  else (state, []))"

definition check_sessions :: "cycle \<Rightarrow> watchdog \<times> event_store \<Rightarrow> watchdog \<times> event_store" where
  "check_sessions c = (\<lambda>(w, st).
     let checked = map (\<lambda>(a, s). (a, check_session (timeout_seconds w) c a s)) (sessions w)
     in (w\<lparr>sessions := map (\<lambda>(a, r). (a, fst r)) checked\<rparr>,
         fold add_event (concat (map (\<lambda>(a, r). snd r) checked)) st))"

definition start :: "watchdog \<Rightarrow> watchdog" where
  "start w = (if is_running w then w else w\<lparr>stop_event := False, thread_alive := Some True\<rparr>)"

definition stop :: "watchdog \<Rightarrow> watchdog" where
  "stop w = w\<lparr>stop_event := True, thread_alive := None\<rparr>"

text \<open>
  The background loop: \<open>stopped k\<close> is the stop event at the \<open>k\<close>-th test, \<open>cyc k\<close> what
  the \<open>k\<close>-th cycle observes.
\<close>

definition run_loop ::
  "(nat \<Rightarrow> bool) \<Rightarrow> (nat \<Rightarrow> cycle) \<Rightarrow> watchdog \<times> event_store \<Rightarrow> (watchdog \<times> event_store) option" where
  "run_loop stopped cyc =
     loop (\<lambda>k s. if stopped k then Inr s else Inl (check_sessions (cyc k) s)) 0"

section \<open>Cycles\<close>

definition run_checks :: "cycle list \<Rightarrow> watchdog \<times> event_store \<Rightarrow> watchdog \<times> event_store" where
  "run_checks cs = fold check_sessions cs"

lemma timeout_check [simp]: "timeout_seconds (fst (check_sessions c x)) = timeout_seconds (fst x)"
  by (simp add: check_sessions_def split_beta Let_def)

lemma keys_check [simp]: "keys (sessions (fst (check_sessions c x))) = keys (sessions (fst x))"
  by (induction "sessions (fst x)") (simp_all add: check_sessions_def split_beta Let_def comp_def)

lemma session_check:
  "dict_get (sessions (fst (check_sessions c x))) a =
     map_option (\<lambda>s. fst (check_session (timeout_seconds (fst x)) c a s))
       (dict_get (sessions (fst x)) a)"
proof -
  have "map_of (map (\<lambda>p. (fst p, fst (check_session T c (fst p) (snd p)))) d) a =
      map_option (\<lambda>s. fst (check_session T c a s)) (map_of d a)" for T d
    by (induction d) auto
  then show ?thesis by (simp add: check_sessions_def split_beta Let_def comp_def)
qed

text \<open>The events a cycle adds for an agent: those of its one session.\<close>

definition alarms :: "string \<Rightarrow> cycle \<Rightarrow> watchdog \<times> event_store \<Rightarrow> event list" where
  "alarms a c x = filter (\<lambda>e. \<exists>ms. payload e = WatchdogTimeout a ms)
     (drop (length (events (snd x))) (events (snd (check_sessions c x))))"

lemma alarms_eq:
  assumes "wf_dict (sessions (fst x))"
  shows "alarms a c x = (case dict_get (sessions (fst x)) a of None \<Rightarrow> []
    | Some s \<Rightarrow> snd (check_session (timeout_seconds (fst x)) c a s))"
proof -
  let ?T = "timeout_seconds (fst x)"
  have one: "filter (\<lambda>e. \<exists>ms. payload e = WatchdogTimeout a ms) (snd (check_session ?T c b s)) =
      (if b = a then snd (check_session ?T c b s) else [])" for b s
    by (auto simp: check_session_def Let_def split: sum.splits)
  have "filter (\<lambda>e. \<exists>ms. payload e = WatchdogTimeout a ms)
      (concat (map (\<lambda>p. snd (check_session ?T c (fst p) (snd p))) d)) =
      (case map_of d a of None \<Rightarrow> [] | Some s \<Rightarrow> snd (check_session ?T c a s))"
    if "wf_dict d" for d
    using that
  proof (induction d)
    case (Cons p d)
    then show ?case
      by (cases p) (auto simp: one map_of_eq_None_iff [symmetric] split: option.splits)
  qed simp
  from this [OF assms] show ?thesis
    by (simp add: alarms_def check_sessions_def split_beta Let_def comp_def
        store_sink.log_fold_add)
qed

text \<open>The state before the \<open>j\<close>-th of a list of cycles.\<close>

abbreviation before :: "cycle list \<Rightarrow> watchdog \<times> event_store \<Rightarrow> nat \<Rightarrow> watchdog \<times> event_store" where
  "before cs x j \<equiv> run_checks (take j cs) x"

lemma before_Suc: "j < length cs \<Longrightarrow> before cs x (Suc j) = check_sessions (cs ! j) (before cs x j)"
  by (simp add: run_checks_def take_Suc_conv_app_nth)

lemma timeout_before [simp]: "timeout_seconds (fst (run_checks cs x)) = timeout_seconds (fst x)"
  unfolding run_checks_def by (induction cs arbitrary: x) simp_all

lemma wf_before: "wf_dict (sessions (fst x)) \<Longrightarrow> wf_dict (sessions (fst (run_checks cs x)))"
  unfolding run_checks_def by (induction cs arbitrary: x) simp_all

section \<open>When alarms are raised\<close>

text \<open>
  From cycle \<open>i\<close> up to cycle \<open>j\<close> every capture of the agent's pane that succeeded showed
  \<open>out\<close>, and no alarm was raised strictly in between.
\<close>

definition quiet ::
  "cycle list \<Rightarrow> watchdog \<times> event_store \<Rightarrow> string \<Rightarrow> string \<Rightarrow> nat \<Rightarrow> nat \<Rightarrow> bool" where
  "quiet cs x a out i j \<longleftrightarrow> pane (cs ! i) a = Inr out \<and>
     (\<forall>k. i < k \<and> k < j \<longrightarrow>
        (isl (pane (cs ! k) a) \<or> pane (cs ! k) a = Inr out) \<and> alarms a (cs ! k) (before cs x k) = [])"

lemma quiet_start: "pane (cs ! i) a = Inr out \<Longrightarrow> quiet cs x a out i (Suc i)"
  by (auto simp: quiet_def)

lemma quiet_Suc:
  "quiet cs x a out i j \<Longrightarrow> isl (pane (cs ! j) a) \<or> pane (cs ! j) a = Inr out \<Longrightarrow>
   alarms a (cs ! j) (before cs x j) = [] \<Longrightarrow> quiet cs x a out i (Suc j)"
  by (auto simp: quiet_def less_Suc_eq)

text \<open>
  The invariant of a run from a fresh registration: the remembered output and time are those of
  an earlier cycle since which the agent has been quiet.
\<close>

definition tracks :: "cycle list \<Rightarrow> watchdog \<times> event_store \<Rightarrow> string \<Rightarrow> nat \<Rightarrow> session_state \<Rightarrow> bool" where
  "tracks cs x a j s \<longleftrightarrow>
     (last_output s = None \<and> (\<forall>k < j. isl (pane (cs ! k) a))) \<or>
     (\<exists>i < j. \<exists>out. last_output s = Some out \<and> last_activity_time s = now (cs ! i) \<and>
        quiet cs x a out i j)"

lemma tracks_keep:
  assumes "tracks cs x a j s" and "alarms a (cs ! j) (before cs x j) = []"
    and "isl (pane (cs ! j) a) \<or> (\<exists>cur. pane (cs ! j) a = Inr cur \<and> last_output s = Some cur)"
  shows "tracks cs x a (Suc j) s"
proof (cases "last_output s")
  case None
  with assms show ?thesis by (auto simp: tracks_def less_Suc_eq)
next
  case (Some out)
  with assms(1) obtain i where "i < j" "last_activity_time s = now (cs ! i)" "quiet cs x a out i j"
    by (auto simp: tracks_def)
  moreover from this have "quiet cs x a out i (Suc j)"
    using assms(2,3) Some by (intro quiet_Suc) auto
  ultimately show ?thesis using Some by (auto simp: tracks_def less_Suc_eq)
qed

lemma tracks_step:
  assumes x: "wf_dict (sessions (fst x))" and j: "j < length cs"
    and s: "dict_get (sessions (fst (before cs x j))) a = Some s" and inv: "tracks cs x a j s"
  shows "tracks cs x a (Suc j) (fst (check_session (timeout_seconds (fst x)) (cs ! j) a s))"
proof (cases "pane (cs ! j) a")
  case (Inl e)
  then have same: "check_session (timeout_seconds (fst x)) (cs ! j) a s = (s, [])"
    by (simp add: check_session_def)
  then have "alarms a (cs ! j) (before cs x j) = []"
    using s by (simp add: alarms_eq wf_before x)
  from tracks_keep [OF inv this] show ?thesis by (simp add: same Inl)
next
  case (Inr cur)
  let ?T = "timeout_seconds (fst x)"
  let ?r = "check_session ?T (cs ! j) a s"
  have fresh: "quiet cs x a cur j (Suc j)" by (rule quiet_start [where cs = cs, OF Inr])
  show ?thesis
  proof (cases "last_output s = Some cur")
    case False
    then have "fst ?r = s\<lparr>last_output := Some cur, last_activity_time := now (cs ! j)\<rparr>"
      using Inr by (auto simp: check_session_def)
    then show ?thesis using fresh by (auto simp: tracks_def)
  next
    case True
    show ?thesis
    proof (cases "snd ?r = []")
      case False
      then have "fst ?r = s\<lparr>last_activity_time := now (cs ! j)\<rparr>"
        using Inr True by (auto simp: check_session_def Let_def split: if_splits)
      then show ?thesis using fresh True by (auto simp: tracks_def)
    next
      case none: True
      then have same: "fst ?r = s"
        using Inr True by (auto simp: check_session_def Let_def split: if_splits)
      have "alarms a (cs ! j) (before cs x j) = []"
        using s none by (simp add: alarms_eq wf_before x)
      from tracks_keep [OF inv this] show ?thesis by (simp add: same Inr True)
    qed
  qed
qed

lemma tracks_run:
  assumes x: "wf_dict (sessions (fst x))" and s0: "dict_get (sessions (fst x)) a = Some s0"
    and fresh: "last_output s0 = None"
  shows "j \<le> length cs \<Longrightarrow> \<exists>s. dict_get (sessions (fst (before cs x j))) a = Some s \<and> tracks cs x a j s"
proof (induction j)
  case 0
  then show ?case using s0 fresh by (simp add: run_checks_def tracks_def)
next
  case (Suc j)
  then obtain s where s: "dict_get (sessions (fst (before cs x j))) a = Some s" "tracks cs x a j s"
    by auto
  from Suc.prems have j: "j < length cs" by simp
  show ?case
    using tracks_step [OF x j s] s(1) by (simp add: before_Suc [OF j] session_check)
qed

text \<open>
  C2.  No false alarm.  If a cycle raises an alarm for an agent that was registered afresh before
  the run, then some earlier cycle, at least the timeout ago by the watchdog's clock, captured the
  very output seen now, every successful capture since showed that output, no other alarm for
  the agent was raised in between, and the event reports exactly the time since that cycle.
\<close>

theorem alarm_means_silence:
  assumes "wf_dict (sessions (fst x))" and "dict_get (sessions (fst x)) a = Some s0"
    and "last_output s0 = None" and "j < length cs"
    and "e \<in> set (alarms a (cs ! j) (before cs x j))"
  shows "\<exists>i < j. \<exists>out. quiet cs x a out i j \<and> pane (cs ! j) a = Inr out \<and>
     now (cs ! j) - now (cs ! i) \<ge> timeout_seconds (fst x) \<and>
     payload e = WatchdogTimeout a (to_ms (now (cs ! j) - now (cs ! i)))"
proof -
  from tracks_run [OF assms(1-3), of j cs] assms(4) obtain s
    where s: "dict_get (sessions (fst (before cs x j))) a = Some s" and inv: "tracks cs x a j s"
    by auto
  from s assms(5)
  have "e \<in> set (snd (check_session (timeout_seconds (fst x)) (cs ! j) a s))"
    by (simp add: alarms_eq wf_before assms(1))
  then obtain out where out: "pane (cs ! j) a = Inr out" "last_output s = Some out"
    and late: "now (cs ! j) - last_activity_time s \<ge> timeout_seconds (fst x)"
    and e: "payload e = WatchdogTimeout a (to_ms (now (cs ! j) - last_activity_time s))"
    by (auto simp: check_session_def Let_def split: sum.splits if_splits)
  from inv out(2) obtain i where "i < j" "last_activity_time s = now (cs ! i)" "quiet cs x a out i j"
    by (auto simp: tracks_def)
  with out(1) late e show ?thesis by metis
qed

definition silent_cycle :: "seconds \<Rightarrow> cycle" where
  "silent_cycle t = \<lparr>now = t, pane = (\<lambda>_. Inr ''$''), wall = (\<lambda>_. t + 100)\<rparr>"

definition silent_run :: "cycle list" where
  "silent_run = [silent_cycle 0, silent_cycle 40, silent_cycle 70]"

definition sample_watchdog :: "watchdog \<times> event_store" where
  "sample_watchdog =
     (register_session ''lead'' ''vanpilot-lead'' 0 (watchdog_init 60 5), event_store_init)"

lemmas sample_watchdog_defs = sample_watchdog_def silent_run_def silent_cycle_def
  register_session_def watchdog_init_def new_session_state_def

lemma sample_alarm:
  "alarms ''lead'' (silent_run ! 2) (before silent_run sample_watchdog 2) =
     [\<lparr>timestamp_ms = 170000, payload = WatchdogTimeout ''lead'' 70000\<rparr>]"
  by (simp add: sample_watchdog_defs alarms_eq wf_before run_checks_def check_sessions_def
      check_session_def to_ms_def py_int_def)

theorem alarm_means_silence_witness:
  "\<exists>i < 2. \<exists>out. quiet silent_run sample_watchdog ''lead'' out i 2 \<and>
     now (silent_run ! 2) - now (silent_run ! i) \<ge> 60"
proof -
  have "\<exists>i < 2. \<exists>out. quiet silent_run sample_watchdog ''lead'' out i 2 \<and>
      pane (silent_run ! 2) ''lead'' = Inr out \<and>
      now (silent_run ! 2) - now (silent_run ! i) \<ge> timeout_seconds (fst sample_watchdog) \<and>
      payload \<lparr>timestamp_ms = 170000, payload = WatchdogTimeout ''lead'' 70000\<rparr> =
        WatchdogTimeout ''lead'' (to_ms (now (silent_run ! 2) - now (silent_run ! i)))"
    by (rule alarm_means_silence [where ?s0.0 = "new_session_state ''vanpilot-lead'' 0"])
      (simp_all add: sample_alarm, simp_all add: sample_watchdog_defs)
  then show ?thesis by (auto simp: sample_watchdog_def register_session_def watchdog_init_def)
qed

text \<open>
  C26.  Every silence is reported.  If the watchdog starts afresh on an agent, every capture from
  cycle \<open>i\<close> to cycle \<open>j\<close> succeeds with the same output and the clock advances by at least the
  timeout between them, then one of the cycles after \<open>i\<close>, up to \<open>j\<close>, raises an alarm.
\<close>

theorem silence_raises_alarm:
  assumes "wf_dict (sessions (fst x))" and "dict_get (sessions (fst x)) a = Some s0"
    and "last_output s0 = None" and "i < j" and "j < length cs"
    and "\<And>k. i \<le> k \<Longrightarrow> k \<le> j \<Longrightarrow> pane (cs ! k) a = Inr out"
    and "\<And>k. k \<le> i \<Longrightarrow> now (cs ! k) \<le> now (cs ! i)"
    and "now (cs ! j) - now (cs ! i) \<ge> timeout_seconds (fst x)"
  shows "\<exists>k. i < k \<and> k \<le> j \<and> alarms a (cs ! k) (before cs x k) \<noteq> []"
proof (rule ccontr)
  assume "\<not> ?thesis"
  then have none: "alarms a (cs ! k) (before cs x k) = []" if "i < k" "k \<le> j" for k
    using that by blast
  have "\<exists>s. dict_get (sessions (fst (before cs x k))) a = Some s \<and> last_output s = Some out \<and>
      last_activity_time s \<le> now (cs ! i)" if "i < k" "k \<le> j" for k
    using that
  proof (induction k)
    case (Suc k)
    then have k: "k < length cs" using assms(5) by simp
    show ?case
    proof (cases "k = i")
      case True
      from tracks_run [OF assms(1-3), of i cs] assms(4,5) obtain s
        where s: "dict_get (sessions (fst (before cs x i))) a = Some s" "tracks cs x a i s"
        by auto
      have "last_activity_time s \<le> now (cs ! i)" if "last_output s \<noteq> None"
        using s(2) that assms(7) by (auto simp: tracks_def)
      then show ?thesis
        using s(1) assms(4) assms(6) [of i] True before_Suc [OF k, of x]
        by (auto simp: session_check check_session_def Let_def)
    next
      case False
      with Suc obtain s where s: "dict_get (sessions (fst (before cs x k))) a = Some s"
          "last_output s = Some out" "last_activity_time s \<le> now (cs ! i)" by auto
      from False Suc.prems have k': "i < k" "k \<le> j" by auto
      from none [OF k'] s(1)
      have "snd (check_session (timeout_seconds (fst x)) (cs ! k) a s) = []"
        by (simp add: alarms_eq wf_before assms(1))
      then have "fst (check_session (timeout_seconds (fst x)) (cs ! k) a s) = s"
        using s(2) assms(6) [of k] k'
        by (auto simp: check_session_def Let_def split: if_splits)
      with s show ?thesis by (simp add: before_Suc [OF k] session_check)
    qed
  qed simp
  from this [of j] assms(4) obtain s where s: "dict_get (sessions (fst (before cs x j))) a = Some s"
      "last_output s = Some out" "last_activity_time s \<le> now (cs ! i)" by auto
  have "now (cs ! j) - last_activity_time s \<ge> timeout_seconds (fst x)"
    using s(3) assms(8) by linarith
  then have "alarms a (cs ! j) (before cs x j) \<noteq> []"
    using s(1,2) assms(4) assms(6) [of j]
    by (simp add: alarms_eq wf_before assms(1) check_session_def)
  with none [of j] assms(4) show False by simp
qed

theorem silence_raises_alarm_witness:
  "\<exists>k. 0 < k \<and> k \<le> 2 \<and> alarms ''lead'' (silent_run ! k) (before silent_run sample_watchdog k) \<noteq> []"
proof (rule silence_raises_alarm [where out = "''$''" and ?s0.0 = "new_session_state ''vanpilot-lead'' 0"])
  fix k :: nat
  assume "k \<le> 2"
  then have "k = 0 \<or> k = 1 \<or> k = 2" by auto
  then show "pane (silent_run ! k) ''lead'' = Inr ''$''"
    by (auto simp: silent_run_def silent_cycle_def)
qed (simp_all add: sample_watchdog_defs)

end
