(* ===== verification/Log_Tailer.thy ===== *)
theory Log_Tailer
  imports Event_Store Json
begin

text \<open>
  \<^verbatim>\<open>supervisor/src/log_tailer.py\<close>: turns the assistant messages that Claude Code
  appends to its JSONL logs into \<open>TextMessage\<close> events.  The JSON parser is a parameter
  \<open>loads\<close> (\<open>None\<close> for a \<open>JSONDecodeError\<close>); what a poll sees of a file is a size and,
  separately, the content read; both may raise.  A file is a list of characters of one byte each,
  so that the text offsets of \<open>seek\<close> and \<open>tell\<close> count characters.
\<close>

section \<open>Parsing one line\<close>

text \<open>The texts of the blocks of a content list, in order, empty ones left out.\<close>

fun text_parts :: "json list \<Rightarrow> json list" where
  "text_parts [] = []"
| "text_parts (JObj block # blocks) =
     (if map_of block ''type'' = Some (JStr ''text'')
      then let text = (case map_of block ''text'' of None \<Rightarrow> JStr [] | Some t \<Rightarrow> t)
           in (if truthy text then [text] else []) @ text_parts blocks
      else text_parts blocks)"
| "text_parts (_ # blocks) = text_parts blocks"

text \<open>\<open>" ".join(parts)\<close> raises \<open>TypeError\<close> unless all parts are strings.\<close>

fun join_parts :: "json list \<Rightarrow> string list result" where
  "join_parts [] = Inr []"
| "join_parts (JStr s # ps) = (case join_parts ps of Inl e \<Rightarrow> Inl e | Inr ss \<Rightarrow> Inr (s # ss))"
| "join_parts (_ # ps) = Inl TypeError"

definition parse_log_entry :: "(string \<Rightarrow> json option) \<Rightarrow> string \<Rightarrow> string option result" where
  "parse_log_entry loads line =
     (let line = strip line
      in if line = [] then Inr None
         else case loads line of
             None \<Rightarrow> Inr None
           | Some (JObj entry) \<Rightarrow>
               if map_of entry ''type'' \<noteq> Some (JStr ''assistant'') then Inr None
               else (case map_of entry ''message'' of
                   Some (JObj message) \<Rightarrow>
                     (case map_of message ''content'' of
                        Some (JStr s) \<Rightarrow> Inr (if s \<noteq> [] then Some s else None)
                      | Some (JList blocks) \<Rightarrow>
                          let parts = text_parts blocks
                          in if parts = [] then Inr None
                             else (case join_parts parts of Inl e \<Rightarrow> Inl e
                                   | Inr ss \<Rightarrow> Inr (Some (join '' '' ss)))
                      | _ \<Rightarrow> Inr None)
                 | _ \<Rightarrow> Inr None)
           | Some _ \<Rightarrow> Inl AttributeError)"

section \<open>Tailing files\<close>

record tailer =
  offsets :: "(string, nat) dict"

definition tailer_init :: tailer where
  "tailer_init = \<lparr>offsets = []\<rparr>"

record file_view =
  file_size :: "nat result"
  file_text :: "string result"

definition agent_of :: "string \<Rightarrow> string" where
  "agent_of path = splitext_root (basename path)"

text \<open>
  The loop over the new lines: an event for each message, until a line raises.  \<open>time_fn k\<close>
  is the clock at the event number \<open>k\<close> of the poll.
\<close>

fun emit_lines ::
  "(string \<Rightarrow> json option) \<Rightarrow> string \<Rightarrow> (nat \<Rightarrow> int) \<Rightarrow> nat \<Rightarrow> string list \<Rightarrow> event_store \<Rightarrow>
   exn option \<times> event_store" where
  "emit_lines loads agent_id time_fn k [] st = (None, st)"
| "emit_lines loads agent_id time_fn k (line # lines) st =
     (case parse_log_entry loads line of
        Inl e \<Rightarrow> (Some e, st)
      | Inr None \<Rightarrow> emit_lines loads agent_id time_fn k lines st
      | Inr (Some text) \<Rightarrow>
          emit_lines loads agent_id time_fn (Suc k) lines
            (add_event \<lparr>timestamp_ms = time_fn k, payload = TextMessage agent_id text\<rparr> st))"

definition tail_file ::
  "(string \<Rightarrow> json option) \<Rightarrow> (nat \<Rightarrow> int) \<Rightarrow> string \<Rightarrow> file_view \<Rightarrow> tailer \<times> event_store \<Rightarrow>
   exn option \<times> tailer \<times> event_store" where
  "tail_file loads time_fn path view = (\<lambda>(t, st).
     let agent_id = agent_of path;
         offset = (case dict_get (offsets t) path of None \<Rightarrow> 0 | Some n \<Rightarrow> n)
     in case file_size view of
          Inl e \<Rightarrow> (if is_os_error e then None else Some e, t, st)
        | Inr sz \<Rightarrow>
            let offset = (if sz < offset then 0 else offset)
            in if sz = offset then (None, t, st)
               else case file_text view of
                   Inl e \<Rightarrow> (if is_os_error e then None else Some e, t, st)
                 | Inr text \<Rightarrow>
                     let new_data = drop offset text;
                         new_offset = max offset (length text);
                         t' = t\<lparr>offsets := dict_set path new_offset (offsets t)\<rparr>;
                         (raised, st') =
                           emit_lines loads agent_id time_fn 0 (splitlines new_data) st
                     in (raised, t', st'))"

text \<open>One scan over the files the glob found; an exception ends the scan (and the thread).\<close>

fun poll_once ::
  "(string \<Rightarrow> json option) \<Rightarrow> (nat \<Rightarrow> int) \<Rightarrow> (string \<times> file_view) list \<Rightarrow> tailer \<times> event_store \<Rightarrow>
   exn option \<times> tailer \<times> event_store" where
  "poll_once loads time_fn [] x = (None, x)"
| "poll_once loads time_fn ((path, view) # files) x =
     (case tail_file loads time_fn path view x of
        (None, x') \<Rightarrow> poll_once loads time_fn files x'
      | (Some e, x') \<Rightarrow> (Some e, x'))"

text \<open>The background loop over the scans until it is stopped or a scan raises.\<close>

fun run_tailer ::
  "(string \<Rightarrow> json option) \<Rightarrow> ((nat \<Rightarrow> int) \<times> (string \<times> file_view) list) list \<Rightarrow>
   tailer \<times> event_store \<Rightarrow> exn option \<times> tailer \<times> event_store" where
  "run_tailer loads [] x = (None, x)"
| "run_tailer loads ((time_fn, files) # scans) x =
     (case poll_once loads time_fn files x of
        (None, x') \<Rightarrow> run_tailer loads scans x'
      | (Some e, x') \<Rightarrow> (Some e, x'))"

text \<open>
  \<open>start\<close> and \<open>stop\<close> of the thread.  Unlike the watchdog's, \<open>start\<close> does not
  ask whether a thread is running: every call starts another one, and \<open>stop\<close> joins the last.
\<close>

record tail_worker =
  tail_stop_event :: bool
  tails_started :: nat
  tail_thread :: "nat option"

definition tail_start :: "tail_worker \<Rightarrow> tail_worker" where
  "tail_start w = w\<lparr>tail_stop_event := False, tails_started := Suc (tails_started w), tail_thread := Some (tails_started w)\<rparr>"

definition tail_stop :: "tail_worker \<Rightarrow> tail_worker" where
  "tail_stop w = w\<lparr>tail_stop_event := True, tail_thread := None\<rparr>"

section \<open>What a line means\<close>

text \<open>
  The messages a list of lines carries: the specification the incremental reader is compared to.
\<close>

definition messages :: "(string \<Rightarrow> json option) \<Rightarrow> string list \<Rightarrow> string list" where
  "messages loads lines =
     concat (map (\<lambda>l. case parse_log_entry loads l of Inr (Some text) \<Rightarrow> [text] | _ \<Rightarrow> []) lines)"

definition clean :: "(string \<Rightarrow> json option) \<Rightarrow> string list \<Rightarrow> bool" where
  "clean loads lines \<longleftrightarrow> (\<forall>l \<in> set lines. \<not> isl (parse_log_entry loads l))"

text \<open>The lines before the first on which the parser raises, and what it raises there.\<close>

fun before_error :: "(string \<Rightarrow> json option) \<Rightarrow> string list \<Rightarrow> string list" where
  "before_error loads [] = []"
| "before_error loads (l # lines) = (case parse_log_entry loads l of Inl e \<Rightarrow> [] | Inr _ \<Rightarrow> l # before_error loads lines)"

fun first_error :: "(string \<Rightarrow> json option) \<Rightarrow> string list \<Rightarrow> exn option" where
  "first_error loads [] = None"
| "first_error loads (l # lines) = (case parse_log_entry loads l of Inl e \<Rightarrow> Some e | Inr _ \<Rightarrow> first_error loads lines)"

lemma first_error_append:
  "first_error loads (xs @ ys) = (case first_error loads xs of None \<Rightarrow> first_error loads ys | Some e \<Rightarrow> Some e)"
  by (induction xs) (auto split: sum.split)

lemma before_error_append:
  "before_error loads (xs @ ys) = before_error loads xs @ (if first_error loads xs = None then before_error loads ys else [])"
  by (induction xs) (auto split: sum.split)

lemma clean_no_error: "clean loads lines \<Longrightarrow> first_error loads lines = None \<and> before_error loads lines = lines"
  by (induction lines) (auto simp: clean_def split: sum.split)

lemma messages_append: "messages loads (xs @ ys) = messages loads xs @ messages loads ys"
  by (simp add: messages_def)

lemma clean_append: "clean loads (xs @ ys) \<longleftrightarrow> clean loads xs \<and> clean loads ys"
  by (auto simp: clean_def)

text \<open>The (agent, text) pairs of the text messages in the log, in order.\<close>

fun said :: "event list \<Rightarrow> (string \<times> string) list" where
  "said [] = []"
| "said (e # es) =
     (case payload e of TextMessage a t \<Rightarrow> (a, t) # said es | _ \<Rightarrow> said es)"

lemma said_append: "said (es @ fs) = said es @ said fs"
  by (induction es) (auto split: payload.splits)

lemma emit_lines_run:
  "fst (emit_lines loads agent tm k lines st) = first_error loads lines \<and>
   said (events (snd (emit_lines loads agent tm k lines st))) =
     said (events st) @ map (Pair agent) (messages loads (before_error loads lines))"
proof (induction lines arbitrary: k st)
  case (Cons l lines)
  then show ?case
    by (cases "parse_log_entry loads l") (auto simp: messages_def said_append split: option.splits)
qed (simp add: messages_def)

lemma join_parts_Inl_iff: "isl (join_parts ps) \<longleftrightarrow> (\<exists>p \<in> set ps. \<forall>s. p \<noteq> JStr s)"
  by (induction ps rule: join_parts.induct) (auto split: sum.splits)

lemma join_parts_Inl: "join_parts ps = Inl e \<Longrightarrow> e = TypeError"
  by (induction ps rule: join_parts.induct) (auto split: sum.splits)

lemma join_parts_raises_iff:
  "join_parts ps = Inl e \<longleftrightarrow> e = TypeError \<and> (\<exists>p \<in> set ps. \<forall>s. p \<noteq> JStr s)"
  using join_parts_Inl_iff [of ps] join_parts_Inl [of ps] by (cases "join_parts ps") auto

lemma set_text_parts:
  "p \<in> set (text_parts blocks) \<longleftrightarrow>
     truthy p \<and> (\<exists>block. JObj block \<in> set blocks \<and>
       map_of block ''type'' = Some (JStr ''text'') \<and> map_of block ''text'' = Some p)"
  by (induction blocks rule: text_parts.induct) (auto simp: Let_def split: option.splits)

text \<open>
  \<open>parse_log_entry\<close> raises on exactly two kinds of lines: a line whose JSON value is not
  an object (\<open>entry.get\<close> does not exist), and an assistant message one of whose text blocks
  has a true value that is not a string.  Every other line gives a text or nothing.
\<close>

theorem parse_log_entry_raises_iff:
  "parse_log_entry loads line = Inl e \<longleftrightarrow>
     strip line \<noteq> [] \<and>
     (e = AttributeError \<and> (\<exists>v. loads (strip line) = Some v \<and> (\<nexists>entry. v = JObj entry)) \<or>
      e = TypeError \<and> (\<exists>entry message blocks block text.
        loads (strip line) = Some (JObj entry) \<and>
        map_of entry ''type'' = Some (JStr ''assistant'') \<and>
        map_of entry ''message'' = Some (JObj message) \<and>
        map_of message ''content'' = Some (JList blocks) \<and>
        JObj block \<in> set blocks \<and> map_of block ''type'' = Some (JStr ''text'') \<and>
        map_of block ''text'' = Some text \<and> truthy text \<and> (\<nexists>s. text = JStr s)))"
proof (cases "loads (strip line)")
  case None
  then show ?thesis by (auto simp: parse_log_entry_def Let_def)
next
  case (Some v)
  then show ?thesis
  proof (cases "\<exists>entry message blocks. v = JObj entry \<and>
      map_of entry ''type'' = Some (JStr ''assistant'') \<and>
      map_of entry ''message'' = Some (JObj message) \<and> map_of message ''content'' = Some (JList blocks)")
    case True
    then obtain entry message blocks where v: "v = JObj entry"
      "map_of entry ''type'' = Some (JStr ''assistant'')"
      "map_of entry ''message'' = Some (JObj message)" "map_of message ''content'' = Some (JList blocks)"
      by blast
    have "parse_log_entry loads line = Inl e \<longleftrightarrow>
        strip line \<noteq> [] \<and> join_parts (text_parts blocks) = Inl e"
      using Some v by (auto simp: parse_log_entry_def Let_def split: sum.splits)
    moreover have "(\<exists>p \<in> set (text_parts blocks). \<forall>s. p \<noteq> JStr s) \<longleftrightarrow>
        (\<exists>block text. JObj block \<in> set blocks \<and> map_of block ''type'' = Some (JStr ''text'') \<and>
          map_of block ''text'' = Some text \<and> truthy text \<and> (\<nexists>s. text = JStr s))"
      by (auto simp: Bex_def set_text_parts)
    ultimately show ?thesis using Some v by (simp add: join_parts_raises_iff)
  next
    case False
    then show ?thesis using Some
      by (cases v) (auto simp: parse_log_entry_def Let_def split: option.splits json.splits)
  qed
qed

section \<open>Reading a growing file\<close>

text \<open>What one scan does to a file of which \<open>offset\<close> characters were read before.\<close>

definition offset_of :: "tailer \<Rightarrow> string \<Rightarrow> nat" where
  "offset_of t path = (case dict_get (offsets t) path of None \<Rightarrow> 0 | Some n \<Rightarrow> n)"

abbreviation stable_view :: "string \<Rightarrow> file_view" where
  "stable_view text \<equiv> \<lparr>file_size = Inr (length text), file_text = Inr text\<rparr>"

lemma offset_of_set [simp]:
  "offset_of (t\<lparr>offsets := dict_set path n (offsets t)\<rparr>) q = (if q = path then n else offset_of t q)"
  by (simp add: offset_of_def dict_simps)

text \<open>What is left to read: everything when the file is shorter than what was read.\<close>

definition unread :: "tailer \<Rightarrow> string \<Rightarrow> string \<Rightarrow> string" where
  "unread t path text = (if length text < offset_of t path then text else drop (offset_of t path) text)"

lemma tail_file_stable:
  assumes "text \<noteq> [] \<or> offset_of t path = 0"
  defines "lines \<equiv> splitlines (unread t path text)"
  obtains t' st' where "tail_file loads tm path (stable_view text) (t, st) = (first_error loads lines, t', st')"
    "offset_of t' path = length text" "\<forall>q. q \<noteq> path \<longrightarrow> offset_of t' q = offset_of t q"
    "said (events st') = said (events st) @ map (Pair (agent_of path)) (messages loads (before_error loads lines))"
proof (cases "length text = (if length text < offset_of t path then 0 else offset_of t path)")
  case True
  then have "unread t path text = []" "length text = offset_of t path"
    using assms(1) by (auto simp: unread_def split: if_splits)
  moreover have "tail_file loads tm path (stable_view text) (t, st) = (None, t, st)"
    using True by (simp add: tail_file_def Let_def offset_of_def [symmetric])
  ultimately show thesis by (intro that [of t st]) (simp_all add: messages_def lines_def)
next
  case False
  let ?r = "emit_lines loads (agent_of path) tm 0 lines st"
  have "tail_file loads tm path (stable_view text) (t, st) =
      (fst ?r, t\<lparr>offsets := dict_set path (length text) (offsets t)\<rparr>, snd ?r)"
    using False
    by (auto simp: tail_file_def Let_def offset_of_def [symmetric] unread_def lines_def case_prod_beta max_def)
  with emit_lines_run [of loads "agent_of path" tm 0 lines st] show thesis
    by (intro that) auto
qed

text \<open>The scans of a file that grows by the chunks of a list, whatever the clocks.\<close>

fun growing ::
  "string \<Rightarrow> (nat \<Rightarrow> nat \<Rightarrow> int) \<Rightarrow> string \<Rightarrow> string list \<Rightarrow>
   ((nat \<Rightarrow> int) \<times> (string \<times> file_view) list) list" where
  "growing path tms text [] = []"
| "growing path tms text (c # cs) =
     (tms 0, [(path, stable_view (text @ c))]) # growing path (\<lambda>k. tms (Suc k)) (text @ c) cs"

lemma growing_scans:
  assumes "\<forall>c \<in> set cs. c = [] \<or> last c = newline" "offset_of t path = length seen"
  shows "fst (run_tailer loads (growing path tms seen cs) (t, st)) = first_error loads (splitlines (concat cs)) \<and>
    said (events (snd (snd (run_tailer loads (growing path tms seen cs) (t, st))))) =
      said (events st) @ map (Pair (agent_of path)) (messages loads (before_error loads (splitlines (concat cs))))"
  using assms
proof (induction cs arbitrary: tms seen t st)
  case Nil
  then show ?case by (simp add: messages_def)
next
  case (Cons c cs)
  have split: "splitlines (concat (c # cs)) = splitlines c @ splitlines (concat cs)"
    using Cons.prems(1) by (simp add: splitlines_append)
  have unread: "unread t path (seen @ c) = c"
    using Cons.prems(2) by (simp add: unread_def)
  have "seen @ c \<noteq> [] \<or> offset_of t path = 0"
    using Cons.prems(2) by auto
  then obtain t' st' where step:
    "tail_file loads (tms 0) path (stable_view (seen @ c)) (t, st) = (first_error loads (splitlines c), t', st')"
    "offset_of t' path = length (seen @ c)"
    "said (events st') = said (events st) @ map (Pair (agent_of path)) (messages loads (before_error loads (splitlines c)))"
    by (rule tail_file_stable) (auto simp: unread)
  show ?case
  proof (cases "first_error loads (splitlines c)")
    case None
    with Cons.IH [of t' "seen @ c" "\<lambda>k. tms (Suc k)" st'] Cons.prems(1) step show ?thesis
      unfolding split by (simp add: messages_append first_error_append before_error_append)
  next
    case (Some e)
    with step show ?thesis
      unfolding split by (simp add: first_error_append before_error_append)
  qed
qed

text \<open>
  C29.  Every message of a log is emitted exactly once and in order, whatever the chunks in
  which it is seen to grow, as long as every scan sees whole lines: the events of the scans are the
  messages of the file read as one, up to the first line on which the parser raises.  If there is no such line,
  that is all of them, and the thread goes on; at such a line the thread ends with that exception.
\<close>

theorem tailing_exactly_once:
  assumes "\<forall>c \<in> set chunks. c = [] \<or> last c = newline"
  shows "\<exists>t st'. run_tailer loads (growing path tms [] chunks) (tailer_init, st) =
      (first_error loads (splitlines (concat chunks)), t, st') \<and>
    said (events st') = said (events st) @
      map (Pair (agent_of path)) (messages loads (before_error loads (splitlines (concat chunks)))) \<and>
    (first_error loads (splitlines (concat chunks)) = None \<longleftrightarrow>
       before_error loads (splitlines (concat chunks)) = splitlines (concat chunks))"
proof -
  let ?lines = "splitlines (concat chunks)"
  have "offset_of tailer_init path = length []" by (simp add: offset_of_def tailer_init_def)
  from growing_scans [OF assms this]
  have "\<exists>t st'. run_tailer loads (growing path tms [] chunks) (tailer_init, st) = (first_error loads ?lines, t, st') \<and>
    said (events st') = said (events st) @ map (Pair (agent_of path)) (messages loads (before_error loads ?lines))"
    by (metis prod.collapse)
  moreover have "first_error loads ls = None \<longleftrightarrow> before_error loads ls = ls" for ls
    by (induction ls) (auto split: sum.split)
  ultimately show ?thesis by simp
qed

text \<open>A one-word JSON decoder for the concrete inputs below: \<open>A\<close> stands for an assistant message.\<close>

definition said_line :: "string \<Rightarrow> json" where
  "said_line s = JObj [(''type'', JStr ''assistant''), (''message'', JObj [(''content'', JStr s)])]"

definition toy_loads :: "string \<Rightarrow> json option" where
  "toy_loads s = (case s of
     [] \<Rightarrow> None
   | c # cs \<Rightarrow> if c = CHR ''A'' \<and> cs \<noteq> [] \<and> last cs = CHR ''Z'' then Some (said_line (butlast cs))
       else if c = CHR ''5'' then Some (JInt 5) else None)"

lemma said_line_parses:
  "strip line \<noteq> [] \<Longrightarrow> loads (strip line) = Some (said_line s) \<Longrightarrow> s \<noteq> [] \<Longrightarrow>
   parse_log_entry loads line = Inr (Some s)"
  by (simp add: parse_log_entry_def said_line_def)

theorem tailing_exactly_once_witness:
  "\<exists>t st'. run_tailer toy_loads
     (growing ''/l/a.jsonl'' (\<lambda>_ _. 7) [] [''AhiZ'' @ [newline], [], ''x'' @ [newline] @ ''AyoZ'' @ [newline]])
     (tailer_init, \<lparr>events = []\<rparr>) = (None, t, st') \<and>
   said (events st') = [(''a'', ''hi''), (''a'', ''yo'')]"
proof -
  let ?cs = "[''AhiZ'' @ [newline], [], ''x'' @ [newline] @ ''AyoZ'' @ [newline]]"
  have lines: "splitlines (concat ?cs) = [''AhiZ'', ''x'', ''AyoZ'']"
    by code_simp
  have parses: "map (parse_log_entry toy_loads) [''AhiZ'', ''x'', ''AyoZ''] =
      [Inr (Some ''hi''), Inr None, Inr (Some ''yo'')]"
    by code_simp
  have "first_error toy_loads (splitlines (concat ?cs)) = None" "before_error toy_loads (splitlines (concat ?cs)) = splitlines (concat ?cs)"
    unfolding lines using parses by simp_all
  moreover have "messages toy_loads (splitlines (concat ?cs)) = [''hi'', ''yo'']"
    unfolding lines using parses by (simp add: messages_def)
  moreover have "agent_of ''/l/a.jsonl'' = ''a''" by code_simp
  moreover have "\<forall>c \<in> set ?cs. c = [] \<or> last c = newline" by simp
  ultimately show ?thesis
    using tailing_exactly_once [of ?cs toy_loads "''/l/a.jsonl''" "\<lambda>_ _. 7" "\<lparr>events = []\<rparr>"]
    by simp
qed

text \<open>
   A line that a scan sees only in part is lost: if neither half is a message of its
  own, two scans that see the file before and after the rest of the line arrives emit nothing,
  although the line is a message and the file read as one gives it.
\<close>

theorem split_line_is_lost:
  assumes "\<forall>c \<in> set (a @ b). \<not> is_line_end c" "a \<noteq> []"
    and "parse_log_entry loads a = Inr None" "parse_log_entry loads b = Inr None"
    and "parse_log_entry loads (a @ b) = Inr (Some s)"
  shows "(\<exists>t. run_tailer loads (growing path tms [] [a, b @ [newline]]) (tailer_init, st) = (None, t, st))
    \<and> (\<exists>t st'. run_tailer loads (growing path tms [] [a @ b @ [newline]]) (tailer_init, st) = (None, t, st')
         \<and> said (events st') = said (events st) @ [(agent_of path, s)])"
proof -
  have lines: "splitlines a = [a]" "splitlines (b @ [newline]) = [b]"
    "splitlines (a @ b @ [newline]) = [a @ b]"
    using assms(1,2) splitlines_line [of "a @ b" "[]"] splitlines_line [of b "[]"]
    by (simp_all add: splitlines_no_end)
  have "run_tailer loads (growing path tms [] [a, b @ [newline]]) (tailer_init, st) =
      (None, \<lparr>offsets = dict_set path (length (a @ b @ [newline])) (dict_set path (length a) [])\<rparr>, st)"
    using assms(2-4) lines by (simp add: tail_file_def tailer_init_def dict_simps max_def)
  moreover have "offset_of tailer_init path = length []"
    by (simp add: offset_of_def tailer_init_def)
  then have "fst (run_tailer loads (growing path tms [] [a @ b @ [newline]]) (tailer_init, st)) = None \<and>
    said (events (snd (snd (run_tailer loads (growing path tms [] [a @ b @ [newline]]) (tailer_init, st))))) =
      said (events st) @ [(agent_of path, s)]"
    using growing_scans [of "[a @ b @ [newline]]" tailer_init path "[]" loads tms st] assms(5) lines
    by (simp add: messages_def)
  then have "\<exists>t st'. run_tailer loads (growing path tms [] [a @ b @ [newline]]) (tailer_init, st) = (None, t, st')
         \<and> said (events st') = said (events st) @ [(agent_of path, s)]"
    by (metis prod.collapse)
  ultimately show ?thesis by blast
qed

theorem split_line_is_lost_witness:
  "\<exists>t. run_tailer toy_loads (growing ''a.jsonl'' (\<lambda>_ _. 7) [] [''Ahi'', ''Z'' @ [newline]])
     (tailer_init, \<lparr>events = []\<rparr>) = (None, t, \<lparr>events = []\<rparr>)"
proof -
  have "map (parse_log_entry toy_loads) [''Ahi'', ''Z'', ''AhiZ''] =
      [Inr None, Inr None, Inr (Some ''hi'')]" by code_simp
  moreover have "list_all (\<lambda>c. \<not> is_line_end c) ''AhiZ''" by code_simp
  ultimately show ?thesis
    using split_line_is_lost [of "''Ahi''" "''Z''" toy_loads "''hi''" "''a.jsonl''" "\<lambda>_ _. 7" "\<lparr>events = []\<rparr>"]
    by (simp add: list_all_iff)
qed

lemma error_after_clean:
  assumes "clean loads pre" "parse_log_entry loads bad = Inl e"
  shows "first_error loads (pre @ bad # post) = Some e" "before_error loads (pre @ bad # post) = pre"
  using assms by (simp_all add: first_error_append before_error_append clean_no_error)

text \<open>
  A line on which \<open>parse_log_entry\<close> raises ends the tailing thread: the messages
  before it are emitted, those after it in the same read are not, the file counts as read to its
  end, and no later scan runs.
\<close>

theorem bad_line_ends_tailing:
  assumes "splitlines (unread t path seen) = pre @ bad # post"
    and "clean loads pre" "parse_log_entry loads bad = Inl e"
  shows "\<exists>t' st'. run_tailer loads ((tm, (path, stable_view seen) # files) # scans) (t, st) = (Some e, t', st')
    \<and> said (events st') = said (events st) @ map (Pair (agent_of path)) (messages loads pre)
    \<and> offset_of t' path = length seen"
proof -
  have "seen \<noteq> [] \<or> offset_of t path = 0" using assms(1) by (auto simp: unread_def split: if_splits)
  then obtain t' st' where "tail_file loads tm path (stable_view seen) (t, st) =
      (first_error loads (splitlines (unread t path seen)), t', st')" "offset_of t' path = length seen"
    "said (events st') = said (events st) @
      map (Pair (agent_of path)) (messages loads (before_error loads (splitlines (unread t path seen))))"
    by (rule tail_file_stable)
  then show ?thesis unfolding assms(1) error_after_clean [OF assms(2,3)] by simp
qed

theorem bad_line_ends_tailing_witness:
  "\<exists>t' st'. run_tailer toy_loads
      [((\<lambda>_. 7), [(''a.jsonl'', stable_view (''AhiZ'' @ [newline] @ ''5'' @ [newline] @ ''AyoZ''))]),
       ((\<lambda>_. 8), [(''a.jsonl'', stable_view (''AhiZ'' @ [newline] @ ''5'' @ [newline] @ ''AyoZAupZ''))])]
      (tailer_init, \<lparr>events = []\<rparr>) = (Some AttributeError, t', st')
    \<and> said (events st') = [(''a'', ''hi'')]"
proof -
  let ?f = "''AhiZ'' @ [newline] @ ''5'' @ [newline] @ ''AyoZ''"
  have "splitlines (unread tailer_init ''a.jsonl'' ?f) = [''AhiZ''] @ ''5'' # [''AyoZ'']"
    by code_simp
  moreover have "map (parse_log_entry toy_loads) [''AhiZ'', ''5''] = [Inr (Some ''hi''), Inl AttributeError]"
    by code_simp
  then have "clean toy_loads [''AhiZ'']" "messages toy_loads [''AhiZ''] = [''hi'']"
    "parse_log_entry toy_loads ''5'' = Inl AttributeError"
    by (simp_all add: clean_def messages_def)
  moreover have "agent_of ''a.jsonl'' = ''a''" by code_simp
  ultimately show ?thesis
    using bad_line_ends_tailing [of tailer_init "''a.jsonl''" ?f "[''AhiZ'']" "''5''" "[''AyoZ'']" toy_loads
        AttributeError "\<lambda>_. 7" "[]" "[((\<lambda>_. 8), [(''a.jsonl'', stable_view (''AhiZ'' @ [newline] @ ''5'' @ [newline] @ ''AyoZAupZ''))])]"
        "\<lparr>events = []\<rparr>"]
    by auto
qed

end
