(* ===== verification/Input_Injector.thy ===== *)
theory Input_Injector
  imports Sync_Service Py_Strings
begin

text \<open>
  \<^verbatim>\<open>supervisor/src/tmux_launcher.py\<close> and \<^verbatim>\<open>supervisor/src/input_injector.py\<close>:
  typing user input into an agent's tmux session and watching the agent's log for a reaction.  What
  a tmux command answers, the clocks and the sizes of the log file are the environment of a call.
\<close>

section \<open>tmux\<close>

definition start_session_argv :: "string \<Rightarrow> string list" where
  "start_session_argv session_name = [''tmux'', ''new-session'', ''-d'', ''-s'', session_name]"

definition start_session :: "(string list \<Rightarrow> completed) \<Rightarrow> string \<Rightarrow> string result" where
  "start_session run session_name =
     (let r = run (start_session_argv session_name)
      in if returncode r \<noteq> 0
         then Inl (RuntimeError (''Failed to start tmux session '' @ quote session_name @ '': '' @ stderr r))
         else Inr session_name)"

definition session_exists :: "(string list \<Rightarrow> completed) \<Rightarrow> string \<Rightarrow> bool" where
  "session_exists run session_name \<longleftrightarrow>
     returncode (run [''tmux'', ''has-session'', ''-t'', session_name]) = 0"

definition send_keys_argv :: "string \<Rightarrow> string \<Rightarrow> string list" where
  "send_keys_argv session_name text = [''tmux'', ''send-keys'', ''-t'', session_name, text, ''Enter'']"

definition send_keys :: "(string list \<Rightarrow> completed) \<Rightarrow> string \<Rightarrow> string \<Rightarrow> unit result" where
  "send_keys run session_name text =
     (let r = run (send_keys_argv session_name text)
      in if returncode r \<noteq> 0
         then Inl (RuntimeError (''Failed to send keys to '' @ quote session_name @ '': '' @ stderr r))
         else Inr ())"

definition kill_session :: "(string list \<Rightarrow> completed) \<Rightarrow> string \<Rightarrow> unit result" where
  "kill_session run session_name =
     (let r = run [''tmux'', ''kill-session'', ''-t'', session_name]
      in if returncode r \<noteq> 0
         then Inl (RuntimeError (''Failed to kill session '' @ quote session_name @ '': '' @ stderr r))
         else Inr ())"

section \<open>Injecting\<close>

record injector =
  injector_log_dir :: string
  response_timeout_s :: seconds

definition injector_init :: injector where
  "injector_init = \<lparr>injector_log_dir = ''/tmp/vanpilot/logs'', response_timeout_s = 30\<rparr>"

definition log_path :: "injector \<Rightarrow> string \<Rightarrow> string" where
  "log_path self session_name = path_join (injector_log_dir self) (session_name @ ''.jsonl'')"

text \<open>\<open>os.path.getsize\<close> gives \<open>None\<close> where it raises \<open>OSError\<close>.\<close>

definition get_log_size :: "(string \<Rightarrow> nat option) \<Rightarrow> string \<Rightarrow> nat" where
  "get_log_size getsize path = (case getsize path of Some n \<Rightarrow> n | None \<Rightarrow> 0)"

text \<open>
  The environment of one \<open>inject\<close>: the tmux commands, the file sizes before the keys are
  sent and at each poll, the monotonic clock at the start of the wait and at each guard, and the
  wall clock when a failure is reported.
\<close>

record inject_env =
  tmux :: "string list \<Rightarrow> completed"
  getsize_before :: "string \<Rightarrow> nat option"
  getsize_at :: "nat \<Rightarrow> string \<Rightarrow> nat option"
  wait_start :: seconds
  guard_at :: "nat \<Rightarrow> seconds"
  failed_at :: seconds

definition wait_for_response :: "inject_env \<Rightarrow> injector \<Rightarrow> string \<Rightarrow> nat \<Rightarrow> bool option" where
  "wait_for_response env self log_file initial_size =
     map_option (\<lambda>r. r = Some ())
       (poll_until (guard_at env) (wait_start env + response_timeout_s self)
          (\<lambda>k. if get_log_size (getsize_at env k) log_file > initial_size then Some () else None))"

definition emit_failure :: "inject_env \<Rightarrow> string \<Rightarrow> string \<Rightarrow> event_store \<Rightarrow> event_store" where
  "emit_failure env text agent_id =
     add_event \<lparr>timestamp_ms = to_ms (failed_at env), payload = InputDeliveryFailure text agent_id\<rparr>"

text \<open>\<open>None\<close> when the wait never ends.\<close>

definition inject ::
  "inject_env \<Rightarrow> injector \<Rightarrow> string \<Rightarrow> string \<Rightarrow> string \<Rightarrow> event_store \<Rightarrow>
   (bool result \<times> event_store) option" where
  "inject env self session_name text agent_id st =
     (let log_file = log_path self session_name;
          size_before = get_log_size (getsize_before env) log_file
      in case send_keys (tmux env) session_name text of
           Inl e \<Rightarrow> Some (Inl e, st)
         | Inr _ \<Rightarrow>
             (case wait_for_response env self log_file size_before of
                None \<Rightarrow> None
              | Some True \<Rightarrow> Some (Inr True, st)
              | Some False \<Rightarrow> Some (Inr False, emit_failure env text agent_id st)))"

text \<open>
  What becomes of a user input the client sent: nothing without an injector; otherwise the reply
  comes first and the injection runs in its own thread, whose exceptions nobody catches.
\<close>

definition deliver_input ::
  "inject_env \<Rightarrow> injector \<Rightarrow> servicer \<Rightarrow> string \<Rightarrow> string \<Rightarrow> (bool \<times> event_store) option" where
  "deliver_input env self s text target_agent_id =
     (case SendUserInput s text target_agent_id of
        (accepted, None) \<Rightarrow> Some (accepted, store s)
      | (accepted, Some (session_name, text, target)) \<Rightarrow>
          map_option (\<lambda>(_, st). (accepted, st)) (inject env self session_name text target (store s)))"

section \<open>Delivery and its failure\<close>

text \<open>The log grew at the \<open>n\<close>-th poll, which came before the deadline.\<close>

definition answered_at :: "inject_env \<Rightarrow> injector \<Rightarrow> string \<Rightarrow> nat \<Rightarrow> bool" where
  "answered_at env self session_name n \<longleftrightarrow>
     (\<forall>j \<le> n. guard_at env j < wait_start env + response_timeout_s self) \<and>
     get_log_size (getsize_at env n) (log_path self session_name) >
       get_log_size (getsize_before env) (log_path self session_name)"

abbreviation clock_passes :: "inject_env \<Rightarrow> injector \<Rightarrow> bool" where
  "clock_passes env self \<equiv> \<exists>n. wait_start env + response_timeout_s self \<le> guard_at env n"

lemma least_hit:
  fixes P :: "nat \<Rightarrow> bool"
  assumes "P n"
  obtains m where "P m" "m \<le> n" "\<forall>j < m. \<not> P j"
  using assms by (metis LeastI_ex Least_le not_less_Least)

lemma wait_for_response_True:
  "wait_for_response env self (log_path self s) (get_log_size (getsize_before env) (log_path self s)) = Some True
     \<longleftrightarrow> (\<exists>n. answered_at env self s n)"
  (is "?L \<longleftrightarrow> _")
proof -
  let ?d = "wait_start env + response_timeout_s self"
  let ?hit = "\<lambda>k. get_log_size (getsize_at env k) (log_path self s) >
    get_log_size (getsize_before env) (log_path self s)"
  let ?probe = "\<lambda>k. if ?hit k then Some () else None"
  have "?L \<longleftrightarrow> poll_until (guard_at env) ?d ?probe = Some (Some ())"
    unfolding wait_for_response_def by (cases "poll_until (guard_at env) ?d ?probe") auto
  also have "\<dots> \<longleftrightarrow> (\<exists>n. polling (guard_at env) ?d ?probe n \<and> guard_at env n < ?d \<and> ?hit n)"
    unfolding poll_until_Some_iff by (simp split: if_split) blast
  also have "\<dots> \<longleftrightarrow> (\<exists>n. answered_at env self s n)"
  proof
    assume "\<exists>n. polling (guard_at env) ?d ?probe n \<and> guard_at env n < ?d \<and> ?hit n"
    then obtain n where "polling (guard_at env) ?d ?probe n" "guard_at env n < ?d" "?hit n" by blast
    then have "answered_at env self s n"
      by (auto simp: answered_at_def polling_def le_less)
    then show "\<exists>n. answered_at env self s n" ..
  next
    assume "\<exists>n. answered_at env self s n"
    then obtain n where n: "\<forall>j \<le> n. guard_at env j < ?d" "?hit n" by (auto simp: answered_at_def)
    from n(2) obtain m where "?hit m" "m \<le> n" "\<forall>j < m. \<not> ?hit j" by (rule least_hit [of ?hit n])
    with n(1) show "\<exists>n. polling (guard_at env) ?d ?probe n \<and> guard_at env n < ?d \<and> ?hit n"
      by (intro exI [of _ m]) (auto simp: polling_def)
  qed
  finally show ?thesis .
qed

lemma wait_for_response_returns:
  "clock_passes env self \<Longrightarrow> \<exists>b. wait_for_response env self path n = Some b"
  unfolding wait_for_response_def using poll_until_returns by fastforce

text \<open>
  C31.  If the clock reaches the deadline at all, \<open>inject\<close> ends in one of three ways: tmux
  refused the keys, then it raises and the store is as before; the log was seen to grow before the
  deadline, then it returns true and the store is as before; or neither, then it returns false and
  exactly one \<open>InputDeliveryFailure\<close>, naming the text and the agent, was added.
\<close>

theorem inject_outcomes:
  assumes "clock_passes env self"
  shows "inject env self session text agent st =
    (let r = tmux env (send_keys_argv session text)
     in if returncode r \<noteq> 0
        then Some (Inl (RuntimeError (''Failed to send keys to '' @ quote session @ '': '' @ stderr r)), st)
        else if \<exists>n. answered_at env self session n then Some (Inr True, st)
        else Some (Inr False, \<lparr>events = events st @
          [\<lparr>timestamp_ms = to_ms (failed_at env), payload = InputDeliveryFailure text agent\<rparr>]\<rparr>))"
proof -
  let ?p = "log_path self session"
  let ?n = "get_log_size (getsize_before env) ?p"
  obtain b where b: "wait_for_response env self ?p ?n = Some b"
    using wait_for_response_returns [OF assms] by blast
  then have "b \<longleftrightarrow> (\<exists>n. answered_at env self session n)"
    using wait_for_response_True [of env self session] by simp
  moreover have "emit_failure env text agent st = \<lparr>events = events st @
      [\<lparr>timestamp_ms = to_ms (failed_at env), payload = InputDeliveryFailure text agent\<rparr>]\<rparr>"
    by (simp add: emit_failure_def add_event_def)
  ultimately show ?thesis using b
    by (cases b) (auto simp: inject_def send_keys_def Let_def)
qed

definition silent_env :: inject_env where
  "silent_env = \<lparr>tmux = (\<lambda>_. \<lparr>returncode = 0, stdout = [], stderr = []\<rparr>), getsize_before = (\<lambda>_. Some 10),
     getsize_at = (\<lambda>_ _. Some 10), wait_start = 100, guard_at = (\<lambda>k. 100 + of_nat k), failed_at = 5\<rparr>"

lemma silent_env_passes: "clock_passes silent_env injector_init"
  by (rule exI [of _ 30]) (simp add: silent_env_def injector_init_def)

theorem inject_outcomes_witness:
  "inject silent_env injector_init ''vanpilot-lead'' ''hi'' ''lead'' \<lparr>events = []\<rparr> =
     Some (Inr False, \<lparr>events = [\<lparr>timestamp_ms = 5000, payload = InputDeliveryFailure ''hi'' ''lead''\<rparr>]\<rparr>)"
proof -
  have "\<not> answered_at silent_env injector_init s n" for s n
    by (simp add: answered_at_def silent_env_def get_log_size_def)
  then show ?thesis
    by (subst inject_outcomes [OF silent_env_passes])
      (simp add: silent_env_def to_ms_def py_int_def)
qed

text \<open>
   The client is told that its input was accepted although it was not delivered and no
  \<open>InputDeliveryFailure\<close> will ever say so: this happens whenever tmux refuses the keys.
\<close>

theorem refused_keys_are_silent:
  assumes "has_injector s" "clock_passes env self"
    and "\<And>argv. returncode (tmux env argv) \<noteq> 0"
  shows "deliver_input env self s text target = Some (True, store s)"
proof -
  have "inject env self sn tx ag st = Some
      (Inl (RuntimeError (''Failed to send keys to '' @ quote sn @ '': '' @
        stderr (tmux env (send_keys_argv sn tx)))), st)" for sn tx ag st
    using assms(3) by (simp add: inject_def send_keys_def Let_def)
  then show ?thesis
    using assms(1) by (simp add: deliver_input_def SendUserInput_def Let_def)
qed

theorem refused_keys_are_silent_witness:
  "deliver_input (silent_env\<lparr>tmux := \<lambda>_. \<lparr>returncode = 1, stdout = [], stderr = ''no session''\<rparr>\<rparr>) injector_init
     \<lparr>store = \<lparr>events = []\<rparr>, bitmap_store = bitmap_store_init, has_injector = True\<rparr> ''hi'' [] =
   Some (True, \<lparr>events = []\<rparr>)"
proof -
  have "clock_passes (silent_env\<lparr>tmux := \<lambda>_. \<lparr>returncode = 1, stdout = [], stderr = ''no session''\<rparr>\<rparr>) injector_init"
    using silent_env_passes by simp
  then show ?thesis
    by (subst refused_keys_are_silent) (simp_all add: silent_env_def)
qed

end
