(* ===== verification/Calibrate.thy ===== *)
theory Calibrate
  imports Prelude
begin

text \<open>
  \<^verbatim>\<open>mcp/src/calibrate.py\<close>: drawing the calibration pattern, finding its corner markers
  in a screenshot, and the transform computed from them.  Images are Pillow's: a size and a pixel
  at each point inside; what Pillow does at a point outside is a parameter, and saving and opening
  an image is taken to keep its pixels.  Arithmetic on floats is exact here.
\<close>

section \<open>Images\<close>

type_synonym rgb = "int \<times> int \<times> int"

record image =
  img_w :: nat
  img_h :: nat
  img_px :: "int \<times> int \<Rightarrow> rgb"

definition marker_size :: int where "marker_size = 50"
definition magenta :: rgb where "magenta = (255, 0, 255)"
definition red :: rgb where "red = (255, 0, 0)"
definition green :: rgb where "green = (0, 255, 0)"
definition blue :: rgb where "blue = (0, 0, 255)"
definition yellow :: rgb where "yellow = (255, 255, 0)"
definition color_threshold :: int where "color_threshold = 80"

definition inside :: "image \<Rightarrow> int \<times> int \<Rightarrow> bool" where
  "inside img p \<longleftrightarrow> 0 \<le> fst p \<and> fst p < int (img_w img) \<and> 0 \<le> snd p \<and> snd p < int (img_h img)"

type_synonym outside_op = "image \<Rightarrow> int \<times> int \<Rightarrow> rgb \<Rightarrow> image result"

definition putpixel :: "outside_op \<Rightarrow> image \<Rightarrow> int \<times> int \<Rightarrow> rgb \<Rightarrow> image result" where
  "putpixel outside img p color =
     (if inside img p then Inr (img\<lparr>img_px := (img_px img)(p := color)\<rparr>) else outside img p color)"

fun put_all :: "outside_op \<Rightarrow> rgb \<Rightarrow> (int \<times> int) list \<Rightarrow> image \<Rightarrow> image result" where
  "put_all outside color [] img = Inr img"
| "put_all outside color (p # ps) img =
     (case putpixel outside img p color of Inl e \<Rightarrow> Inl e | Inr img' \<Rightarrow> put_all outside color ps img')"

definition rect_points :: "int \<Rightarrow> int \<Rightarrow> int \<Rightarrow> int \<Rightarrow> (int \<times> int) list" where
  "rect_points x y w h = concat (map (\<lambda>py. map (\<lambda>px. (px, py)) [x..x + w - 1]) [y..y + h - 1])"

definition fill_rect ::
  "outside_op \<Rightarrow> int \<Rightarrow> int \<Rightarrow> int \<Rightarrow> int \<Rightarrow> rgb \<Rightarrow> image \<Rightarrow> image result" where
  "fill_rect outside x y w h color img = put_all outside color (rect_points x y w h) img"

definition bind_result :: "'a result \<Rightarrow> ('a \<Rightarrow> 'b result) \<Rightarrow> 'b result" where
  "bind_result r f = (case r of Inl e \<Rightarrow> Inl e | Inr x \<Rightarrow> f x)"

definition generate_calibration_pattern :: "outside_op \<Rightarrow> nat \<Rightarrow> nat \<Rightarrow> image result" where
  "generate_calibration_pattern outside width height =
     (let img = \<lparr>img_w = width, img_h = height, img_px = (\<lambda>_. magenta)\<rparr>;
          w = int width; h = int height; m = marker_size
      in bind_result (fill_rect outside 0 0 m m red img) (\<lambda>img.
         bind_result (fill_rect outside (w - m) 0 m m green img) (\<lambda>img.
         bind_result (fill_rect outside 0 (h - m) m m blue img) (\<lambda>img.
         fill_rect outside (w - m) (h - m) m m yellow img))))"

section \<open>Finding the markers\<close>

text \<open>\<open>_color_distance(a, b) < threshold\<close>, squared.\<close>

definition color_close :: "rgb \<Rightarrow> rgb \<Rightarrow> bool" where
  "color_close c d = (case (c, d) of ((r1, g1, b1), (r2, g2, b2)) \<Rightarrow>
     (r1 - r2)\<^sup>2 + (g1 - g2)\<^sup>2 + (b1 - b2)\<^sup>2 < color_threshold\<^sup>2)"

text \<open>\<open>range(0, n, 2)\<close>.\<close>

definition even_points :: "nat \<Rightarrow> int list" where
  "even_points n = map (\<lambda>k. 2 * int k) [0..<(n + 1) div 2]"

record bounds =
  min_x :: int
  min_y :: int
  max_x :: int
  max_y :: int
  found :: bool

definition widen :: "int \<times> int \<Rightarrow> bounds \<Rightarrow> bounds" where
  "widen p b = (case p of (px, py) \<Rightarrow>
     \<lparr>min_x = (if px < min_x b then px else min_x b), min_y = (if py < min_y b then py else min_y b),
      max_x = (if px > max_x b then px else max_x b), max_y = (if py > max_y b then py else max_y b),
      found = True\<rparr>)"

definition scan_points :: "image \<Rightarrow> (int \<times> int) list" where
  "scan_points img = concat (map (\<lambda>py. map (\<lambda>px. (px, py)) (even_points (img_w img))) (even_points (img_h img)))"

definition scan_image :: "image \<Rightarrow> rgb \<Rightarrow> bounds" where
  "scan_image img target =
     fold (\<lambda>p b. if color_close (img_px img p) target then widen p b else b) (scan_points img)
       \<lparr>min_x = int (img_w img), min_y = int (img_h img), max_x = 0, max_y = 0, found = False\<rparr>"

definition find_marker_center :: "image \<Rightarrow> rgb \<Rightarrow> (int \<times> int) result" where
  "find_marker_center img target =
     (let b = scan_image img target
      in if \<not> found b then Inl (ValueError ''Marker color not found in screenshot'')
         else Inr ((min_x b + max_x b) div 2, (min_y b + max_y b) div 2))"

record markers =
  red_tl :: "int \<times> int"
  green_tr :: "int \<times> int"
  blue_bl :: "int \<times> int"
  yellow_br :: "int \<times> int"

definition detect_calibration_markers :: "image \<Rightarrow> markers result" where
  "detect_calibration_markers img =
     bind_result (find_marker_center img red) (\<lambda>r.
     bind_result (find_marker_center img green) (\<lambda>g.
     bind_result (find_marker_center img blue) (\<lambda>b.
     bind_result (find_marker_center img yellow) (\<lambda>y.
       Inr \<lparr>red_tl = r, green_tr = g, blue_bl = b, yellow_br = y\<rparr>))))"

section \<open>The transform\<close>

definition py_round4 :: "rat \<Rightarrow> rat" where
  "py_round4 x = of_int (py_round (x * 10000)) / 10000"

record transform =
  app_left :: int
  app_top :: int
  app_right :: int
  app_bottom :: int
  scale_x :: rat
  scale_y :: rat

text \<open>A zero width or height of the pattern divides by zero.\<close>

definition compute_transform :: "markers \<Rightarrow> int \<times> int \<Rightarrow> transform result" where
  "compute_transform m pattern_size =
     (let half_marker = of_int (marker_size div 2);
          avg = (\<lambda>a b. (of_int a + of_int b) / 2 :: rat);
          left = py_round (avg (fst (red_tl m)) (fst (blue_bl m)) - half_marker);
          top' = py_round (avg (snd (red_tl m)) (snd (green_tr m)) - half_marker);
          right = py_round (avg (fst (green_tr m)) (fst (yellow_br m)) + half_marker);
          bottom = py_round (avg (snd (blue_bl m)) (snd (yellow_br m)) + half_marker)
      in if fst pattern_size = 0 \<or> snd pattern_size = 0 then Inl (OtherError ''ZeroDivisionError'')
         else Inr \<lparr>app_left = left, app_top = top', app_right = right, app_bottom = bottom,
           scale_x = py_round4 (of_int (right - left) / of_int (fst pattern_size)),
           scale_y = py_round4 (of_int (bottom - top') / of_int (snd pattern_size))\<rparr>)"

section \<open>Drawing\<close>

lemma put_all_inside:
  "\<forall>p \<in> set ps. inside img p \<Longrightarrow>
   put_all outside color ps img = Inr (img\<lparr>img_px := \<lambda>p. if p \<in> set ps then color else img_px img p\<rparr>)"
proof (induction ps arbitrary: img)
  case (Cons p ps)
  let ?img = "img\<lparr>img_px := (img_px img)(p := color)\<rparr>"
  have "\<forall>q \<in> set ps. inside ?img q" using Cons.prems by (simp add: inside_def)
  from Cons.IH [OF this] Cons.prems show ?case
    by (auto simp: putpixel_def intro!: arg_cong [of _ _ "\<lambda>f. img\<lparr>img_px := f\<rparr>"])
qed simp

lemma set_rect_points: "(a, b) \<in> set (rect_points x y w h) \<longleftrightarrow> x \<le> a \<and> a < x + w \<and> y \<le> b \<and> b < y + h"
  by (auto simp: rect_points_def image_iff intro!: bexI [of _ b])

text \<open>The colour of each point of the pattern.\<close>

definition pattern_color :: "nat \<Rightarrow> nat \<Rightarrow> int \<times> int \<Rightarrow> rgb" where
  "pattern_color w h p = (case p of (x, y) \<Rightarrow>
     if int w - 50 \<le> x \<and> x < int w \<and> int h - 50 \<le> y \<and> y < int h then yellow
     else if 0 \<le> x \<and> x < 50 \<and> int h - 50 \<le> y \<and> y < int h then blue
     else if int w - 50 \<le> x \<and> x < int w \<and> 0 \<le> y \<and> y < 50 then green
     else if 0 \<le> x \<and> x < 50 \<and> 0 \<le> y \<and> y < 50 then red
     else magenta)"

lemma fill_marker:
  assumes "0 \<le> x" "x + 50 \<le> int (img_w img)" "0 \<le> y" "y + 50 \<le> int (img_h img)"
  shows "fill_rect outside x y 50 50 color img =
    Inr (img\<lparr>img_px := \<lambda>p. if p \<in> set (rect_points x y 50 50) then color else img_px img p\<rparr>)"
proof -
  have "\<forall>p \<in> set (rect_points x y 50 50). inside img p"
    using assms by (auto simp: set_rect_points inside_def)
  then show ?thesis by (simp add: fill_rect_def put_all_inside)
qed

lemma generate_ok:
  assumes "50 \<le> w" "50 \<le> h"
  shows "generate_calibration_pattern outside w h = Inr \<lparr>img_w = w, img_h = h, img_px = pattern_color w h\<rparr>"
proof -
  have "generate_calibration_pattern outside w h = Inr \<lparr>img_w = w, img_h = h, img_px = (\<lambda>p.
    if p \<in> set (rect_points (int w - 50) (int h - 50) 50 50) then yellow
    else if p \<in> set (rect_points 0 (int h - 50) 50 50) then blue
    else if p \<in> set (rect_points (int w - 50) 0 50 50) then green
    else if p \<in> set (rect_points 0 0 50 50) then red else magenta)\<rparr>"
    using assms
    by (simp add: generate_calibration_pattern_def Let_def bind_result_def fill_marker marker_size_def cong: if_cong)
  then show ?thesis
    by (auto simp: pattern_color_def set_rect_points fun_eq_iff)
qed

section \<open>Scanning\<close>

text \<open>The bounding box of the matching points that are looked at.\<close>

definition hits :: "image \<Rightarrow> rgb \<Rightarrow> (int \<times> int) set" where
  "hits img target = {p \<in> set (scan_points img). color_close (img_px img p) target}"

lemma set_even_points: "x \<in> set (even_points n) \<longleftrightarrow> 0 \<le> x \<and> x < int n \<and> even x"
proof
  assume "x \<in> set (even_points n)"
  then obtain k where "k < (n + 1) div 2" "x = 2 * int k" by (auto simp: even_points_def)
  then show "0 \<le> x \<and> x < int n \<and> even x" by auto
next
  assume x: "0 \<le> x \<and> x < int n \<and> even x"
  then have "nat x div 2 < (n + 1) div 2" "x = 2 * int (nat x div 2)" by auto
  then show "x \<in> set (even_points n)" by (auto simp: even_points_def)
qed

lemma set_scan_points:
  "(x, y) \<in> set (scan_points img) \<longleftrightarrow>
     0 \<le> x \<and> x < int (img_w img) \<and> even x \<and> 0 \<le> y \<and> y < int (img_h img) \<and> even y"
  by (auto simp: scan_points_def set_even_points image_iff)

text \<open>\<open>b\<close> is the bounding box of the points \<open>P\<close>, or the initial bounds of the image.\<close>

definition boxed :: "image \<Rightarrow> (int \<times> int) set \<Rightarrow> bounds \<Rightarrow> bool" where
  "boxed img P b \<longleftrightarrow> (found b \<longleftrightarrow> P \<noteq> {}) \<and>
     (P = {} \<longrightarrow> b = \<lparr>min_x = int (img_w img), min_y = int (img_h img), max_x = 0, max_y = 0, found = False\<rparr>) \<and>
     (P \<noteq> {} \<longrightarrow> min_x b \<in> fst ` P \<and> max_x b \<in> fst ` P \<and> min_y b \<in> snd ` P \<and> max_y b \<in> snd ` P \<and>
       (\<forall>(x, y) \<in> P. min_x b \<le> x \<and> x \<le> max_x b \<and> min_y b \<le> y \<and> y \<le> max_y b))"

lemma boxed_widen:
  assumes "boxed img P b" "inside img p"
  shows "boxed img (insert p P) (widen p b)"
proof (cases "P = {}")
  case True
  then show ?thesis
    using assms by (cases p) (auto simp: boxed_def widen_def inside_def)
next
  case False
  then show ?thesis
    using assms(1) by (cases p) (auto simp: boxed_def widen_def)
qed

lemma fold_boxed:
  assumes "\<forall>p \<in> set ps. inside img p" "boxed img P b"
  shows "boxed img (P \<union> {p \<in> set ps. color_close (img_px img p) target})
    (fold (\<lambda>p b. if color_close (img_px img p) target then widen p b else b) ps b)"
  using assms
proof (induction ps arbitrary: P b)
  case (Cons p ps)
  show ?case
  proof (cases "color_close (img_px img p) target")
    case True
    have "boxed img (insert p P) (widen p b)" using Cons.prems boxed_widen by auto
    moreover have "insert p P \<union> {q \<in> set ps. color_close (img_px img q) target} =
        P \<union> {q \<in> set (p # ps). color_close (img_px img q) target}"
      using True by auto
    ultimately show ?thesis
      using Cons.IH [of "insert p P" "widen p b"] Cons.prems(1) True by simp
  next
    case False
    then have "{q \<in> set ps. color_close (img_px img q) target} =
        {q \<in> set (p # ps). color_close (img_px img q) target}" by auto
    with False Cons.IH [of P b] Cons.prems show ?thesis by simp
  qed
qed simp

lemma scan_boxed: "boxed img (hits img target) (scan_image img target)"
proof -
  have "\<forall>p \<in> set (scan_points img). inside img p"
    using set_scan_points [of _ _ img] by (auto simp: inside_def)
  moreover have "boxed img {} \<lparr>min_x = int (img_w img), min_y = int (img_h img), max_x = 0, max_y = 0, found = False\<rparr>"
    by (simp add: boxed_def)
  ultimately show ?thesis
    unfolding scan_image_def hits_def using fold_boxed by fastforce
qed

lemma find_marker_none:
  "hits img target = {} \<longleftrightarrow> find_marker_center img target = Inl (ValueError ''Marker color not found in screenshot'')"
  using scan_boxed [of img target] by (auto simp: boxed_def find_marker_center_def Let_def)

text \<open>The first and the last even number of an interval of at least two.\<close>

definition lo_even :: "int \<Rightarrow> int" where
  "lo_even v = (if even v then v else v + 1)"

definition hi_even :: "int \<Rightarrow> int" where
  "hi_even v = (if even v then v else v - 1)"

lemma even_interval:
  assumes "x0 < x1" "even x"
  shows "x0 \<le> x \<and> x \<le> x1 \<longleftrightarrow> lo_even x0 \<le> x \<and> x \<le> hi_even x1" and "lo_even x0 \<le> hi_even x1"
    and "even (lo_even x0)" "even (hi_even x1)" "x0 \<le> lo_even x0" "hi_even x1 \<le> x1"
  using assms unfolding lo_even_def hi_even_def by presburger+

text \<open>A solid rectangle of the target colour, and no other pixel near it.\<close>

definition solid :: "image \<Rightarrow> rgb \<Rightarrow> int \<Rightarrow> int \<Rightarrow> int \<Rightarrow> int \<Rightarrow> bool" where
  "solid img target x0 x1 y0 y1 \<longleftrightarrow>
     0 \<le> x0 \<and> x0 < x1 \<and> x1 < int (img_w img) \<and> 0 \<le> y0 \<and> y0 < y1 \<and> y1 < int (img_h img) \<and>
     (\<forall>x y. inside img (x, y) \<longrightarrow>
        (color_close (img_px img (x, y)) target \<longleftrightarrow> x0 \<le> x \<and> x \<le> x1 \<and> y0 \<le> y \<and> y \<le> y1))"

lemma find_solid:
  assumes "solid img target x0 x1 y0 y1"
  shows "find_marker_center img target =
    Inr ((lo_even x0 + hi_even x1) div 2, (lo_even y0 + hi_even y1) div 2)"
proof -
  note s = assms [unfolded solid_def]
  have x: "x0 < x1" and y: "y0 < y1" using s by auto
  have "(a, b) \<in> hits img target \<longleftrightarrow>
      even a \<and> even b \<and> lo_even x0 \<le> a \<and> a \<le> hi_even x1 \<and> lo_even y0 \<le> b \<and> b \<le> hi_even y1" for a b
  proof (cases "even a \<and> even b")
    case True
    then show ?thesis
      using s even_interval(1) [OF x, of a] even_interval(1) [OF y, of b]
      by (auto simp: hits_def set_scan_points inside_def)
  next
    case False
    then show ?thesis by (auto simp: hits_def set_scan_points)
  qed
  then have hits: "hits img target = {(a, b). even a \<and> even b \<and> lo_even x0 \<le> a \<and> a \<le> hi_even x1 \<and>
      lo_even y0 \<le> b \<and> b \<le> hi_even y1}" (is "_ = ?H") by auto
  have corner: "(lo_even x0, lo_even y0) \<in> ?H" "(hi_even x1, hi_even y1) \<in> ?H"
    using even_interval(2-4) [OF x, of 0] even_interval(2-4) [OF y, of 0] by auto
  let ?b = "scan_image img target"
  have "boxed img ?H ?b" using scan_boxed [of img target] by (simp only: hits)
  moreover have "?H \<noteq> {}" using corner by blast
  ultimately have b: "found ?b" "min_x ?b \<in> fst ` ?H" "max_x ?b \<in> fst ` ?H" "min_y ?b \<in> snd ` ?H" "max_y ?b \<in> snd ` ?H"
    "\<forall>(x, y) \<in> ?H. min_x ?b \<le> x \<and> x \<le> max_x ?b \<and> min_y ?b \<le> y \<and> y \<le> max_y ?b"
    unfolding boxed_def by blast+
  have "min_x ?b = lo_even x0" "max_x ?b = hi_even x1" "min_y ?b = lo_even y0" "max_y ?b = hi_even y1"
    using b(2-5) bspec [OF b(6) corner(1)] bspec [OF b(6) corner(2)] by auto
  with b(1) show ?thesis by (simp add: find_marker_center_def Let_def)
qed

section \<open>What calibration finds\<close>

text \<open>A screenshot that shows the pattern unscaled with its top left corner at \<open>(ox, oy)\<close>.\<close>

definition shows_pattern :: "image \<Rightarrow> nat \<Rightarrow> nat \<Rightarrow> int \<Rightarrow> int \<Rightarrow> bool" where
  "shows_pattern img w h ox oy \<longleftrightarrow>
     0 \<le> ox \<and> ox + int w \<le> int (img_w img) \<and> 0 \<le> oy \<and> oy + int h \<le> int (img_h img) \<and>
     (\<forall>x y. inside img (x, y) \<longrightarrow>
        (if ox \<le> x \<and> x < ox + int w \<and> oy \<le> y \<and> y < oy + int h
         then img_px img (x, y) = pattern_color w h (x - ox, y - oy)
         else (\<forall>c \<in> {red, green, blue, yellow}. \<not> color_close (img_px img (x, y)) c)))"

lemma colors_apart [simp]:
  "color_close c d \<longleftrightarrow> c = d"
  if "c \<in> {magenta, red, green, blue, yellow}" "d \<in> {magenta, red, green, blue, yellow}"
  using that by (auto simp: color_close_def magenta_def red_def green_def blue_def yellow_def color_threshold_def)

lemma pattern_colors: "pattern_color w h p \<in> {magenta, red, green, blue, yellow}"
  by (cases p) (simp add: pattern_color_def)

lemma pattern_is:
  assumes "100 \<le> w" "100 \<le> h" "0 \<le> x" "x < int w" "0 \<le> y" "y < int h"
  shows "pattern_color w h (x, y) = red \<longleftrightarrow> x \<le> 49 \<and> y \<le> 49"
    and "pattern_color w h (x, y) = green \<longleftrightarrow> int w - 50 \<le> x \<and> y \<le> 49"
    and "pattern_color w h (x, y) = blue \<longleftrightarrow> x \<le> 49 \<and> int h - 50 \<le> y"
    and "pattern_color w h (x, y) = yellow \<longleftrightarrow> int w - 50 \<le> x \<and> int h - 50 \<le> y"
  using assms by (auto simp: pattern_color_def magenta_def red_def green_def blue_def yellow_def)

lemma solid_markers:
  assumes "shows_pattern img w h ox oy" "100 \<le> w" "100 \<le> h"
  shows "solid img red ox (ox + 49) oy (oy + 49)"
    and "solid img green (ox + int w - 50) (ox + int w - 1) oy (oy + 49)"
    and "solid img blue ox (ox + 49) (oy + int h - 50) (oy + int h - 1)"
    and "solid img yellow (ox + int w - 50) (ox + int w - 1) (oy + int h - 50) (oy + int h - 1)"
proof -
  have px: "color_close (img_px img (x, y)) c \<longleftrightarrow>
      ox \<le> x \<and> x < ox + int w \<and> oy \<le> y \<and> y < oy + int h \<and> pattern_color w h (x - ox, y - oy) = c"
    if "inside img (x, y)" "c \<in> {red, green, blue, yellow}" for x y c
  proof (cases "ox \<le> x \<and> x < ox + int w \<and> oy \<le> y \<and> y < oy + int h")
    case True
    then have "img_px img (x, y) = pattern_color w h (x - ox, y - oy)"
      using assms(1) that(1) by (simp add: shows_pattern_def)
    moreover have "color_close (pattern_color w h (x - ox, y - oy)) c \<longleftrightarrow> pattern_color w h (x - ox, y - oy) = c"
      using pattern_colors that(2) by (intro colors_apart) auto
    ultimately show ?thesis using True by simp
  next
    case False
    then show ?thesis using assms(1) that by (auto simp: shows_pattern_def)
  qed
  have b: "0 \<le> ox" "ox + int w \<le> int (img_w img)" "0 \<le> oy" "oy + int h \<le> int (img_h img)"
    using assms(1) by (simp_all add: shows_pattern_def)
  show "solid img red ox (ox + 49) oy (oy + 49)"
    using b assms(2,3) px [of _ _ red] pattern_is(1) [OF assms(2,3)] by (auto simp: solid_def)
  show "solid img green (ox + int w - 50) (ox + int w - 1) oy (oy + 49)"
    using b assms(2,3) px [of _ _ green] pattern_is(2) [OF assms(2,3)] by (auto simp: solid_def)
  show "solid img blue ox (ox + 49) (oy + int h - 50) (oy + int h - 1)"
    using b assms(2,3) px [of _ _ blue] pattern_is(3) [OF assms(2,3)] by (auto simp: solid_def)
  show "solid img yellow (ox + int w - 50) (ox + int w - 1) (oy + int h - 50) (oy + int h - 1)"
    using b assms(2,3) px [of _ _ yellow] pattern_is(4) [OF assms(2,3)] by (auto simp: solid_def)
qed

lemma py_round_int [simp]: "py_round (of_int i) = i"
  by (simp add: py_round_def Let_def)

lemma py_round_centre: "py_round (of_int a - 25) = a - 25" "py_round (of_int a + 25) = a + 25"
  using py_round_int [of "a - 25"] py_round_int [of "a + 25"] by simp_all

lemma centre:
  "(lo_even v + hi_even (v + 49)) div 2 - 25 = v - (if even v then 1 else 0)"
  "(lo_even (v - 50) + hi_even (v - 1)) div 2 + 25 = v - (if even v then 1 else 0)"
  unfolding lo_even_def hi_even_def by presburger+

text \<open>
  C40.  Calibration.  On a screenshot that shows the pattern unscaled at \<open>(ox, oy)\<close> and none
  of the marker colours elsewhere, the four markers are found, and every edge of the rectangle
  computed is the true edge when its coordinate is odd and one less when it is even: the centre of a
  50 pixel marker is not 25 pixels from its edge on the grid of even points that is scanned.
\<close>

theorem calibration_result:
  assumes "shows_pattern img w h ox oy" "100 \<le> w" "100 \<le> h"
  shows "\<exists>m t. detect_calibration_markers img = Inr m \<and> compute_transform m (int w, int h) = Inr t \<and>
    app_left t = ox - (if even ox then 1 else 0) \<and> app_top t = oy - (if even oy then 1 else 0) \<and>
    app_right t = ox + int w - (if even (ox + int w) then 1 else 0) \<and>
    app_bottom t = oy + int h - (if even (oy + int h) then 1 else 0)"
proof -
  let ?l = "(lo_even ox + hi_even (ox + 49)) div 2" and ?t = "(lo_even oy + hi_even (oy + 49)) div 2"
  let ?r = "(lo_even (ox + int w - 50) + hi_even (ox + int w - 1)) div 2"
  let ?b = "(lo_even (oy + int h - 50) + hi_even (oy + int h - 1)) div 2"
  let ?m = "\<lparr>red_tl = (?l, ?t), green_tr = (?r, ?t), blue_bl = (?l, ?b), yellow_br = (?r, ?b)\<rparr>"
  have "detect_calibration_markers img = Inr ?m"
    by (simp add: detect_calibration_markers_def bind_result_def solid_markers [OF assms, THEN find_solid])
  moreover have "\<exists>t. compute_transform ?m (int w, int h) = Inr t \<and> app_left t = ?l - 25 \<and> app_top t = ?t - 25 \<and>
      app_right t = ?r + 25 \<and> app_bottom t = ?b + 25"
    using assms(2,3) by (simp add: compute_transform_def Let_def marker_size_def py_round_centre)
  ultimately show ?thesis
    unfolding centre(1) [of ox] centre(1) [of oy] centre(2) [of "ox + int w"] centre(2) [of "oy + int h"] by blast
qed

lemma generated_shows:
  assumes "50 \<le> w" "50 \<le> h"
  shows "shows_pattern \<lparr>img_w = w, img_h = h, img_px = pattern_color w h\<rparr> w h 0 0"
  by (simp add: shows_pattern_def inside_def)

theorem calibration_result_witness:
  "\<exists>img m t. generate_calibration_pattern (\<lambda>_ _ _. Inl IndexError) 1024 600 = Inr img \<and>
     detect_calibration_markers img = Inr m \<and> compute_transform m (1024, 600) = Inr t \<and>
     app_left t = - 1 \<and> app_top t = - 1 \<and> app_right t = 1023 \<and> app_bottom t = 599"
proof -
  let ?img = "\<lparr>img_w = 1024, img_h = 600, img_px = pattern_color 1024 600\<rparr>"
  have "generate_calibration_pattern (\<lambda>_ _ _. Inl IndexError) 1024 600 = Inr ?img"
    by (simp add: generate_ok)
  moreover have "shows_pattern ?img 1024 600 0 0" by (simp add: generated_shows)
  from calibration_result [OF this] have "\<exists>m t. detect_calibration_markers ?img = Inr m \<and>
      compute_transform m (1024, 600) = Inr t \<and>
      app_left t = - 1 \<and> app_top t = - 1 \<and> app_right t = 1023 \<and> app_bottom t = 599" by simp
  ultimately show ?thesis by blast
qed

end
