(* ===== verification/Port_Allocator.thy ===== *)
theory Port_Allocator
  imports Prelude
begin

text \<open>
  \<^verbatim>\<open>instance_manager/src/port_allocator.py\<close>.  The locale \<open>slot_pool\<close> is what
  the instance manager relies on: an allocation takes the lowest free slot and nothing else, it fails
  only when no slot is free, and a release frees exactly the slot given, which must be in use.
\<close>

section \<open>The contract\<close>

locale slot_pool =
  fixes alloc :: "'s \<Rightarrow> nat result \<times> 's"
    and release :: "int \<Rightarrow> 's \<Rightarrow> unit result \<times> 's"
    and used :: "'s \<Rightarrow> nat set"
    and capacity :: "'s \<Rightarrow> nat"
  assumes alloc_ok: "(\<exists>i < capacity s. i \<notin> used s) \<Longrightarrow>
      fst (alloc s) = Inr (LEAST i. i \<notin> used s) \<and> used (snd (alloc s)) = insert (LEAST i. i \<notin> used s) (used s)"
    and alloc_full: "{..<capacity s} \<subseteq> used s \<Longrightarrow> (\<exists>m. fst (alloc s) = Inl (RuntimeError m)) \<and> snd (alloc s) = s"
    and release_ok: "i \<in> used s \<Longrightarrow>
      fst (release (int i) s) = Inr () \<and> used (snd (release (int i) s)) = used s - {i}"
    and release_bad: "(\<nexists>i. k = int i \<and> i \<in> used s) \<Longrightarrow>
      (\<exists>m. fst (release k s) = Inl (ValueError m)) \<and> snd (release k s) = s"
    and capacity_alloc: "capacity (snd (alloc s)) = capacity s"
    and capacity_release: "capacity (snd (release k s)) = capacity s"
begin

lemma alloc_cases:
  obtains (ok) i where "fst (alloc s) = Inr i" "i < capacity s" "i \<notin> used s"
      "\<And>j. j < i \<Longrightarrow> j \<in> used s" "used (snd (alloc s)) = insert i (used s)"
    | (full) m where "fst (alloc s) = Inl (RuntimeError m)" "snd (alloc s) = s" "{..<capacity s} \<subseteq> used s"
proof (cases "\<exists>i < capacity s. i \<notin> used s")
  case True
  let ?i = "LEAST i. i \<notin> used s"
  from True obtain j where j: "j < capacity s" "j \<notin> used s" by blast
  have fresh: "?i \<notin> used s" using j(2) by (rule LeastI)
  have "?i \<le> j" using j(2) by (rule Least_le)
  with j(1) have bound: "?i < capacity s" by simp
  have below: "k \<in> used s" if "k < ?i" for k using not_less_Least [OF that] by blast
  from alloc_ok [OF True] show thesis by (elim conjE) (rule ok [OF _ bound fresh below])
next
  case False
  then have "{..<capacity s} \<subseteq> used s" by auto
  with alloc_full [OF this] full show thesis by blast
qed

lemma alloc_fresh: "fst (alloc s) = Inr i \<Longrightarrow> i \<notin> used s \<and> i < capacity s"
  by (cases rule: alloc_cases [of s]) auto

lemma used_alloc: "used (snd (alloc s)) = (case fst (alloc s) of Inr i \<Rightarrow> insert i (used s) | Inl _ \<Rightarrow> used s)"
  by (cases rule: alloc_cases [of s]) auto

lemma used_release: "used (snd (release (int i) s)) = used s - {i}"
  using release_ok [of i s] release_bad [of "int i" s] by (cases "i \<in> used s") auto

text \<open>A slot that was taken and given back can be taken again.\<close>

lemma release_alloc: "fst (alloc s) = Inr i \<Longrightarrow> used (snd (release (int i) (snd (alloc s)))) = used s"
  using alloc_fresh [of s i] by (simp add: used_release used_alloc)

lemma alloc_bounded: "used s \<subseteq> {..<capacity s} \<Longrightarrow> used (snd (alloc s)) \<subseteq> {..<capacity s}"
  using alloc_fresh [of s] by (auto simp: used_alloc split: sum.splits)

end

section \<open>PortAllocator\<close>

record port_slot =
  slot_index :: nat
  console_port :: int
  slot_adb_port :: int
  slot_aa_forward_port :: int

definition base_console :: int where "base_console = 5554"
definition base_aa_fwd :: int where "base_aa_fwd = 5277"

definition make_slot :: "nat \<Rightarrow> port_slot" where
  "make_slot i = \<lparr>slot_index = i, console_port = base_console + 2 * int i,
     slot_adb_port = base_console + 2 * int i + 1, slot_aa_forward_port = base_aa_fwd + int i\<rparr>"

record port_allocator =
  max_slots :: nat
  used_slots :: "nat set"

definition port_allocator_init :: "nat \<Rightarrow> port_allocator" where
  "port_allocator_init n = \<lparr>max_slots = n, used_slots = {}\<rparr>"

definition allocate :: "port_allocator \<Rightarrow> port_slot result \<times> port_allocator" where
  "allocate p =
     (case filter (\<lambda>i. i \<notin> used_slots p) [0..<max_slots p] of
        [] \<Rightarrow> (Inl (RuntimeError (''All '' @ show_nat (max_slots p) @ '' port slots are in use'')), p)
      | i # _ \<Rightarrow> (Inr (make_slot i), p\<lparr>used_slots := insert i (used_slots p)\<rparr>))"

definition release_slot :: "int \<Rightarrow> port_allocator \<Rightarrow> unit result \<times> port_allocator" where
  "release_slot k p =
     (if 0 \<le> k \<and> nat k \<in> used_slots p
      then (Inr (), p\<lparr>used_slots := used_slots p - {nat k}\<rparr>)
      else (Inl (ValueError (''Slot '' @ show_int k @ '' is not allocated'')), p))"

text \<open>The index of the slot allocated.\<close>

definition allocate_index :: "port_allocator \<Rightarrow> nat result \<times> port_allocator" where
  "allocate_index p = (case allocate p of (r, p') \<Rightarrow> (map_sum id slot_index r, p'))"

lemma filter_upt_Cons:
  assumes "filter P [0..<n] = i # rest"
  shows "P i" "i < n" "\<forall>j < i. \<not> P j"
proof -
  from assms have mem: "i \<in> set (filter P [0..<n])" by simp
  then show "P i" "i < n" by auto
  show "\<forall>j < i. \<not> P j"
  proof (intro allI impI notI)
    fix j assume "j < i" "P j"
    then have "j \<in> set (filter P [0..<n])" using \<open>i < n\<close> by simp
    moreover have "sorted (filter P [0..<n])" using sorted_wrt_filter [OF sorted_upt] by blast
    ultimately show False using assms \<open>j < i\<close> by auto
  qed
qed

interpretation pool: slot_pool allocate_index release_slot used_slots max_slots
proof
  fix p :: port_allocator
  assume "\<exists>i < max_slots p. i \<notin> used_slots p"
  then have "filter (\<lambda>i. i \<notin> used_slots p) [0..<max_slots p] \<noteq> []" by (auto simp: filter_empty_conv)
  then obtain i rest where f: "filter (\<lambda>i. i \<notin> used_slots p) [0..<max_slots p] = i # rest"
    by (meson list.exhaust)
  have "(LEAST i. i \<notin> used_slots p) = i"
    using filter_upt_Cons [OF f] by (intro Least_equality) (auto simp: not_less [symmetric])
  then show "fst (allocate_index p) = Inr (LEAST i. i \<notin> used_slots p) \<and>
      used_slots (snd (allocate_index p)) = insert (LEAST i. i \<notin> used_slots p) (used_slots p)"
    by (simp add: allocate_index_def allocate_def f make_slot_def)
next
  fix p :: port_allocator
  assume "{..<max_slots p} \<subseteq> used_slots p"
  then have "filter (\<lambda>i. i \<notin> used_slots p) [0..<max_slots p] = []" by (auto simp: filter_empty_conv)
  then show "(\<exists>m. fst (allocate_index p) = Inl (RuntimeError m)) \<and> snd (allocate_index p) = p"
    by (simp add: allocate_index_def allocate_def)
qed (auto simp: release_slot_def allocate_index_def allocate_def split: list.split prod.split)

lemma allocate_via_index:
  "allocate p = (map_sum id make_slot (fst (allocate_index p)), snd (allocate_index p))"
  by (auto simp: allocate_index_def allocate_def make_slot_def split: list.split)

section \<open>Ports\<close>

definition slot_ports :: "port_slot \<Rightarrow> int set" where
  "slot_ports s = {console_port s, slot_adb_port s, slot_aa_forward_port s}"

text \<open>
  C39.  Ports.  An allocation returns the lowest slot not in use, with three different ports, and
  marks exactly that slot; while there are at most 277 slots, the ports of two slots never overlap.
  With one more slot they do: slot 277 forwards on the console port of slot 0.
\<close>

theorem allocate_ports:
  assumes "allocate p = (Inr s, p')" "used_slots p \<subseteq> {..<max_slots p}" "max_slots p \<le> 277"
  shows "slot_index s \<notin> used_slots p \<and> (\<forall>j < slot_index s. j \<in> used_slots p) \<and> slot_index s < max_slots p \<and>
    used_slots p' = insert (slot_index s) (used_slots p) \<and> card (slot_ports s) = 3 \<and>
    (\<forall>j \<in> used_slots p. slot_ports s \<inter> slot_ports (make_slot j) = {}) \<and>
    slot_ports (make_slot 277) \<inter> slot_ports (make_slot 0) \<noteq> {}"
proof -
  obtain i where i: "fst (allocate_index p) = Inr i" "s = make_slot i" "p' = snd (allocate_index p)"
    using assms(1) unfolding allocate_via_index by (cases "fst (allocate_index p)") auto
  from i(1) have facts: "i \<notin> used_slots p" "i < max_slots p" "\<forall>j < i. j \<in> used_slots p"
    "used_slots p' = insert i (used_slots p)"
    by (cases rule: pool.alloc_cases [of p]; simp add: i)+
  then have index: "slot_index s \<notin> used_slots p" "\<forall>j < slot_index s. j \<in> used_slots p" "slot_index s < max_slots p"
    "used_slots p' = insert (slot_index s) (used_slots p)"
    by (simp_all add: i make_slot_def)
  have "i < 277" using facts(2) assms(3) by simp
  then have three: "card (slot_ports s) = 3"
    by (simp add: slot_ports_def i make_slot_def base_console_def base_aa_fwd_def card_insert_if)
  have apart: "slot_ports s \<inter> slot_ports (make_slot j) = {}" if "j \<in> used_slots p" for j
  proof -
    have "j < 277" "j \<noteq> i" using that assms(2,3) facts(1) by auto
    with \<open>i < 277\<close> show ?thesis
      by (auto simp: slot_ports_def i make_slot_def base_console_def base_aa_fwd_def)
  qed
  have "slot_ports (make_slot 277) \<inter> slot_ports (make_slot 0) \<noteq> {}"
    by (simp add: slot_ports_def make_slot_def base_console_def base_aa_fwd_def)
  with index three apart show ?thesis by blast
qed

theorem allocate_ports_witness:
  "\<exists>s p'. allocate \<lparr>max_slots = 8, used_slots = {0, 2}\<rparr> = (Inr s, p') \<and> slot_index s = 1 \<and>
     used_slots p' = {0, 1, 2} \<and> slot_ports s \<inter> slot_ports (make_slot 2) = {}"
proof -
  let ?p = "\<lparr>max_slots = 8, used_slots = {0, 2}\<rparr>"
  have a: "allocate ?p = (Inr (make_slot 1), ?p\<lparr>used_slots := {0, 1, 2}\<rparr>)"
    by (simp add: allocate_def upt_rec insert_commute)
  have *: "used_slots ?p \<subseteq> {..<max_slots ?p}" "max_slots ?p \<le> 277" by auto
  from allocate_ports [OF a *] have "slot_ports (make_slot 1) \<inter> slot_ports (make_slot 2) = {}" by simp
  moreover have "slot_index (make_slot 1) = 1" by (simp add: make_slot_def)
  ultimately show ?thesis using a by fastforce
qed

end
