(* ===== verification/Instance_Store.thy ===== *)
theory Instance_Store
  imports Port_Allocator
begin

text \<open>
  \<^verbatim>\<open>instance_manager/src/instance_store.py\<close>: the records of the running instances.
  The locale \<open>record_store\<close> states what the lifecycle and the service rely on, and
  \<open>leases\<close> joins it with the slot pool: the slots in use are those of the records, one
  each, and the operations the service strings together keep it so.
\<close>

section \<open>The contracts\<close>

locale record_store =
  fixes get :: "'t \<Rightarrow> 'k \<Rightarrow> 'r option"
    and insert_new :: "'k \<Rightarrow> 'r \<Rightarrow> 't \<Rightarrow> 'r result \<times> 't"
    and modify_at :: "'k \<Rightarrow> ('r \<Rightarrow> 'r) \<Rightarrow> 't \<Rightarrow> unit result \<times> 't"
    and remove_at :: "'k \<Rightarrow> 't \<Rightarrow> unit result \<times> 't"
  assumes insert_new: "get t k = None \<Longrightarrow>
      fst (insert_new k r t) = Inr r \<and> get (snd (insert_new k r t)) = (get t)(k \<mapsto> r)"
    and insert_old: "get t k = Some q \<Longrightarrow> (\<exists>m. insert_new k r t = (Inl (ValueError m), t))"
    and modify_present: "get t k = Some r \<Longrightarrow>
      fst (modify_at k f t) = Inr () \<and> get (snd (modify_at k f t)) = (get t)(k \<mapsto> f r)"
    and modify_absent: "get t k = None \<Longrightarrow> (\<exists>m. modify_at k f t = (Inl (KeyError m), t))"
    and remove_present: "get t k = Some r \<Longrightarrow>
      fst (remove_at k t) = Inr () \<and> get (snd (remove_at k t)) = (get t)(k := None)"
    and remove_absent: "get t k = None \<Longrightarrow> (\<exists>m. remove_at k t = (Inl (KeyError m), t))"
begin

lemma insert_remove:
  "get t k = None \<Longrightarrow> get (snd (remove_at k (snd (insert_new k r t)))) = get t"
  using insert_new [of t k r] remove_present [of "snd (insert_new k r t)" k r] by auto

lemma modify_cases:
  obtains r where "get t k = Some r" "fst (modify_at k f t) = Inr ()" "get (snd (modify_at k f t)) = (get t)(k \<mapsto> f r)"
    | m where "get t k = None" "modify_at k f t = (Inl (KeyError m), t)"
  using modify_present [of t k _ f] modify_absent [of t k f] by (cases "get t k") auto

lemma remove_cases:
  obtains r where "get t k = Some r" "fst (remove_at k t) = Inr ()" "get (snd (remove_at k t)) = (get t)(k := None)"
    | m where "get t k = None" "remove_at k t = (Inl (KeyError m), t)"
  using remove_present [of t k] remove_absent [of t k] by (cases "get t k") auto

end

text \<open>The slots in use are the slots of the records, each held by one record.\<close>

definition slots_match :: "nat set \<Rightarrow> ('k \<Rightarrow> 'r option) \<Rightarrow> ('r \<Rightarrow> int) \<Rightarrow> bool" where
  "slots_match taken lookup slot_of \<longleftrightarrow>
     bij_betw (\<lambda>k. slot_of (the (lookup k))) (dom lookup) (int ` taken)"

lemma slots_matchD:
  "slots_match taken lookup slot_of \<Longrightarrow> lookup k = Some r \<Longrightarrow> \<exists>i \<in> taken. slot_of r = int i"
  unfolding slots_match_def by (drule bij_betw_apply [where a = k]) auto

lemma slots_match_unique:
  assumes "slots_match taken lookup slot_of" "lookup k = Some r" "lookup k' = Some r'" "slot_of r = slot_of r'"
  shows "k = k'"
  using assms unfolding slots_match_def bij_betw_def by (elim conjE, drule_tac inj_onD) auto

lemma slots_match_insert:
  assumes "slots_match taken lookup slot_of" "i \<notin> taken" "lookup k = None" "slot_of r = int i"
  shows "slots_match (insert i taken) (lookup(k \<mapsto> r)) slot_of"
proof -
  let ?f = "\<lambda>k'. slot_of (the ((lookup(k \<mapsto> r)) k'))"
  have "bij_betw ?f (dom lookup) (int ` taken) \<longleftrightarrow> bij_betw (\<lambda>k. slot_of (the (lookup k))) (dom lookup) (int ` taken)"
    using assms(3) by (intro bij_betw_cong) auto
  with assms(1) have "bij_betw ?f (dom lookup) (int ` taken)" by (simp add: slots_match_def)
  moreover have "k \<notin> dom lookup" "?f k \<notin> int ` taken" using assms by auto
  ultimately have "bij_betw ?f (dom lookup \<union> {k}) (int ` taken \<union> {?f k})"
    by (rule notIn_Un_bij_betw [rotated 2])
  then show ?thesis using assms(4) by (simp add: slots_match_def)
qed

lemma slots_match_delete:
  assumes "slots_match taken lookup slot_of" "lookup k = Some r" "slot_of r = int i"
  shows "slots_match (taken - {i}) (lookup(k := None)) slot_of"
proof -
  let ?f = "\<lambda>k. slot_of (the (lookup k))"
  have "bij_betw ?f (dom lookup - {k}) (int ` taken - {?f k})"
    using assms by (intro bij_betw_DiffI) (auto simp: slots_match_def bij_betw_singleton_iff dest: bij_betw_apply [where a = k])
  moreover have "int ` taken - {?f k} = int ` (taken - {i})" using assms by auto
  moreover have "bij_betw ?f (dom lookup - {k}) B \<longleftrightarrow>
      bij_betw (\<lambda>k'. slot_of (the ((lookup(k := None)) k'))) (dom lookup - {k}) B" for B
    by (intro bij_betw_cong) auto
  ultimately show ?thesis by (simp add: slots_match_def)
qed

lemma slots_match_modify:
  assumes "slots_match taken lookup slot_of" "lookup k = Some r" "slot_of r' = slot_of r"
  shows "slots_match taken (lookup(k \<mapsto> r')) slot_of"
proof -
  have "bij_betw (\<lambda>k'. slot_of (the ((lookup(k \<mapsto> r')) k'))) (dom lookup) (int ` taken) \<longleftrightarrow>
      bij_betw (\<lambda>k. slot_of (the (lookup k))) (dom lookup) (int ` taken)"
    using assms by (intro bij_betw_cong) auto
  moreover have "dom (lookup(k \<mapsto> r')) = dom lookup" using assms(2) by auto
  ultimately show ?thesis using assms(1) unfolding slots_match_def by simp
qed

locale leases = slot_pool alloc release used capacity + record_store get insert_new modify_at remove_at
  for alloc :: "'s \<Rightarrow> nat result \<times> 's" and release and used and capacity
    and get :: "'t \<Rightarrow> 'k \<Rightarrow> 'r option" and insert_new and modify_at and remove_at +
  fixes slot_of :: "'r \<Rightarrow> int"
begin

lemma acquire:
  assumes "slots_match (used s) (get t) slot_of" "fst (alloc s) = Inr i" "get t k = None" "slot_of r = int i"
  shows "slots_match (used (snd (alloc s))) (get (snd (insert_new k r t))) slot_of"
  using assms slots_match_insert [OF assms(1) _ assms(3,4)] alloc_fresh [OF assms(2)] insert_new [OF assms(3), of r]
  by (simp add: used_alloc)

lemma give_back:
  assumes "slots_match (used s) (get t) slot_of" "get t k = Some r"
  shows "fst (release (slot_of r) s) = Inr ()"
    and "slots_match (used (snd (release (slot_of r) s))) (get (snd (remove_at k t))) slot_of"
proof -
  from slots_matchD [OF assms] obtain i where i: "i \<in> used s" "slot_of r = int i" by blast
  with release_ok [OF i(1)] show "fst (release (slot_of r) s) = Inr ()" by simp
  from i slots_match_delete [OF assms i(2)] remove_present [OF assms(2)]
  show "slots_match (used (snd (release (slot_of r) s))) (get (snd (remove_at k t))) slot_of"
    by (simp add: used_release)
qed

lemma modified:
  assumes "slots_match (used s) (get t) slot_of" "\<And>r. get t k = Some r \<Longrightarrow> slot_of (f r) = slot_of r"
  shows "slots_match (used s) (get (snd (modify_at k f t))) slot_of"
  using assms by (cases rule: modify_cases [of t k f]) (auto intro: slots_match_modify)

end

section \<open>InstanceRecord\<close>

definition CREATING :: int where "CREATING = 1"
definition RUNNING :: int where "RUNNING = 2"
definition ERROR :: int where "ERROR = 3"
definition DESTROYING :: int where "DESTROYING = 4"

record instance_record =
  inst_name :: string
  inst_state :: int
  emulator_console_port :: int
  adb_port :: int
  aa_forward_port :: int
  headful :: bool
  created_at_ms :: int
  avd_name :: string
  emulator_pid :: "int option"
  dhu_pid :: "int option"
  keeper_pid :: "int option"
  socat_pid :: "int option"
  inst_pipe_path :: "string option"
  inst_log_path :: "string option"
  last_screenshot_png :: "bytes option"
  last_emulator_screenshot_png :: "bytes option"
  last_screenshot_at_ms :: "int option"

section \<open>InstanceStore\<close>

type_synonym instance_store = "(string, instance_record) dict"

definition store_get :: "instance_store \<Rightarrow> string \<Rightarrow> instance_record option" where
  "store_get st name = dict_get st name"

definition new_record ::
  "string \<Rightarrow> int \<Rightarrow> int \<Rightarrow> int \<Rightarrow> bool \<Rightarrow> int \<Rightarrow> string \<Rightarrow> instance_record" where
  "new_record name console adb aa head created avd =
     \<lparr>inst_name = name, inst_state = CREATING, emulator_console_port = console, adb_port = adb,
      aa_forward_port = aa, headful = head, created_at_ms = created, avd_name = avd,
      emulator_pid = None, dhu_pid = None, keeper_pid = None, socat_pid = None,
      inst_pipe_path = None, inst_log_path = None, last_screenshot_png = None,
      last_emulator_screenshot_png = None, last_screenshot_at_ms = None\<rparr>"

definition add_record :: "string \<Rightarrow> instance_record \<Rightarrow> instance_store \<Rightarrow> instance_record result \<times> instance_store" where
  "add_record name r st =
     (if name \<in> set (keys st)
      then (Inl (ValueError (''Instance '' @ quote name @ '' already exists'')), st)
      else (Inr r, dict_set name r st))"

definition store_create ::
  "string \<Rightarrow> int \<Rightarrow> int \<Rightarrow> int \<Rightarrow> bool \<Rightarrow> int \<Rightarrow> string \<Rightarrow> instance_store \<Rightarrow>
   instance_record result \<times> instance_store" where
  "store_create name console adb aa head created avd st =
     add_record name (new_record name console adb aa head created avd) st"

definition list_all_records :: "instance_store \<Rightarrow> instance_record list" where
  "list_all_records st = map snd st"

text \<open>
  \<open>update(name, field=value, ...)\<close>: the keyword arguments are a function on the record.
  All callers name existing fields, so the \<open>AttributeError\<close> of an unknown field does not arise.
\<close>

definition store_update ::
  "string \<Rightarrow> (instance_record \<Rightarrow> instance_record) \<Rightarrow> instance_store \<Rightarrow> unit result \<times> instance_store" where
  "store_update name f st =
     (case dict_get st name of
        None \<Rightarrow> (Inl (KeyError (''Instance '' @ quote name @ '' not found'')), st)
      | Some r \<Rightarrow> (Inr (), dict_set name (f r) st))"

definition store_remove :: "string \<Rightarrow> instance_store \<Rightarrow> unit result \<times> instance_store" where
  "store_remove name st =
     (if name \<notin> set (keys st)
      then (Inl (KeyError (''Instance '' @ quote name @ '' not found'')), st)
      else (Inr (), dict_pop name st))"

definition get_running :: "instance_store \<Rightarrow> instance_record list" where
  "get_running st = filter (\<lambda>r. inst_state r = RUNNING) (list_all_records st)"

text \<open>\<open>(record.emulator_console_port - 5554) // 2\<close>, by which the service finds a record's slot.\<close>

definition slot_of_record :: "instance_record \<Rightarrow> int" where
  "slot_of_record r = (emulator_console_port r - 5554) div 2"

lemma present: "dict_get st k = Some r \<Longrightarrow> k \<in> set (keys st)"
  by (metis dict_get_None_iff option.distinct(1))

lemma absent: "dict_get st k = None \<Longrightarrow> k \<notin> set (keys st)"
  by (simp add: dict_get_None_iff)

interpretation records: record_store store_get add_record store_update store_remove
  by unfold_locales (simp_all del: set_map add: store_get_def add_record_def store_update_def store_remove_def dict_simps present absent fun_eq_iff)

interpretation lease: leases allocate_index release_slot used_slots max_slots
    store_get add_record store_update store_remove slot_of_record
  by unfold_locales

lemma slot_of_make_slot [simp]: "(console_port (make_slot i) - 5554) div 2 = int i"
  by (simp add: make_slot_def base_console_def)

lemma dict_pop_set_new: "k \<notin> set (keys d) \<Longrightarrow> dict_pop k (dict_set k v d) = d"
  by (induction d) auto

lemma dict_set_twice [simp]: "dict_set k v (dict_set k w d) = dict_set k v d"
  by (induction d) auto

end
