(* ===== verification/Sys.thy ===== *)
theory Sys
  imports Instance_Store Py_Strings
begin

text \<open>
  The ground of the instance manager's effects.  An operation is a \<open>prog\<close>: from the operating
  system's answers and the manager's state it computes a result or an exception and the new state, or
  \<open>None\<close> if it never returns.  Every call that leaves the program is recorded in the trace
  (newest first), and the operating system's answer to a call may depend on the whole trace before it.
  The second half is the program logic: which parts of the state an operation leaves alone
  (\<open>quiet\<close>), what holds before and after it (\<open>triple\<close>) and that it returns (\<open>total\<close>).
\<close>

section \<open>Calls, answers and state\<close>

datatype signal = SIGTERM | SIGKILL

datatype sys_call =
    Ran "string list" "seconds option"
  | Spawned "string list" "int result"
  | PipeWrote string string
  | ReadClock
  | Slept seconds
  | AskedExists string
  | AskedSize string
  | ReadBytes string
  | ReadText string
  | Truncated string
  | Appended string string
  | MadeTemp string "string result"
  | WroteTemp string bytes
  | Unlinked string
  | Polled int "int option"
  | Waited int seconds "int result"
  | Terminated int "unit result"
  | Killed int "unit result"
  | AskedPgid int
  | KilledGroup int signal
  | ReadMonotonic
  | MadeDir string "string result"
  | StartedThread string
  | JoinedThread string seconds
  | RemovedTree string
  | MadeDirs string
  | Interrupted int "unit result"

text \<open>
  The answers.  \<open>run\<close> is \<open>subprocess.run\<close> with its timeout (the completed process or
  \<open>TimeoutExpired\<close>, \<open>FileNotFoundError\<close> and so on), \<open>popen\<close> the pid of the
  started process; a process handle is its pid.  \<open>frames_of\<close>, \<open>stop_set_of\<close> and
  \<open>thread_alive_of\<close> are what one thread sees of the capture session another one writes.  The
  environment variables do not change.
\<close>

record os =
  run_of :: "sys_call list \<Rightarrow> string list \<Rightarrow> seconds option \<Rightarrow> completed result"
  popen_of :: "sys_call list \<Rightarrow> string list \<Rightarrow> int result"
  pipe_write_of :: "sys_call list \<Rightarrow> string \<Rightarrow> string \<Rightarrow> unit result"
  clock_of :: "sys_call list \<Rightarrow> seconds"
  exists_of :: "sys_call list \<Rightarrow> string \<Rightarrow> bool"
  size_of :: "sys_call list \<Rightarrow> string \<Rightarrow> nat result"
  bytes_of :: "sys_call list \<Rightarrow> string \<Rightarrow> bytes result"
  text_of :: "sys_call list \<Rightarrow> string \<Rightarrow> string result"
  truncate_of :: "sys_call list \<Rightarrow> string \<Rightarrow> unit result"
  append_of :: "sys_call list \<Rightarrow> string \<Rightarrow> string \<Rightarrow> unit result"
  mkstemp_of :: "sys_call list \<Rightarrow> string \<Rightarrow> string result"
  write_of :: "sys_call list \<Rightarrow> string \<Rightarrow> bytes \<Rightarrow> unit result"
  unlink_of :: "sys_call list \<Rightarrow> string \<Rightarrow> unit result"
  poll_of :: "sys_call list \<Rightarrow> int \<Rightarrow> int option"
  wait_of :: "sys_call list \<Rightarrow> int \<Rightarrow> seconds \<Rightarrow> int result"
  terminate_of :: "sys_call list \<Rightarrow> int \<Rightarrow> unit result"
  kill_of :: "sys_call list \<Rightarrow> int \<Rightarrow> unit result"
  getpgid_of :: "sys_call list \<Rightarrow> int \<Rightarrow> int result"
  killpg_of :: "sys_call list \<Rightarrow> int \<Rightarrow> signal \<Rightarrow> unit result"
  monotonic_of :: "sys_call list \<Rightarrow> seconds"
  mkdtemp_of :: "sys_call list \<Rightarrow> string \<Rightarrow> string result"
  uuid_of :: "sys_call list \<Rightarrow> string"
  thread_alive_of :: "sys_call list \<Rightarrow> string \<Rightarrow> bool"
  stop_set_of :: "sys_call list \<Rightarrow> string \<Rightarrow> bool"
  frames_of :: "sys_call list \<Rightarrow> string \<Rightarrow> nat"
  env_of :: "string \<Rightarrow> string option"
  expanduser_of :: "string \<Rightarrow> string"
  makedirs_of :: "sys_call list \<Rightarrow> string \<Rightarrow> unit result"
  interrupt_of :: "sys_call list \<Rightarrow> int \<Rightarrow> unit result"

text \<open>The Popen objects of an instance, by pid.\<close>

record process_handles =
  h_emulator :: "int option"
  h_dhu :: "int option"
  h_keeper :: "int option"
  h_socat :: "int option"

definition no_handles :: process_handles where
  "no_handles = \<lparr>h_emulator = None, h_dhu = None, h_keeper = None, h_socat = None\<rparr>"

text \<open>An active video capture.\<close>

record capture_session =
  capture_id :: string
  capture_instance :: string
  target_fps :: int
  max_duration_s :: int
  frame_dir :: string
  started_at :: seconds

text \<open>
  The codes \<open>context.abort\<close> is called with, and its details: a text of the handler, or
  \<open>str(e)\<close> of the exception it caught.
\<close>

datatype status_code =
  INVALID_ARGUMENT | NOT_FOUND | ALREADY_EXISTS | RESOURCE_EXHAUSTED | FAILED_PRECONDITION | INTERNAL

datatype details = Message string | StrOf exn

text \<open>
  The manager's state: the store, the lifecycle's \<open>_handles\<close> and timeouts, the port allocator,
  the capture sessions, the status the current RPC's context holds, and the local variable \<open>handles\<close> of the
  \<open>create\<close> in progress (which its \<open>except\<close> clause reads).
\<close>

record sys =
  instances :: instance_store
  tracked :: "(string, process_handles) dict"
  ports :: port_allocator
  captures :: "(string, capture_session) dict"
  boot_timeout :: int
  dhu_timeout :: int
  rpc_status :: "(status_code \<times> details) option"
  new_handles :: process_handles
  trace :: "sys_call list"

section \<open>Programs\<close>

type_synonym 'a prog = "os \<Rightarrow> sys \<Rightarrow> ('a result \<times> sys) option"

definition return :: "'a \<Rightarrow> 'a prog" where
  "return x = (\<lambda>os s. Some (Inr x, s))"

definition raise :: "exn \<Rightarrow> 'a prog" where
  "raise e = (\<lambda>os s. Some (Inl e, s))"

definition bind :: "'a prog \<Rightarrow> ('a \<Rightarrow> 'b prog) \<Rightarrow> 'b prog" where
  "bind m f = (\<lambda>os s. case m os s of
       None \<Rightarrow> None
     | Some (Inl e, s') \<Rightarrow> Some (Inl e, s')
     | Some (Inr x, s') \<Rightarrow> f x os s')"

abbreviation andthen :: "'a prog \<Rightarrow> 'b prog \<Rightarrow> 'b prog" where
  "andthen m n \<equiv> bind m (\<lambda>_. n)"

definition attempt :: "'a prog \<Rightarrow> 'a result prog" where
  "attempt m = (\<lambda>os s. case m os s of None \<Rightarrow> None | Some (r, s') \<Rightarrow> Some (Inr r, s'))"

definition of_result :: "'a result \<Rightarrow> 'a prog" where
  "of_result r = (\<lambda>os s. Some (r, s))"

text \<open>\<open>try: m except: h\<close>, with \<open>h\<close> reraising what it does not catch, and \<open>try: m finally: f\<close>.\<close>

definition catch :: "'a prog \<Rightarrow> (exn \<Rightarrow> 'a prog) \<Rightarrow> 'a prog" where
  "catch m h = bind (attempt m) (\<lambda>r. case r of Inl e \<Rightarrow> h e | Inr x \<Rightarrow> return x)"

definition ensuring :: "'a prog \<Rightarrow> unit prog \<Rightarrow> 'a prog" where
  "ensuring m f = bind (attempt m) (\<lambda>r. andthen f (of_result r))"

text \<open>\<open>try: m except <class>: pass\<close>\<close>

definition ignoring :: "(exn \<Rightarrow> bool) \<Rightarrow> unit prog \<Rightarrow> unit prog" where
  "ignoring c m = catch m (\<lambda>e. if c e then return () else raise e)"

abbreviation unless_that :: "bool \<Rightarrow> unit prog \<Rightarrow> unit prog" where
  "unless_that b m \<equiv> (if b then return () else m)"

abbreviation when_that :: "bool \<Rightarrow> unit prog \<Rightarrow> unit prog" where
  "when_that b m \<equiv> (if b then m else return ())"

primrec for_each :: "('a \<Rightarrow> unit prog) \<Rightarrow> 'a list \<Rightarrow> unit prog" where
  "for_each f [] = return ()"
| "for_each f (x # xs) = andthen (f x) (for_each f xs)"

text \<open>Runs \<open>m\<close> until it gives \<open>Some v\<close>.\<close>

partial_function (option) again :: "'a option prog \<Rightarrow> 'a prog" where
  "again m os s = (case m os s of
       None \<Rightarrow> None
     | Some (Inl e, s') \<Rightarrow> Some (Inl e, s')
     | Some (Inr (Some v), s') \<Rightarrow> Some (Inr v, s')
     | Some (Inr None, s') \<Rightarrow> again m os s')"

text \<open>The same with a loop state: \<open>Inl\<close> goes on with a new state, \<open>Inr\<close> leaves with a result.\<close>

partial_function (option) iterate :: "('s \<Rightarrow> ('s + 'a) prog) \<Rightarrow> 's \<Rightarrow> 'a prog" where
  "iterate m x os s = (case m x os s of
       None \<Rightarrow> None
     | Some (Inl e, s') \<Rightarrow> Some (Inl e, s')
     | Some (Inr (Inr v), s') \<Rightarrow> Some (Inr v, s')
     | Some (Inr (Inl y), s') \<Rightarrow> iterate m y os s')"

declare again.simps [code] iterate.simps [code]

section \<open>State access\<close>

definition gets :: "(sys \<Rightarrow> 'a) \<Rightarrow> 'a prog" where
  "gets f = (\<lambda>os s. Some (Inr (f s), s))"

definition modify :: "(sys \<Rightarrow> sys) \<Rightarrow> unit prog" where
  "modify f = (\<lambda>os s. Some (Inr (), f s))"

definition on_store :: "(instance_store \<Rightarrow> 'a result \<times> instance_store) \<Rightarrow> 'a prog" where
  "on_store f = (\<lambda>os s. case f (instances s) of (r, st) \<Rightarrow> Some (r, s\<lparr>instances := st\<rparr>))"

definition on_ports :: "(port_allocator \<Rightarrow> 'a result \<times> port_allocator) \<Rightarrow> 'a prog" where
  "on_ports f = (\<lambda>os s. case f (ports s) of (r, p) \<Rightarrow> Some (r, s\<lparr>ports := p\<rparr>))"

abbreviation get_instance :: "string \<Rightarrow> instance_record option prog" where
  "get_instance name \<equiv> gets (\<lambda>s. store_get (instances s) name)"

abbreviation update_instance :: "string \<Rightarrow> (instance_record \<Rightarrow> instance_record) \<Rightarrow> unit prog" where
  "update_instance name f \<equiv> on_store (store_update name f)"

abbreviation set_new_handles :: "(process_handles \<Rightarrow> process_handles) \<Rightarrow> unit prog" where
  "set_new_handles f \<equiv> modify (\<lambda>s. s\<lparr>new_handles := f (new_handles s)\<rparr>)"

text \<open>\<open>context.abort(code, details)\<close> sets the status and raises; a second abort overwrites it.\<close>

definition abort :: "status_code \<Rightarrow> details \<Rightarrow> 'a prog" where
  "abort c d = andthen (modify (\<lambda>s. s\<lparr>rpc_status := Some (c, d)\<rparr>)) (raise RpcAbort)"

section \<open>Calls\<close>

definition ask :: "(os \<Rightarrow> sys_call list \<Rightarrow> 'a result) \<Rightarrow> ('a result \<Rightarrow> sys_call) \<Rightarrow> 'a prog" where
  "ask f c = (\<lambda>os s. Some (f os (trace s), s\<lparr>trace := c (f os (trace s)) # trace s\<rparr>))"

definition run_within :: "seconds option \<Rightarrow> string list \<Rightarrow> completed prog" where
  "run_within t argv = ask (\<lambda>os h. run_of os h argv t) (\<lambda>_. Ran argv t)"

abbreviation run :: "string list \<Rightarrow> completed prog" where
  "run \<equiv> run_within None"

text \<open>\<open>check=True\<close>\<close>

definition run_check :: "string list \<Rightarrow> completed prog" where
  "run_check argv = bind (run argv) (\<lambda>r. if returncode r \<noteq> 0 then raise CalledProcessError else return r)"

definition popen :: "string list \<Rightarrow> int prog" where
  "popen argv = ask (\<lambda>os h. popen_of os h argv) (Spawned argv)"

definition pipe_write :: "string \<Rightarrow> string \<Rightarrow> unit prog" where
  "pipe_write path cmd = ask (\<lambda>os h. pipe_write_of os h path (cmd @ [newline])) (\<lambda>_. PipeWrote path (cmd @ [newline]))"

definition time_time :: "seconds prog" where
  "time_time = ask (\<lambda>os h. Inr (clock_of os h)) (\<lambda>_. ReadClock)"

definition sleep :: "seconds \<Rightarrow> unit prog" where
  "sleep d = ask (\<lambda>os h. Inr ()) (\<lambda>_. Slept d)"

definition path_exists :: "string \<Rightarrow> bool prog" where
  "path_exists p = ask (\<lambda>os h. Inr (exists_of os h p)) (\<lambda>_. AskedExists p)"

definition getsize :: "string \<Rightarrow> nat prog" where
  "getsize p = ask (\<lambda>os h. size_of os h p) (\<lambda>_. AskedSize p)"

definition read_bytes :: "string \<Rightarrow> bytes prog" where
  "read_bytes p = ask (\<lambda>os h. bytes_of os h p) (\<lambda>_. ReadBytes p)"

definition read_text :: "string \<Rightarrow> string prog" where
  "read_text p = ask (\<lambda>os h. text_of os h p) (\<lambda>_. ReadText p)"

definition open_w :: "string \<Rightarrow> unit prog" where
  "open_w p = ask (\<lambda>os h. truncate_of os h p) (\<lambda>_. Truncated p)"

definition append_text :: "string \<Rightarrow> string \<Rightarrow> unit prog" where
  "append_text p t = ask (\<lambda>os h. append_of os h p t) (\<lambda>_. Appended p t)"

definition mkstemp :: "string \<Rightarrow> string prog" where
  "mkstemp suffix = ask (\<lambda>os h. mkstemp_of os h suffix) (MadeTemp suffix)"

definition write_bytes :: "string \<Rightarrow> bytes \<Rightarrow> unit prog" where
  "write_bytes p d = ask (\<lambda>os h. write_of os h p d) (\<lambda>_. WroteTemp p d)"

definition unlink :: "string \<Rightarrow> unit prog" where
  "unlink p = ask (\<lambda>os h. unlink_of os h p) (\<lambda>_. Unlinked p)"

definition proc_poll :: "int \<Rightarrow> int option prog" where
  "proc_poll p = ask (\<lambda>os h. Inr (poll_of os h p)) (\<lambda>r. Polled p (case r of Inr x \<Rightarrow> x | Inl _ \<Rightarrow> None))"

definition proc_wait :: "int \<Rightarrow> seconds \<Rightarrow> int prog" where
  "proc_wait p t = ask (\<lambda>os h. wait_of os h p t) (Waited p t)"

definition proc_terminate :: "int \<Rightarrow> unit prog" where
  "proc_terminate p = ask (\<lambda>os h. terminate_of os h p) (Terminated p)"

definition proc_kill :: "int \<Rightarrow> unit prog" where
  "proc_kill p = ask (\<lambda>os h. kill_of os h p) (Killed p)"

definition getpgid :: "int \<Rightarrow> int prog" where
  "getpgid p = ask (\<lambda>os h. getpgid_of os h p) (\<lambda>_. AskedPgid p)"

definition killpg :: "int \<Rightarrow> signal \<Rightarrow> unit prog" where
  "killpg g sig = ask (\<lambda>os h. killpg_of os h g sig) (\<lambda>_. KilledGroup g sig)"

definition time_monotonic :: "seconds prog" where
  "time_monotonic = ask (\<lambda>os h. Inr (monotonic_of os h)) (\<lambda>_. ReadMonotonic)"

definition mkdtemp :: "string \<Rightarrow> string prog" where
  "mkdtemp prefix = ask (\<lambda>os h. mkdtemp_of os h prefix) (MadeDir prefix)"

definition start_thread :: "string \<Rightarrow> unit prog" where
  "start_thread name = ask (\<lambda>os h. Inr ()) (\<lambda>_. StartedThread name)"

definition join_thread :: "string \<Rightarrow> seconds \<Rightarrow> unit prog" where
  "join_thread name t = ask (\<lambda>os h. Inr ()) (\<lambda>_. JoinedThread name t)"

definition rmtree :: "string \<Rightarrow> unit prog" where
  "rmtree p = ask (\<lambda>os h. Inr ()) (\<lambda>_. RemovedTree p)"

text \<open>\<open>os.makedirs(p, exist_ok=True)\<close> and \<open>send_signal(SIGINT)\<close>\<close>

definition makedirs :: "string \<Rightarrow> unit prog" where
  "makedirs p = ask (\<lambda>os h. makedirs_of os h p) (\<lambda>_. MadeDirs p)"

definition proc_interrupt :: "int \<Rightarrow> unit prog" where
  "proc_interrupt p = ask (\<lambda>os h. interrupt_of os h p) (Interrupted p)"

text \<open>Looking at the world without a call of its own.\<close>

definition observe :: "(os \<Rightarrow> sys_call list \<Rightarrow> 'a) \<Rightarrow> 'a prog" where
  "observe f = (\<lambda>os s. Some (Inr (f os (trace s)), s))"

definition environ_get :: "string \<Rightarrow> string option prog" where
  "environ_get v = (\<lambda>os s. Some (Inr (env_of os v), s))"

definition expanduser :: "string \<Rightarrow> string prog" where
  "expanduser p = (\<lambda>os s. Some (Inr (expanduser_of os p), s))"

text \<open>
  \<^verbatim>\<open>deadline = time.time() + timeout; while time.time() < deadline: body\<close>, where the body
  gives \<open>Some v\<close> to return \<open>v\<close>; \<open>None\<close> when the deadline passes.
\<close>

definition deadline_step :: "seconds \<Rightarrow> 'a option prog \<Rightarrow> 'a option option prog" where
  "deadline_step deadline body =
     bind time_time (\<lambda>now.
       if now < deadline
       then bind body (\<lambda>r. return (case r of Some v \<Rightarrow> Some (Some v) | None \<Rightarrow> None))
       else return (Some None))"

definition until_deadline :: "seconds \<Rightarrow> 'a option prog \<Rightarrow> 'a option prog" where
  "until_deadline timeout body =
     bind time_time (\<lambda>t0. again (deadline_step (t0 + timeout) body))"

end
