(* ===== verification/Sys_Logic.thy ===== *)
theory Sys_Logic
  imports Sys
begin

text \<open>
  The program logic for \<open>prog\<close>: \<open>quiet\<close> operations only make calls that start no process,
  \<open>triple\<close> is the partial-correctness triple over results and exceptions alike, and \<open>terminates\<close>
  operations return from every state when the clock moves on by at least the time slept.
\<close>

named_theorems quiet_intros "operations that change nothing but the trace and start no process"
named_theorems term_intros "operations that return"
named_theorems prog_defs "the operations of the monad, to run a program step by step"

lemmas [prog_defs] = return_def raise_def bind_def attempt_def of_result_def catch_def ensuring_def ignoring_def
  gets_def modify_def on_store_def on_ports_def abort_def ask_def
  run_within_def run_check_def popen_def pipe_write_def time_time_def sleep_def path_exists_def getsize_def
  read_bytes_def read_text_def open_w_def append_text_def mkstemp_def write_bytes_def unlink_def proc_poll_def
  proc_wait_def proc_terminate_def proc_kill_def getpgid_def killpg_def time_monotonic_def mkdtemp_def
  start_thread_def join_thread_def rmtree_def makedirs_def proc_interrupt_def observe_def environ_get_def expanduser_def

lemmas call_defs = run_within_def pipe_write_def time_time_def sleep_def path_exists_def getsize_def
  read_bytes_def read_text_def open_w_def append_text_def mkstemp_def write_bytes_def unlink_def proc_poll_def
  proc_wait_def proc_terminate_def proc_kill_def getpgid_def killpg_def time_monotonic_def mkdtemp_def
  start_thread_def join_thread_def rmtree_def makedirs_def proc_interrupt_def

section \<open>Running programs\<close>

lemma bind_Some:
  "bind m f os s = Some (r, s') \<longleftrightarrow>
     (\<exists>e. m os s = Some (Inl e, s') \<and> r = Inl e) \<or> (\<exists>x s1. m os s = Some (Inr x, s1) \<and> f x os s1 = Some (r, s'))"
  by (auto simp: bind_def split: option.splits sum.splits)

lemma catch_run: "catch m h os s = (case m os s of None \<Rightarrow> None | Some (Inl e, s') \<Rightarrow> h e os s' | Some (Inr x, s') \<Rightarrow> Some (Inr x, s'))"
  by (auto simp: catch_def bind_def attempt_def return_def split: option.splits sum.splits)

lemma bind_run: "bind m f os s = (case m os s of None \<Rightarrow> None | Some (Inl e, s') \<Rightarrow> Some (Inl e, s') | Some (Inr x, s') \<Rightarrow> f x os s')"
  by (simp add: bind_def)

lemma attempt_Some: "attempt m os s = Some (r, s') \<longleftrightarrow> (\<exists>q. r = Inr q \<and> m os s = Some (q, s'))"
  by (auto simp: attempt_def split: option.splits)

lemma catch_Some:
  "catch m h os s = Some (r, s') \<longleftrightarrow>
     (\<exists>x. m os s = Some (Inr x, s') \<and> r = Inr x) \<or> (\<exists>e s1. m os s = Some (Inl e, s1) \<and> h e os s1 = Some (r, s'))"
  by (auto simp: catch_def bind_def attempt_def return_def split: option.splits sum.splits)

lemma ensuring_Some:
  "ensuring m f os s = Some (r, s') \<longleftrightarrow>
     (\<exists>q s1. m os s = Some (q, s1) \<and>
        ((\<exists>e. f os s1 = Some (Inl e, s') \<and> r = Inl e) \<or> (f os s1 = Some (Inr (), s') \<and> r = q)))"
  by (auto simp: ensuring_def bind_def attempt_def of_result_def split: option.splits sum.splits)

lemma bind_assoc: "bind (bind m f) g = bind m (\<lambda>x. bind (f x) g)"
  by (auto simp: bind_def fun_eq_iff split: option.splits sum.splits)

lemma again_Some:
  assumes ret: "again m os s = Some (r, s')" and start: "I s"
    and err: "\<And>s1 e s2. I s1 \<Longrightarrow> m os s1 = Some (Inl e, s2) \<Longrightarrow> Q (Inl e) s2"
    and leave: "\<And>s1 v s2. I s1 \<Longrightarrow> m os s1 = Some (Inr (Some v), s2) \<Longrightarrow> Q (Inr v) s2"
    and go_on: "\<And>s1 s2. I s1 \<Longrightarrow> m os s1 = Some (Inr None, s2) \<Longrightarrow> I s2"
  shows "Q r s'"
proof -
  have "m = m \<longrightarrow> os = os \<longrightarrow> I s \<longrightarrow> Q (fst (r, s')) (snd (r, s'))"
  proof (rule again.raw_induct
      [where P = "\<lambda>m' os' s y. m' = m \<longrightarrow> os' = os \<longrightarrow> I s \<longrightarrow> Q (fst y) (snd y)", OF _ ret])
    fix f :: "'a option prog \<Rightarrow> 'a prog" and m' os' s1 y
    assume IH: "\<And>m' os' s y. f m' os' s = Some y \<Longrightarrow> m' = m \<longrightarrow> os' = os \<longrightarrow> I s \<longrightarrow> Q (fst y) (snd y)"
      and eq: "(case m' os' s1 of None \<Rightarrow> None | Some (Inl e, s') \<Rightarrow> Some (Inl e, s')
         | Some (Inr (Some v), s') \<Rightarrow> Some (Inr v, s') | Some (Inr None, s') \<Rightarrow> f m' os' s') = Some y"
    show "m' = m \<longrightarrow> os' = os \<longrightarrow> I s1 \<longrightarrow> Q (fst y) (snd y)"
    proof (intro impI)
      assume [simp]: "m' = m" "os' = os" and I: "I s1"
      from eq obtain q s2 where run: "m os s1 = Some (q, s2)" by (auto split: option.splits)
      show "Q (fst y) (snd y)"
      proof (cases q)
        case (Inl e)
        with err [OF I] run eq show ?thesis by auto
      next
        case (Inr v)
        show ?thesis
        proof (cases v)
          case None
          with go_on [OF I] run eq Inr IH [of m os s2 y] show ?thesis by simp
        next
          case (Some w)
          with leave [OF I] run eq Inr show ?thesis by auto
        qed
      qed
    qed
  qed
  then show ?thesis using start by simp
qed

section \<open>Triples\<close>

definition triple :: "os \<Rightarrow> (sys \<Rightarrow> bool) \<Rightarrow> 'a prog \<Rightarrow> ('a result \<Rightarrow> sys \<Rightarrow> bool) \<Rightarrow> bool" where
  "triple os P m Q \<longleftrightarrow> (\<forall>s r s'. P s \<longrightarrow> m os s = Some (r, s') \<longrightarrow> Q r s')"

lemma tripleI: "(\<And>s r s'. P s \<Longrightarrow> m os s = Some (r, s') \<Longrightarrow> Q r s') \<Longrightarrow> triple os P m Q"
  by (simp add: triple_def)

lemma tripleD: "triple os P m Q \<Longrightarrow> P s \<Longrightarrow> m os s = Some (r, s') \<Longrightarrow> Q r s'"
  by (simp add: triple_def)

lemma triple_mono: "triple os P m Q \<Longrightarrow> (\<And>s. P' s \<Longrightarrow> P s) \<Longrightarrow> (\<And>r s. Q r s \<Longrightarrow> Q' r s) \<Longrightarrow> triple os P' m Q'"
  unfolding triple_def by blast

lemma triple_return: "(\<And>s. P s \<Longrightarrow> Q (Inr x) s) \<Longrightarrow> triple os P (return x) Q"
  by (simp add: triple_def return_def)

lemma triple_raise: "(\<And>s. P s \<Longrightarrow> Q (Inl e) s) \<Longrightarrow> triple os P (raise e) Q"
  by (simp add: triple_def raise_def)

lemma triple_bind:
  assumes "triple os P m R" "\<And>x. triple os (R (Inr x)) (f x) Q" "\<And>e s. R (Inl e) s \<Longrightarrow> Q (Inl e) s"
  shows "triple os P (bind m f) Q"
  using assms unfolding triple_def bind_Some by blast

lemma triple_catch:
  assumes "triple os P m R" "\<And>e. triple os (R (Inl e)) (h e) Q" "\<And>x s. R (Inr x) s \<Longrightarrow> Q (Inr x) s"
  shows "triple os P (catch m h) Q"
  using assms unfolding triple_def catch_Some by blast

lemma triple_ensuring:
  assumes "triple os P m R"
    and "\<And>q. triple os (R q) f (\<lambda>r s. case r of Inl e \<Rightarrow> Q (Inl e) s | Inr _ \<Rightarrow> Q q s)"
  shows "triple os P (ensuring m f) Q"
  using assms unfolding triple_def ensuring_Some by fastforce

lemma triple_gets: "(\<And>s. P s \<Longrightarrow> Q (Inr (f s)) s) \<Longrightarrow> triple os P (gets f) Q"
  by (simp add: triple_def gets_def)

lemma triple_modify: "(\<And>s. P s \<Longrightarrow> Q (Inr ()) (f s)) \<Longrightarrow> triple os P (modify f) Q"
  by (simp add: triple_def modify_def)

lemma triple_on_store:
  "(\<And>s. P s \<Longrightarrow> Q (fst (f (instances s))) (s\<lparr>instances := snd (f (instances s))\<rparr>)) \<Longrightarrow>
   triple os P (on_store f) Q"
  by (simp add: triple_def on_store_def split_beta)

lemma triple_on_ports:
  "(\<And>s. P s \<Longrightarrow> Q (fst (f (ports s))) (s\<lparr>ports := snd (f (ports s))\<rparr>)) \<Longrightarrow>
   triple os P (on_ports f) Q"
  by (simp add: triple_def on_ports_def split_beta)

section \<open>Quiet operations\<close>

text \<open>The pids of the processes started in a trace.\<close>

fun started_by :: "sys_call \<Rightarrow> int list" where
  "started_by (Spawned _ (Inr p)) = [p]"
| "started_by _ = []"

definition started :: "sys_call list \<Rightarrow> int list" where
  "started h = concat (map started_by h)"

lemma started_simps [simp]:
  "started [] = []" "started (c # h) = started_by c @ started h" "started (g @ h) = started g @ started h"
  by (simp_all add: started_def)

definition quiet :: "os \<Rightarrow> 'a prog \<Rightarrow> bool" where
  "quiet os m \<longleftrightarrow> (\<forall>s r s'. m os s = Some (r, s') \<longrightarrow>
     (\<exists>new. s' = s\<lparr>trace := new @ trace s\<rparr> \<and> started new = []))"

lemma quietD:
  assumes "quiet os m" "m os s = Some (r, s')"
  obtains new where "s' = s\<lparr>trace := new @ trace s\<rparr>" "started new = []"
  using assms unfolding quiet_def by blast

lemma quiet_return [quiet_intros]: "quiet os (return x)"
  unfolding quiet_def return_def by (auto intro!: exI [of _ "[]"])

lemma quiet_raise [quiet_intros]: "quiet os (raise e)"
  unfolding quiet_def raise_def by (auto intro!: exI [of _ "[]"])

lemma quiet_of_result [quiet_intros]: "quiet os (of_result r)"
  unfolding quiet_def of_result_def by (auto intro!: exI [of _ "[]"])

lemma quiet_gets [quiet_intros]: "quiet os (gets f)"
  unfolding quiet_def gets_def by (auto intro!: exI [of _ "[]"])

lemma quiet_env [quiet_intros]: "quiet os (environ_get v)" "quiet os (expanduser p)"
  unfolding quiet_def environ_get_def expanduser_def by (auto intro!: exI [of _ "[]"])

lemma quiet_observe [quiet_intros]: "quiet os (observe f)"
  unfolding quiet_def observe_def by (auto intro!: exI [of _ "[]"])

lemma quiet_ask: "(\<And>r. started_by (c r) = []) \<Longrightarrow> quiet os (ask f c)"
  unfolding quiet_def ask_def by (auto intro!: exI [of _ "[_]"])

lemma quiet_trans:
  assumes "s1 = s\<lparr>trace := new @ trace s\<rparr>" "started new = []" "s2 = s1\<lparr>trace := new' @ trace s1\<rparr>" "started new' = []"
  shows "\<exists>new. s2 = s\<lparr>trace := new @ trace s\<rparr> \<and> started new = []"
  using assms by (intro exI [of _ "new' @ new"]) simp

lemma quiet_bind [quiet_intros]:
  assumes m: "quiet os m" and f: "\<And>x. quiet os (f x)"
  shows "quiet os (bind m f)"
  unfolding quiet_def bind_Some
proof (intro allI impI, elim disjE exE conjE)
  fix s r s' e assume "m os s = Some (Inl e, s')"
  then show "\<exists>new. s' = s\<lparr>trace := new @ trace s\<rparr> \<and> started new = []" using m by (auto elim: quietD)
next
  fix s r s' x s1 assume run: "m os s = Some (Inr x, s1)" "f x os s1 = Some (r, s')"
  from m run(1) obtain new where new: "s1 = s\<lparr>trace := new @ trace s\<rparr>" "started new = []" by (rule quietD)
  from f run(2) obtain new' where "s' = s1\<lparr>trace := new' @ trace s1\<rparr>" "started new' = []" by (rule quietD)
  with new show "\<exists>new. s' = s\<lparr>trace := new @ trace s\<rparr> \<and> started new = []" by (rule quiet_trans)
qed

lemma quiet_attempt [quiet_intros]: "quiet os m \<Longrightarrow> quiet os (attempt m)"
  unfolding quiet_def attempt_Some by blast

lemma quiet_catch [quiet_intros]: "quiet os m \<Longrightarrow> (\<And>e. quiet os (h e)) \<Longrightarrow> quiet os (catch m h)"
  unfolding catch_def by (intro quiet_intros) (auto split: sum.split intro: quiet_intros)

lemma quiet_ensuring [quiet_intros]: "quiet os m \<Longrightarrow> quiet os f \<Longrightarrow> quiet os (ensuring m f)"
  unfolding ensuring_def by (intro quiet_intros)

lemma quiet_ignoring [quiet_intros]: "quiet os m \<Longrightarrow> quiet os (ignoring c m)"
  unfolding ignoring_def by (intro quiet_intros) (auto intro: quiet_intros)

lemma quiet_if [quiet_intros]: "(b \<Longrightarrow> quiet os m) \<Longrightarrow> (\<not> b \<Longrightarrow> quiet os n) \<Longrightarrow> quiet os (if b then m else n)"
  by simp

lemma quiet_case_option [quiet_intros]:
  "quiet os m \<Longrightarrow> (\<And>x. quiet os (f x)) \<Longrightarrow> quiet os (case v of None \<Rightarrow> m | Some x \<Rightarrow> f x)"
  by (cases v) auto

lemma quiet_for_each [quiet_intros]: "(\<And>x. quiet os (f x)) \<Longrightarrow> quiet os (for_each f xs)"
  by (induction xs) (auto intro: quiet_intros)

lemma quiet_again [quiet_intros]:
  assumes "quiet os m"
  shows "quiet os (again m)"
  unfolding quiet_def
proof (intro allI impI)
  fix s r s' assume run: "again m os s = Some (r, s')"
  let ?I = "\<lambda>s'. \<exists>new. s' = s\<lparr>trace := new @ trace s\<rparr> \<and> started new = []"
  have step: "?I s2" if "?I s1" "m os s1 = Some (q, s2)" for s1 q s2
    using that(1) quietD [OF assms that(2)] by (elim exE conjE) (metis quiet_trans)
  have "?I s" by (intro exI [of _ "[]"]) simp
  then show "?I s'" by (rule again_Some [OF run, where I = ?I and Q = "\<lambda>_. ?I"]) (rule step; assumption)+
qed

lemma quiet_calls [quiet_intros]:
  "quiet os (run_within t argv)" "quiet os (pipe_write p c)" "quiet os time_time" "quiet os (sleep d)"
  "quiet os (path_exists p)" "quiet os (getsize p)" "quiet os (read_bytes p)" "quiet os (read_text p)"
  "quiet os (open_w p)" "quiet os (append_text p c)" "quiet os (mkstemp c)" "quiet os (write_bytes p bs)"
  "quiet os (unlink p)" "quiet os (proc_poll pid)" "quiet os (proc_wait pid d)" "quiet os (proc_terminate pid)"
  "quiet os (proc_kill pid)" "quiet os (getpgid pid)" "quiet os (killpg pid sig)" "quiet os time_monotonic"
  "quiet os (mkdtemp c)" "quiet os (start_thread c)" "quiet os (join_thread c d)" "quiet os (rmtree c)"
  "quiet os (makedirs c)" "quiet os (proc_interrupt pid)"
  by (simp_all add: call_defs quiet_ask)

lemma quiet_run_check [quiet_intros]: "quiet os (run_check argv)"
  unfolding run_check_def by (intro quiet_intros)

lemma quiet_until_deadline [quiet_intros]: "quiet os body \<Longrightarrow> quiet os (until_deadline t body)"
  unfolding until_deadline_def deadline_step_def by (intro quiet_intros)

text \<open>What a quiet operation keeps: every property of the rest of the state and of the processes started.\<close>

lemma triple_quiet:
  assumes "quiet os m" "\<And>s new. P s \<Longrightarrow> started new = [] \<Longrightarrow> P (s\<lparr>trace := new @ trace s\<rparr>)"
  shows "triple os P m (\<lambda>_. P)"
  using assms unfolding triple_def quiet_def by blast

section \<open>Termination\<close>

text \<open>
  A clock that is not set back and that moves on while the program sleeps.  This is what the program
  relies on when it waits until a deadline.
\<close>

definition steady_clock :: "os \<Rightarrow> bool" where
  "steady_clock os \<longleftrightarrow>
     (\<forall>c h. clock_of os h \<le> clock_of os (c # h)) \<and> (\<forall>d h. clock_of os h + d \<le> clock_of os (Slept d # h))"

definition terminates :: "os \<Rightarrow> 'a prog \<Rightarrow> bool" where
  "terminates os m \<longleftrightarrow> (\<forall>s. \<exists>r s'. m os s = Some (r, s'))"

lemma terminatesE: assumes "terminates os m" obtains r s' where "m os s = Some (r, s')"
  using assms unfolding terminates_def by blast

lemma term_basic [term_intros]:
  "terminates os (return x)" "terminates os (raise e)" "terminates os (of_result r)" "terminates os (gets f)" "terminates os (modify g)"
  "terminates os (on_store h)" "terminates os (on_ports k)" "terminates os (environ_get v)" "terminates os (expanduser p)"
  "terminates os (ask a c)" "terminates os (observe b)"
  by (simp_all add: observe_def terminates_def return_def raise_def of_result_def gets_def modify_def on_store_def on_ports_def
      environ_get_def expanduser_def ask_def split_beta)

lemma term_bind [term_intros]: "terminates os m \<Longrightarrow> (\<And>x. terminates os (f x)) \<Longrightarrow> terminates os (bind m f)"
  unfolding terminates_def bind_Some by (metis sum.exhaust)

lemma term_attempt [term_intros]: "terminates os m \<Longrightarrow> terminates os (attempt m)"
  unfolding terminates_def attempt_Some by blast

lemma term_catch [term_intros]: "terminates os m \<Longrightarrow> (\<And>e. terminates os (h e)) \<Longrightarrow> terminates os (catch m h)"
  unfolding catch_def by (intro term_intros) (auto split: sum.split intro: term_intros)

lemma term_ensuring [term_intros]: "terminates os m \<Longrightarrow> terminates os f \<Longrightarrow> terminates os (ensuring m f)"
  unfolding ensuring_def by (intro term_intros)

lemma term_ignoring [term_intros]: "terminates os m \<Longrightarrow> terminates os (ignoring c m)"
  unfolding ignoring_def by (intro term_intros) (auto intro: term_intros)

lemma term_abort [term_intros]: "terminates os (abort c d)"
  unfolding abort_def by (intro term_intros)

lemma term_if [term_intros]: "(b \<Longrightarrow> terminates os m) \<Longrightarrow> (\<not> b \<Longrightarrow> terminates os n) \<Longrightarrow> terminates os (if b then m else n)"
  by simp

lemma term_case_option [term_intros]:
  "terminates os m \<Longrightarrow> (\<And>x. terminates os (f x)) \<Longrightarrow> terminates os (case v of None \<Rightarrow> m | Some x \<Rightarrow> f x)"
  by (cases v) auto

lemma term_for_each [term_intros]: "(\<And>x. terminates os (f x)) \<Longrightarrow> terminates os (for_each f xs)"
  by (induction xs) (auto intro: term_intros)

lemma term_calls [term_intros]:
  "terminates os (run_within t argv)" "terminates os (pipe_write p c)" "terminates os time_time" "terminates os (sleep d)"
  "terminates os (path_exists p)" "terminates os (getsize p)" "terminates os (read_bytes p)" "terminates os (read_text p)"
  "terminates os (open_w p)" "terminates os (append_text p c)" "terminates os (mkstemp c)" "terminates os (write_bytes p bs)"
  "terminates os (unlink p)" "terminates os (proc_poll pid)" "terminates os (proc_wait pid d)" "terminates os (proc_terminate pid)"
  "terminates os (proc_kill pid)" "terminates os (getpgid pid)" "terminates os (killpg pid sig)" "terminates os (popen argv)"
  "terminates os time_monotonic" "terminates os (mkdtemp c)" "terminates os (start_thread c)" "terminates os (join_thread c d)"
  "terminates os (rmtree c)" "terminates os (makedirs c)" "terminates os (proc_interrupt pid)"
  by (simp_all add: call_defs popen_def term_basic)

lemma term_run_check [term_intros]: "terminates os (run_check argv)"
  unfolding run_check_def by (intro term_intros)

lemma term_again:
  fixes \<mu> :: "sys \<Rightarrow> nat"
  assumes "terminates os m" and less: "\<And>s s'. m os s = Some (Inr None, s') \<Longrightarrow> \<mu> s' < \<mu> s"
  shows "terminates os (again m)"
  unfolding terminates_def
proof
  fix s show "\<exists>r s'. again m os s = Some (r, s')"
  proof (induction "\<mu> s" arbitrary: s rule: less_induct)
    case less
    from assms(1) obtain q s1 where run: "m os s = Some (q, s1)" by (rule terminatesE)
    show ?case
    proof (cases "q = Inr None")
      case True
      with run less assms(2) [of s s1] have "\<exists>r s'. again m os s1 = Some (r, s')" by simp
      with run True show ?thesis by (simp add: again.simps [of m os s])
    next
      case False
      with run show ?thesis by (auto simp: again.simps [of m os s] split: sum.splits option.splits)
    qed
  qed
qed

text \<open>A loop body that goes on only after at least \<open>d\<close> seconds.\<close>

named_theorems slow_intros "loop bodies that take their time"

definition slow :: "os \<Rightarrow> seconds \<Rightarrow> 'a option prog \<Rightarrow> bool" where
  "slow os d m \<longleftrightarrow> (\<forall>s s'. m os s = Some (Inr None, s') \<longrightarrow> clock_of os (trace s) + d \<le> clock_of os (trace s'))"

lemma clock_extends: "steady_clock os \<Longrightarrow> clock_of os h \<le> clock_of os (new @ h)"
  unfolding steady_clock_def by (induction new) (auto intro: order_trans)

lemma clock_quiet: "steady_clock os \<Longrightarrow> quiet os m \<Longrightarrow> m os s = Some (r, s') \<Longrightarrow>
    clock_of os (trace s) \<le> clock_of os (trace s')"
  by (erule (1) quietD) (simp add: clock_extends)

lemma slow_return [slow_intros]: "slow os d (return (Some x))"
  by (simp add: slow_def return_def)

lemma slow_raise [slow_intros]: "slow os d (raise e)"
  by (simp add: slow_def raise_def)

lemma slow_if [slow_intros]: "(b \<Longrightarrow> slow os d m) \<Longrightarrow> (\<not> b \<Longrightarrow> slow os d n) \<Longrightarrow> slow os d (if b then m else n)"
  by simp

lemma slow_bind:
  "steady_clock os \<Longrightarrow> quiet os m \<Longrightarrow> (\<And>x. slow os d (f x)) \<Longrightarrow> slow os d (bind m f)"
  unfolding slow_def bind_Some by (fastforce dest: clock_quiet)

lemma slow_sleep:
  assumes "steady_clock os" "quiet os m"
  shows "slow os d (andthen (sleep d) m)"
  unfolding slow_def
proof (intro allI impI)
  fix s s' assume "andthen (sleep d) m os s = Some (Inr None, s')"
  then have "m os (s\<lparr>trace := Slept d # trace s\<rparr>) = Some (Inr None, s')"
    by (simp add: bind_def sleep_def ask_def)
  from clock_quiet [OF assms this] have "clock_of os (Slept d # trace s) \<le> clock_of os (trace s')" by simp
  moreover have "clock_of os (trace s) + d \<le> clock_of os (Slept d # trace s)"
    using assms(1) by (simp add: steady_clock_def)
  ultimately show "clock_of os (trace s) + d \<le> clock_of os (trace s')" by (rule order_trans [rotated])
qed

lemma nat_ceiling_less:
  fixes x y d :: rat
  assumes "0 < d" "x + d \<le> y" "x < t"
  shows "nat \<lceil>(t - y) / d\<rceil> < nat \<lceil>(t - x) / d\<rceil>"
proof -
  have "(t - y) / d \<le> (t - (x + d)) / d" using assms by (intro divide_right_mono) auto
  also have "\<dots> = (t - x) / d - 1" using assms(1) by (simp add: diff_divide_distrib add_divide_distrib)
  finally have "(t - y) / d \<le> (t - x) / d - 1" .
  then have "\<lceil>(t - y) / d\<rceil> \<le> \<lceil>(t - x) / d - 1\<rceil>" by (rule ceiling_mono)
  moreover have "0 < \<lceil>(t - x) / d\<rceil>" using assms by simp
  ultimately show ?thesis by linarith
qed

lemma term_until_deadline:
  assumes clock: "steady_clock os" and d: "0 < d" and body: "terminates os body" "slow os d body"
  shows "terminates os (until_deadline timeout body)"
  unfolding until_deadline_def
proof (intro term_intros)
  fix t0
  let ?t = "t0 + timeout"
  show "terminates os (again (deadline_step ?t body))"
  proof (rule term_again [where \<mu> = "\<lambda>s. nat \<lceil>(?t - clock_of os (trace s)) / d\<rceil>"])
    show "terminates os (deadline_step ?t body)"
      unfolding deadline_step_def by (intro term_intros body)
    fix s s' assume "deadline_step ?t body os s = Some (Inr None, s')"
    then have now: "clock_of os (trace s) < ?t"
      and run: "body os (s\<lparr>trace := ReadClock # trace s\<rparr>) = Some (Inr None, s')"
      by (auto simp: deadline_step_def bind_def time_time_def ask_def return_def split: if_splits option.splits sum.splits)
    from body(2) run have "clock_of os (ReadClock # trace s) + d \<le> clock_of os (trace s')"
      by (fastforce simp: slow_def)
    moreover have "clock_of os (trace s) \<le> clock_of os (ReadClock # trace s)"
      using clock by (simp add: steady_clock_def)
    ultimately have "clock_of os (trace s) + d \<le> clock_of os (trace s')" by linarith
    with d now show "nat \<lceil>(?t - clock_of os (trace s')) / d\<rceil> < nat \<lceil>(?t - clock_of os (trace s)) / d\<rceil>"
      by (intro nat_ceiling_less)
  qed
qed

end
