(* ===== verification/Snapshot_Gpu.thy ===== *)
theory Snapshot_Gpu
  imports Sys_Logic
begin

text \<open>
  How the lifecycle finds the GPU mode of a snapshot (\<open>_resolve_gpu_mode\<close> and the two readers
  below it in \<^verbatim>\<open>emulator_lifecycle.py\<close>): from the command line saved in the snapshot's
  protobuf, found as runs of printable bytes, and otherwise from the AVD's \<^verbatim>\<open>config.ini\<close>.
\<close>

section \<open>Reading the files\<close>

definition printable :: "8 word \<Rightarrow> bool" where
  "printable b \<longleftrightarrow> 32 \<le> b \<and> b \<le> 126"

definition byte_char :: "8 word \<Rightarrow> char" where
  "byte_char b = char_of (unat b)"

text \<open>The loop over the bytes, \<open>current\<close> being the run read so far; runs of one character are dropped.\<close>

fun string_runs :: "string \<Rightarrow> bytes \<Rightarrow> string list" where
  "string_runs current [] = (if length current \<ge> 2 then [current] else [])"
| "string_runs current (b # bs) =
     (if printable b then string_runs (current @ [byte_char b]) bs
      else if length current \<ge> 2 then current # string_runs [] bs
      else string_runs [] bs)"

fun gpu_flag :: "string list \<Rightarrow> string option" where
  "gpu_flag (s # t # strings) = (if s = ''-gpu'' then Some t else gpu_flag (t # strings))"
| "gpu_flag _ = None"

definition avd_home :: "string prog" where
  "avd_home = bind (expanduser ''~/.android/avd'') (\<lambda>default_home.
     bind (environ_get ''ANDROID_AVD_HOME'') (\<lambda>v.
     return (case v of Some h \<Rightarrow> h | None \<Rightarrow> default_home)))"

definition snapshot_pb :: "string \<Rightarrow> string \<Rightarrow> string \<Rightarrow> string" where
  "snapshot_pb home avd snapshot = foldl path_join home [avd @ ''.avd'', ''snapshots'', snapshot, ''snapshot.pb'']"

definition config_ini :: "string \<Rightarrow> string \<Rightarrow> string" where
  "config_ini home avd = foldl path_join home [avd @ ''.avd'', ''config.ini'']"

definition read_gpu_from_snapshot :: "string \<Rightarrow> string \<Rightarrow> string option prog" where
  "read_gpu_from_snapshot avd snapshot =
     bind avd_home (\<lambda>home.
     bind (catch
         (bind (read_bytes (snapshot_pb home avd snapshot))
            (\<lambda>bs. return (Some bs)))
         (\<lambda>e. if e = FileNotFoundError then return None else raise e)) (\<lambda>r.
     return (case r of None \<Rightarrow> None | Some bs \<Rightarrow> gpu_flag (string_runs [] bs))))"

text \<open>The lines of a text file, without their line ends.\<close>

function text_lines :: "string \<Rightarrow> string list" where
  "text_lines s =
     (if s = [] then []
      else takeWhile (\<lambda>c. c \<noteq> newline) s # text_lines (drop (Suc (length (takeWhile (\<lambda>c. c \<noteq> newline) s))) s))"
  by pat_completeness auto
termination
  by (relation "measure length") auto

declare text_lines.simps [simp del]

fun gpu_of_config :: "string list \<Rightarrow> string option" where
  "gpu_of_config [] = None"
| "gpu_of_config (line # rest) =
     (case partition_at (CHR ''='') line of
        (key, _, val) \<Rightarrow> if strip key = ''hw.gpu.mode'' then Some (strip val) else gpu_of_config rest)"

definition read_gpu_from_config :: "string \<Rightarrow> string prog" where
  "read_gpu_from_config avd =
     bind avd_home (\<lambda>home.
     let config_path = config_ini home avd
     in bind (catch (read_text config_path)
          (\<lambda>e. if e = FileNotFoundError then raise (RuntimeError (''AVD config not found: '' @ config_path)) else raise e))
        (\<lambda>t. case gpu_of_config (text_lines t) of
            Some mode \<Rightarrow> return mode
          | None \<Rightarrow> raise (RuntimeError (''hw.gpu.mode not found in '' @ config_path))))"

definition resolve_gpu_mode :: "string \<Rightarrow> string \<Rightarrow> string prog" where
  "resolve_gpu_mode avd snapshot =
     bind (read_gpu_from_snapshot avd snapshot) (\<lambda>gpu.
     case gpu of
       Some g \<Rightarrow> if g \<noteq> [] then return g else read_gpu_from_config avd
     | None \<Rightarrow> read_gpu_from_config avd)"

lemma quiet_gpu [quiet_intros]: "quiet os (resolve_gpu_mode avd snapshot)"
  unfolding resolve_gpu_mode_def read_gpu_from_snapshot_def read_gpu_from_config_def avd_home_def Let_def
  by (intro quiet_intros)

lemma terminates_gpu [term_intros]: "terminates os (resolve_gpu_mode avd snapshot)"
  unfolding resolve_gpu_mode_def read_gpu_from_snapshot_def read_gpu_from_config_def avd_home_def Let_def
  by (intro term_intros)

section \<open>What the snapshot reader finds\<close>

text \<open>
  The runs of a file: a run is a maximal stretch of printable bytes.  A printable string of two or more
  characters between unprintable bytes is found as it is, in order.
\<close>

lemma string_runs_printable:
  "\<forall>b \<in> set bs. printable b \<Longrightarrow> string_runs current (bs @ rest) = string_runs (current @ map byte_char bs) rest"
  by (induction bs arbitrary: current) auto

lemma string_runs_sep:
  "\<not> printable c \<Longrightarrow> string_runs current (c # rest) =
     (if length current \<ge> 2 then [current] else []) @ string_runs [] rest"
  by simp

lemma string_runs_cut:
  assumes "\<not> printable c"
  shows "string_runs current (before @ c # after) = string_runs current before @ string_runs [] after"
  using assms by (induction current before rule: string_runs.induct) auto

lemma string_runs_long: "s \<in> set (string_runs current bs) \<Longrightarrow> length s \<ge> 2"
  by (induction current bs rule: string_runs.induct) (auto split: if_splits)

lemma gpu_flag_skip: "''-gpu'' \<notin> set before \<Longrightarrow> gpu_flag (before @ ''-gpu'' # mode # rest) = Some mode"
proof (induction before)
  case (Cons s before)
  then show ?case by (cases before) auto
qed simp

lemma gpu_flag_in: "gpu_flag strings = Some mode \<Longrightarrow> mode \<in> set strings"
  by (induction strings rule: gpu_flag.induct) (auto split: if_splits)

text \<open>The bytes of a text.\<close>

definition text_bytes :: "string \<Rightarrow> bytes" where
  "text_bytes s = map (\<lambda>c. of_nat (code c)) s"

lemma byte_char_text: "map byte_char (text_bytes s) = s"
  by (induction s) (simp_all add: text_bytes_def byte_char_def code_def unat_of_nat take_bit_eq_mod)

end
