(* ===== verification/Emulator_Lifecycle.thy ===== *)
theory Emulator_Lifecycle
  imports Snapshot_Gpu
begin

text \<open>
  \<^verbatim>\<open>instance_manager/src/emulator_lifecycle.py\<close>: every operation of
  \<open>EmulatorLifecycle\<close> as a program over the manager's state.  The lemmas say which operations
  start no process and leave the state alone, and that each of them returns.
\<close>

section \<open>Screenshots\<close>

definition emu_log_path :: "string \<Rightarrow> string" where
  "emu_log_path name = ''/tmp/emu_'' @ name @ ''.log''"

definition serial_of :: "int \<Rightarrow> string" where
  "serial_of port = ''emulator-'' @ show_int port"

definition rm_f :: "string \<Rightarrow> unit prog" where
  "rm_f path = bind (run [''rm'', ''-f'', path]) (\<lambda>_. return ())"

text \<open>The file's bytes, once it exists and is not empty.\<close>

definition take_file :: "string \<Rightarrow> bytes option prog" where
  "take_file path =
     bind (path_exists path) (\<lambda>there.
     if there
     then bind (getsize path) (\<lambda>n.
       if n > 0 then bind (read_bytes path) (\<lambda>bs. return (Some bs)) else return None)
     else return None)"

definition take_or_sleep :: "string \<Rightarrow> bytes option prog" where
  "take_or_sleep path =
     bind (take_file path) (\<lambda>r. if r \<noteq> None then return (Some (the r)) else andthen (sleep (1 / 5)) (return None))"

definition screenshot_to_bytes :: "string \<Rightarrow> string \<Rightarrow> bytes prog" where
  "screenshot_to_bytes name pipe_path =
     (let screenshot_path = ''/tmp/dhu_'' @ name @ ''_screenshot.png''
      in andthen (rm_f screenshot_path)
        (andthen (pipe_write pipe_path (''screenshot '' @ screenshot_path))
        (bind (until_deadline 5 (take_or_sleep screenshot_path)) (\<lambda>r. case r of
            Some bs \<Rightarrow> return bs
          | None \<Rightarrow> raise (TimeoutError ''Screenshot file not created within 5s'')))))"

definition emulator_screenshot_to_bytes :: "string \<Rightarrow> bytes prog" where
  "emulator_screenshot_to_bytes serial =
     (let screenshot_path = ''/tmp/emu_'' @ serial @ ''_screenshot.png''
      in andthen (rm_f screenshot_path)
        (andthen (run [''bash'', ''-c'', ''adb -s '' @ serial @ '' exec-out screencap -p > '' @ screenshot_path])
        (bind (until_deadline 5 (take_or_sleep screenshot_path)) (\<lambda>r. case r of
            Some bs \<Rightarrow> return bs
          | None \<Rightarrow> return []))))"

definition screenshot :: "instance_record \<Rightarrow> bytes prog" where
  "screenshot r = (case inst_pipe_path r of
       Some pipe \<Rightarrow> if pipe \<noteq> [] then screenshot_to_bytes (inst_name r) pipe
         else raise (RuntimeError (''Instance '' @ quote (inst_name r) @ '' has no pipe path''))
     | None \<Rightarrow> raise (RuntimeError (''Instance '' @ quote (inst_name r) @ '' has no pipe path'')))"

definition wait_for_dhu_screenshot :: "string \<Rightarrow> string \<Rightarrow> bytes prog" where
  "wait_for_dhu_screenshot name pipe_path =
     (let screenshot_path = ''/tmp/dhu_'' @ name @ ''_screenshot.png''
      in bind (until_deadline 90
           (andthen (rm_f screenshot_path)
           (andthen (pipe_write pipe_path (''screenshot '' @ screenshot_path))
           (andthen (sleep 2)
           (take_file screenshot_path))))) (\<lambda>r. case r of
         Some bs \<Rightarrow> return bs
       | None \<Rightarrow> raise (TimeoutError ''DHU did not acquire video focus within 90s'')))"

section \<open>Waiting\<close>

definition wait_for_boot :: "string \<Rightarrow> unit prog" where
  "wait_for_boot serial =
     bind (gets boot_timeout) (\<lambda>timeout.
     bind (until_deadline (of_int timeout)
       (bind (run [''adb'', ''-s'', serial, ''shell'', ''getprop'', ''sys.boot_completed'']) (\<lambda>r.
        if strip (stdout r) = ''1'' then return (Some ()) else andthen (sleep 1) (return None)))) (\<lambda>r. case r of
       Some _ \<Rightarrow> return ()
     | None \<Rightarrow> raise (TimeoutError
         (''Emulator '' @ serial @ '' did not boot within '' @ show_int timeout @ ''s''))))"

definition check_snapshot_sentinel :: "string \<Rightarrow> unit prog" where
  "check_snapshot_sentinel serial =
     bind (run [''adb'', ''-s'', serial, ''shell'', ''ls'', ''/data/local/tmp/.vanpilot_snapshot_sentinel'']) (\<lambda>r.
     if returncode r \<noteq> 0
     then raise (RuntimeError (''Snapshot sentinel missing on '' @ serial @
       '': emulator cold-booted instead of resuming snapshot. Check -gpu flag and AVD snapshot name.''))
     else return ())"

definition wait_for_dhu :: "string \<Rightarrow> unit prog" where
  "wait_for_dhu log_path =
     bind (gets dhu_timeout) (\<lambda>timeout.
     bind (until_deadline (of_int timeout)
       (bind (catch (bind (read_text log_path) (\<lambda>t. return (is_infix ''verify returned'' (lower t))))
               (\<lambda>e. if e = FileNotFoundError then return False else raise e)) (\<lambda>connected.
        if connected then return (Some ()) else andthen (sleep (1 / 2)) (return None)))) (\<lambda>r. case r of
       Some _ \<Rightarrow> return ()
     | None \<Rightarrow> raise (TimeoutError
         (''DHU did not complete SSL handshake within '' @ show_int timeout @ ''s''))))"

section \<open>Creating\<close>

definition emulator_args :: "string \<Rightarrow> string \<Rightarrow> bool \<Rightarrow> port_slot \<Rightarrow> string \<Rightarrow> string list" where
  "emulator_args avd snapshot head slot gpu_mode =
     [''emulator'', CHR ''@'' # avd, ''-read-only'', ''-port'', show_int (console_port slot),
      ''-snapshot'', snapshot, ''-no-boot-anim'', ''-gpu'', gpu_mode] @
     (if head then [] else [''-no-window''])"

definition keeper_args :: "string \<Rightarrow> string list" where
  "keeper_args pipe_path = [''bash'', ''-c'', ''while true; do sleep 3600; done > '' @ pipe_path]"

definition dhu_shell_args :: "string \<Rightarrow> int \<Rightarrow> bool \<Rightarrow> string \<Rightarrow> string \<Rightarrow> string list" where
  "dhu_shell_args android_home port head pipe_path log_path =
     (let dhu_path = foldl path_join android_home [''extras'', ''google'', ''auto'', ''desktop-head-unit''];
          dhu_args = [dhu_path, ''--adb='' @ show_int port] @ (if head then [] else [''--headless''])
      in [''bash'', ''-c'', join '' '' dhu_args @ '' < '' @ pipe_path @ '' >> '' @ log_path @ '' 2>&1''])"

definition android_home :: "string prog" where
  "android_home = bind (environ_get ''ANDROID_HOME'') (\<lambda>v. return (case v of Some h \<Rightarrow> h | None \<Rightarrow> []))"

text \<open>
  The body of the \<open>try\<close> of \<open>create\<close>, in its stages: the emulator up to its first boot, the
  socat forwarder, the keeper of the pipe, and the DHU up to the final screenshots.
\<close>

definition create_dhu :: "string \<Rightarrow> string \<Rightarrow> bool \<Rightarrow> port_slot \<Rightarrow> int \<Rightarrow> unit prog" where
  "create_dhu name serial head slot keeper =
     (let pipe_path = ''/tmp/dhu_'' @ name @ ''_pipe''; log_path = ''/tmp/dhu_'' @ name @ ''.log''
      in bind android_home (\<lambda>home.
      bind (popen (dhu_shell_args home (slot_aa_forward_port slot) head pipe_path log_path)) (\<lambda>dhu.
      andthen (set_new_handles (h_dhu_update (\<lambda>_. Some dhu)))
      (andthen (update_instance name (\<lambda>r. r\<lparr>dhu_pid := Some dhu, keeper_pid := Some keeper,
          inst_pipe_path := Some pipe_path, inst_log_path := Some log_path\<rparr>))
      (andthen (wait_for_dhu log_path)
      (bind (wait_for_dhu_screenshot name pipe_path) (\<lambda>dhu_png.
      bind (emulator_screenshot_to_bytes serial) (\<lambda>emu_png.
      bind time_time (\<lambda>t.
      update_instance name (\<lambda>r. r\<lparr>inst_state := RUNNING, last_screenshot_png := Some dhu_png,
        last_emulator_screenshot_png := Some emu_png, last_screenshot_at_ms := Some (to_ms t)\<rparr>))))))))))"

definition create_keeper :: "string \<Rightarrow> string \<Rightarrow> bool \<Rightarrow> port_slot \<Rightarrow> unit prog" where
  "create_keeper name serial head slot =
     (let pipe_path = ''/tmp/dhu_'' @ name @ ''_pipe''
      in andthen (run_check [''adb'', ''-s'', serial, ''forward'',
            ''tcp:'' @ show_int (slot_aa_forward_port slot), ''tcp:5277''])
        (andthen (run [''mkfifo'', pipe_path])
        (bind (popen (keeper_args pipe_path)) (\<lambda>keeper.
         andthen (set_new_handles (h_keeper_update (\<lambda>_. Some keeper)))
           (create_dhu name serial head slot keeper)))))"

definition create_socat :: "string \<Rightarrow> string \<Rightarrow> string \<Rightarrow> bool \<Rightarrow> port_slot \<Rightarrow> unit prog" where
  "create_socat name serial snapshot head slot =
     andthen (wait_for_boot serial)
     (andthen (if snapshot \<noteq> [] then check_snapshot_sentinel serial else return ())
     (bind (popen [''socat'', ''TCP-LISTEN:'' @ show_int (slot_adb_port slot) @ '',bind=0.0.0.0,reuseaddr,fork'',
          ''TCP:127.0.0.1:'' @ show_int (slot_adb_port slot)]) (\<lambda>socat.
      andthen (set_new_handles (h_socat_update (\<lambda>_. Some socat)))
      (andthen (update_instance name (socat_pid_update (\<lambda>_. Some socat)))
        (create_keeper name serial head slot)))))"

definition create_emulator :: "string \<Rightarrow> string \<Rightarrow> string \<Rightarrow> bool \<Rightarrow> port_slot \<Rightarrow> unit prog" where
  "create_emulator name avd snapshot head slot =
     andthen (run [''bash'', ''-c'', ''rm -rf /tmp/android-$USER/emu-crash-*.db''])
     (bind (resolve_gpu_mode avd snapshot) (\<lambda>gpu_mode.
      andthen (open_w (emu_log_path name))
      (bind (popen (emulator_args avd snapshot head slot gpu_mode)) (\<lambda>emu.
       andthen (set_new_handles (h_emulator_update (\<lambda>_. Some emu)))
       (andthen (update_instance name (emulator_pid_update (\<lambda>_. Some emu)))
         (create_socat name (serial_of (console_port slot)) snapshot head slot))))))"

definition kill_quietly :: "int option \<Rightarrow> unit prog" where
  "kill_quietly h = (case h of None \<Rightarrow> return () | Some p \<Rightarrow> ignoring is_os_error (proc_kill p))"

definition cleanup_create :: "string \<Rightarrow> exn \<Rightarrow> 'a prog" where
  "cleanup_create name e =
     bind (gets new_handles) (\<lambda>h.
     andthen (for_each kill_quietly [h_dhu h, h_keeper h, h_socat h, h_emulator h])
     (andthen (update_instance name (inst_state_update (\<lambda>_. ERROR)))
     (raise e)))"

definition create :: "string \<Rightarrow> string \<Rightarrow> string \<Rightarrow> bool \<Rightarrow> port_slot \<Rightarrow> instance_record option prog" where
  "create name avd snapshot head slot =
     andthen (set_new_handles (\<lambda>_. no_handles))
     (catch
       (andthen (create_emulator name avd snapshot head slot)
        (andthen (modify (\<lambda>s. s\<lparr>tracked := dict_set name (new_handles s) (tracked s)\<rparr>))
          (get_instance name)))
       (cleanup_create name))"

section \<open>Destroying\<close>

definition stop_dhu :: "int option \<Rightarrow> unit prog" where
  "stop_dhu h = (case h of
       None \<Rightarrow> return ()
     | Some p \<Rightarrow> bind (proc_poll p) (\<lambda>status.
         if status \<noteq> None then return ()
         else ignoring (\<lambda>e. is_os_error e \<or> e = TimeoutExpired)
           (bind (getpgid p) (\<lambda>pgid.
            andthen (killpg pgid SIGTERM)
              (bind (catch (proc_wait p 5) (\<lambda>e.
                 if e = TimeoutExpired then andthen (killpg pgid SIGKILL) (proc_wait p 5) else raise e))
               (\<lambda>_. return ()))))))"

definition stop_child :: "int option \<Rightarrow> unit prog" where
  "stop_child h = (case h of
       None \<Rightarrow> return ()
     | Some p \<Rightarrow> bind (proc_poll p) (\<lambda>status.
         if status \<noteq> None then return ()
         else andthen (proc_terminate p)
           (bind (catch (proc_wait p 5) (\<lambda>e.
              if e = TimeoutExpired then andthen (proc_kill p) (proc_wait p 5) else raise e))
            (\<lambda>_. return ()))))"

definition stop_emulator :: "string \<Rightarrow> int option \<Rightarrow> unit prog" where
  "stop_emulator serial h = (case h of
       None \<Rightarrow> return ()
     | Some p \<Rightarrow> bind (proc_poll p) (\<lambda>status.
         if status \<noteq> None then return ()
         else andthen (run [''adb'', ''-s'', serial, ''emu'', ''kill''])
           (bind (catch (proc_wait p 10) (\<lambda>e.
              if e = TimeoutExpired
              then andthen (proc_terminate p) (catch (proc_wait p 5) (\<lambda>e.
                if e = TimeoutExpired then andthen (proc_kill p) (proc_wait p 5) else raise e))
              else raise e))
            (\<lambda>_. return ()))))"

definition destroy_via_handles :: "process_handles \<Rightarrow> string \<Rightarrow> unit prog" where
  "destroy_via_handles h serial =
     andthen (stop_dhu (h_dhu h))
     (andthen (stop_child (h_keeper h))
     (andthen (stop_child (h_socat h))
     (stop_emulator serial (h_emulator h))))"

text \<open>\<open>if record.dhu_pid:\<close> is false for \<open>None\<close> and for 0.\<close>

definition kill_pid :: "int option \<Rightarrow> unit prog" where
  "kill_pid pid = (case pid of
       Some p \<Rightarrow> if p \<noteq> 0 then bind (run [''kill'', show_int p]) (\<lambda>_. return ()) else return ()
     | None \<Rightarrow> return ())"

definition destroy_via_pids :: "instance_record \<Rightarrow> string \<Rightarrow> unit prog" where
  "destroy_via_pids r serial =
     andthen (kill_pid (dhu_pid r))
     (andthen (kill_pid (keeper_pid r))
     (andthen (kill_pid (socat_pid r))
     (bind (run [''adb'', ''-s'', serial, ''emu'', ''kill'']) (\<lambda>_. return ()))))"

definition rm_if_set :: "string option \<Rightarrow> unit prog" where
  "rm_if_set path = (case path of Some p \<Rightarrow> if p \<noteq> [] then rm_f p else return () | None \<Rightarrow> return ())"

definition destroy :: "instance_record \<Rightarrow> unit prog" where
  "destroy r =
     (let serial = serial_of (emulator_console_port r)
      in bind (gets (\<lambda>s. dict_get (tracked s) (inst_name r))) (\<lambda>handles.
      andthen (modify (\<lambda>s. s\<lparr>tracked := dict_pop (inst_name r) (tracked s)\<rparr>))
      (andthen (case handles of Some h \<Rightarrow> destroy_via_handles h serial | None \<Rightarrow> destroy_via_pids r serial)
      (andthen (run [''adb'', ''-s'', serial, ''forward'', ''--remove'', ''tcp:'' @ show_int (aa_forward_port r)])
      (for_each rm_if_set [inst_pipe_path r, inst_log_path r, Some (emu_log_path (inst_name r))])))))"

section \<open>What is quiet and what returns\<close>

lemma quiet_files [quiet_intros]:
  "quiet os (rm_f path)" "quiet os (take_file path)" "quiet os (take_or_sleep path)" "quiet os (rm_if_set p)"
  unfolding rm_f_def take_file_def take_or_sleep_def rm_if_set_def
  by (intro quiet_intros)+

lemma quiet_screenshots [quiet_intros]:
  "quiet os (screenshot_to_bytes name pipe)" "quiet os (emulator_screenshot_to_bytes serial)"
  "quiet os (wait_for_dhu_screenshot name pipe)" "quiet os (screenshot r)"
  unfolding screenshot_to_bytes_def emulator_screenshot_to_bytes_def wait_for_dhu_screenshot_def screenshot_def Let_def
  by (intro quiet_intros)+

lemma quiet_waits [quiet_intros]:
  "quiet os (wait_for_boot serial)" "quiet os (check_snapshot_sentinel serial)" "quiet os (wait_for_dhu logf)"
  "quiet os android_home"
  unfolding wait_for_boot_def check_snapshot_sentinel_def wait_for_dhu_def android_home_def
  by (intro quiet_intros)+

lemma quiet_stops [quiet_intros]:
  "quiet os (kill_quietly h)" "quiet os (stop_dhu h)" "quiet os (stop_child h)" "quiet os (stop_emulator serial h)"
  "quiet os (kill_pid h)"
  unfolding kill_quietly_def stop_dhu_def stop_child_def stop_emulator_def kill_pid_def
  by (intro quiet_intros)+

lemma quiet_destroys [quiet_intros]:
  "quiet os (destroy_via_handles h serial)" "quiet os (destroy_via_pids r serial)"
  unfolding destroy_via_handles_def destroy_via_pids_def by (intro quiet_intros)+

lemma term_files [term_intros]:
  "terminates os (rm_f path)" "terminates os (take_file path)" "terminates os (take_or_sleep path)"
  "terminates os (rm_if_set p)"
  unfolding rm_f_def take_file_def take_or_sleep_def rm_if_set_def
  by (intro term_intros)+

lemma slow_take_or_sleep: "steady_clock os \<Longrightarrow> slow os (1 / 5) (take_or_sleep path)"
  unfolding take_or_sleep_def by (intro slow_bind slow_intros slow_sleep quiet_intros)

lemma term_screenshots [term_intros]:
  assumes "steady_clock os"
  shows "terminates os (screenshot_to_bytes name pipe)" "terminates os (emulator_screenshot_to_bytes serial)"
    "terminates os (screenshot r)"
proof -
  have loop: "terminates os (until_deadline t (take_or_sleep path))" for t path
    by (rule term_until_deadline [OF assms _ _ slow_take_or_sleep]) (simp_all add: assms term_intros)
  show one: "terminates os (screenshot_to_bytes name pipe)" for name pipe
    unfolding screenshot_to_bytes_def Let_def by (intro term_intros loop)
  show "terminates os (emulator_screenshot_to_bytes serial)"
    unfolding emulator_screenshot_to_bytes_def Let_def by (intro term_intros loop)
  show "terminates os (screenshot r)"
    unfolding screenshot_def by (intro term_intros one)
qed

lemma slow_then: "steady_clock os \<Longrightarrow> quiet os m \<Longrightarrow> slow os d n \<Longrightarrow> slow os d (andthen m n)"
  by (rule slow_bind)

lemma term_waits [term_intros]:
  assumes "steady_clock os"
  shows "terminates os (wait_for_boot serial)" "terminates os (wait_for_dhu logf)"
    "terminates os (wait_for_dhu_screenshot name pipe)" "terminates os (check_snapshot_sentinel serial)"
    "terminates os android_home"
proof -
  show "terminates os (wait_for_boot serial)"
    unfolding wait_for_boot_def
    by (intro term_intros term_until_deadline [where d = 1] assms)
      (simp, intro slow_bind slow_intros slow_sleep quiet_intros assms)
  show "terminates os (wait_for_dhu logf)"
    unfolding wait_for_dhu_def
    by (intro term_intros term_until_deadline [where d = "1 / 2"] assms)
      (simp, intro slow_bind slow_intros slow_sleep quiet_intros assms)
  show "terminates os (wait_for_dhu_screenshot name pipe)"
    unfolding wait_for_dhu_screenshot_def Let_def
    by (intro term_intros term_until_deadline [where d = 2] assms)
      (simp, intro slow_then slow_sleep quiet_intros assms)
  show "terminates os (check_snapshot_sentinel serial)" "terminates os android_home"
    unfolding check_snapshot_sentinel_def android_home_def by (intro term_intros)+
qed

lemma term_stops [term_intros]:
  "terminates os (kill_quietly h)" "terminates os (stop_dhu h)" "terminates os (stop_child h)"
  "terminates os (stop_emulator serial h)" "terminates os (kill_pid h)"
  unfolding kill_quietly_def stop_dhu_def stop_child_def stop_emulator_def kill_pid_def
  by (intro term_intros)+

lemma term_create [term_intros]: "steady_clock os \<Longrightarrow> terminates os (create name avd snapshot head slot)"
  unfolding create_def create_emulator_def create_socat_def create_keeper_def create_dhu_def cleanup_create_def Let_def
  by (intro term_intros)

lemma term_destroy [term_intros]: "terminates os (destroy r)"
  unfolding destroy_def destroy_via_handles_def destroy_via_pids_def Let_def by (intro term_intros)

end
