(* ===== verification/Emulator_Operations.thy ===== *)
theory Emulator_Operations
  imports Emulator_Lifecycle
begin

text \<open>
  The operations of \<open>EmulatorLifecycle\<close> on a running instance: restarting the DHU, the
  health check, DHU commands, adb shell, push, pull and install, and snapshots.
\<close>

section \<open>Restarting the DHU\<close>

definition or_else :: "string option \<Rightarrow> string \<Rightarrow> string" where
  "or_else p d = (case p of Some q \<Rightarrow> if q \<noteq> [] then q else d | None \<Rightarrow> d)"

definition stop_old_dhu :: "instance_record \<Rightarrow> process_handles option \<Rightarrow> unit prog" where
  "stop_old_dhu r handles = (case handles of
       Some h \<Rightarrow> andthen (stop_dhu (h_dhu h)) (stop_child (h_keeper h))
     | None \<Rightarrow> andthen (kill_pid (dhu_pid r)) (kill_pid (keeper_pid r)))"

definition track_dhu :: "string \<Rightarrow> int \<Rightarrow> int \<Rightarrow> sys \<Rightarrow> sys" where
  "track_dhu name dhu keeper s = s\<lparr>tracked :=
     (case dict_get (tracked s) name of
        Some h \<Rightarrow> dict_set name (h\<lparr>h_dhu := Some dhu, h_keeper := Some keeper\<rparr>) (tracked s)
      | None \<Rightarrow> dict_set name (no_handles\<lparr>h_dhu := Some dhu, h_keeper := Some keeper\<rparr>) (tracked s))\<rparr>"

text \<open>From the moment both processes run.\<close>

definition restart_finish :: "instance_record \<Rightarrow> string \<Rightarrow> string \<Rightarrow> int \<Rightarrow> int \<Rightarrow> instance_record option prog" where
  "restart_finish r pipe_path log_path keeper dhu =
     (let name = inst_name r
      in andthen (modify (track_dhu name dhu keeper))
        (andthen (update_instance name (\<lambda>r. r\<lparr>dhu_pid := Some dhu, keeper_pid := Some keeper,
            inst_pipe_path := Some pipe_path, inst_log_path := Some log_path\<rparr>))
        (andthen (wait_for_dhu log_path)
        (bind (wait_for_dhu_screenshot name pipe_path) (\<lambda>dhu_png.
        bind (emulator_screenshot_to_bytes (serial_of (emulator_console_port r))) (\<lambda>emu_png.
        bind time_time (\<lambda>t.
        andthen (update_instance name (\<lambda>r. r\<lparr>last_screenshot_png := Some dhu_png,
            last_emulator_screenshot_png := Some emu_png, last_screenshot_at_ms := Some (to_ms t)\<rparr>))
          (get_instance name))))))))"

definition restart_dhu :: "instance_record \<Rightarrow> instance_record option prog" where
  "restart_dhu r =
     (let name = inst_name r;
          pipe_path = or_else (inst_pipe_path r) (''/tmp/dhu_'' @ name @ ''_pipe'');
          log_path = or_else (inst_log_path r) (''/tmp/dhu_'' @ name @ ''.log'')
      in bind (gets (\<lambda>s. dict_get (tracked s) name)) (\<lambda>handles.
      andthen (stop_old_dhu r handles)
      (andthen (rm_f pipe_path)
      (andthen (rm_f log_path)
      (andthen (run [''mkfifo'', pipe_path])
      (bind (popen (keeper_args pipe_path)) (\<lambda>keeper.
      bind android_home (\<lambda>home.
      bind (popen (dhu_shell_args home (aa_forward_port r) (headful r) pipe_path log_path)) (\<lambda>dhu.
        restart_finish r pipe_path log_path keeper dhu)))))))))"

section \<open>Health\<close>

primrec none_exited :: "int option list \<Rightarrow> bool prog" where
  "none_exited [] = return True"
| "none_exited (h # hs) = (case h of
       None \<Rightarrow> none_exited hs
     | Some p \<Rightarrow> bind (proc_poll p) (\<lambda>status. if status \<noteq> None then return False else none_exited hs))"

definition check_health :: "string \<Rightarrow> bool prog" where
  "check_health name =
     bind (gets (\<lambda>s. dict_get (tracked s) name)) (\<lambda>handles. case handles of
       None \<Rightarrow> return True
     | Some h \<Rightarrow> none_exited [h_emulator h, h_dhu h, h_keeper h, h_socat h])"

section \<open>DHU commands\<close>

definition dhu_command :: "instance_record \<Rightarrow> string \<Rightarrow> bool \<Rightarrow> bytes prog" where
  "dhu_command r command capture_screenshot = (case inst_pipe_path r of
       Some pipe \<Rightarrow>
         if pipe \<noteq> []
         then andthen (case inst_log_path r of
                Some logf \<Rightarrow> if logf \<noteq> [] then ignoring is_os_error (append_text logf (''> '' @ command @ [newline])) else return ()
              | None \<Rightarrow> return ())
           (andthen (pipe_write pipe command)
           (if capture_screenshot then andthen (sleep 1) (screenshot_to_bytes (inst_name r) pipe) else return []))
         else raise (RuntimeError (''Instance '' @ quote (inst_name r) @ '' has no pipe path''))
     | None \<Rightarrow> raise (RuntimeError (''Instance '' @ quote (inst_name r) @ '' has no pipe path'')))"

section \<open>adb\<close>

abbreviation adb :: "instance_record \<Rightarrow> string list \<Rightarrow> string list" where
  "adb r args \<equiv> [''adb'', ''-s'', serial_of (emulator_console_port r)] @ args"

definition clamp_timeout :: "int \<Rightarrow> int" where
  "clamp_timeout timeout_s = (let t = if timeout_s = 0 then 30 else timeout_s in max 1 (min t 300))"

definition adb_shell :: "instance_record \<Rightarrow> string list \<Rightarrow> int \<Rightarrow> (int \<times> string \<times> string) prog" where
  "adb_shell r args timeout_s =
     bind (run_within (Some (of_int (clamp_timeout timeout_s))) (adb r ([''shell''] @ args))) (\<lambda>res.
     return (returncode res, stdout res, stderr res))"

text \<open>The temporary file is unlinked whatever happens; a failure to unlink is ignored.\<close>

definition with_temp :: "string \<Rightarrow> (string \<Rightarrow> 'a prog) \<Rightarrow> 'a prog" where
  "with_temp suffix body =
     bind (mkstemp suffix) (\<lambda>tmp. ensuring (body tmp) (ignoring is_os_error (unlink tmp)))"

definition adb_push :: "instance_record \<Rightarrow> bytes \<Rightarrow> string \<Rightarrow> unit prog" where
  "adb_push r data remote_path =
     with_temp [] (\<lambda>tmp.
       andthen (write_bytes tmp data)
       (bind (run_within (Some 60) (adb r [''push'', tmp, remote_path])) (\<lambda>res.
        if returncode res \<noteq> 0 then raise (RuntimeError (''adb push failed: '' @ stderr res)) else return ())))"

definition adb_pull :: "instance_record \<Rightarrow> string \<Rightarrow> bytes prog" where
  "adb_pull r remote_path =
     with_temp [] (\<lambda>tmp.
       bind (run_within (Some 60) (adb r [''pull'', remote_path, tmp])) (\<lambda>res.
       if returncode res \<noteq> 0 then raise (RuntimeError (''adb pull failed: '' @ stderr res))
       else read_bytes tmp))"

definition install_apk :: "instance_record \<Rightarrow> bytes \<Rightarrow> unit prog" where
  "install_apk r apk_data =
     (if apk_data = [] then raise (ValueError ''apk_data is empty'')
      else with_temp ''.apk'' (\<lambda>tmp.
        andthen (write_bytes tmp apk_data)
        (bind (run (adb r [''install'', ''-r'', tmp])) (\<lambda>res.
         if returncode res \<noteq> 0
         then raise (RuntimeError (''adb install failed (rc='' @ show_int (returncode res) @ ''): '' @ stderr res))
         else return ()))))"

definition save_snapshot :: "instance_record \<Rightarrow> string \<Rightarrow> unit prog" where
  "save_snapshot r snapshot =
     bind (run_within (Some 120) (adb r [''emu'', ''avd'', ''snapshot'', ''save'', snapshot])) (\<lambda>res.
     if returncode res \<noteq> 0
     then raise (RuntimeError (''snapshot save failed (rc='' @ show_int (returncode res) @ ''): '' @ stderr res))
     else return ())"

definition load_snapshot :: "instance_record \<Rightarrow> string \<Rightarrow> unit prog" where
  "load_snapshot r snapshot =
     bind (run_within (Some 120) (adb r [''emu'', ''avd'', ''snapshot'', ''load'', snapshot])) (\<lambda>res.
     if returncode res \<noteq> 0
     then raise (RuntimeError (''snapshot load failed (rc='' @ show_int (returncode res) @ ''): '' @ stderr res))
     else return ())"

end
