(* ===== verification/Lifecycle_Create.thy ===== *)
theory Lifecycle_Create
  imports Emulator_Operations
begin

text \<open>
  What \<open>create\<close> promises: it either ends with a running instance whose four processes are
  tracked, or it raises after sending a kill to every process it had started and marking the record.
  The proof follows the stages of the body: \<open>stage\<close> says which processes run, and that the
  local \<open>handles\<close> name exactly the processes started so far.
\<close>

section \<open>Records and frames\<close>

text \<open>What no operation of the lifecycle changes in a record.\<close>

definition same_identity :: "instance_record \<Rightarrow> instance_record \<Rightarrow> bool" where
  "same_identity r r' \<longleftrightarrow> inst_name r' = inst_name r \<and> emulator_console_port r' = emulator_console_port r \<and>
     adb_port r' = adb_port r \<and> aa_forward_port r' = aa_forward_port r \<and> headful r' = headful r \<and>
     created_at_ms r' = created_at_ms r \<and> avd_name r' = avd_name r"

lemma same_identity_refl [simp]: "same_identity r r"
  by (simp add: same_identity_def)

lemma same_identity_trans: "same_identity r r' \<Longrightarrow> same_identity r' r'' \<Longrightarrow> same_identity r r''"
  by (simp add: same_identity_def)

text \<open>A store changed at one record only, which keeps its identity.\<close>

definition evolves :: "string \<Rightarrow> instance_store \<Rightarrow> instance_store \<Rightarrow> bool" where
  "evolves name st st' \<longleftrightarrow> keys st' = keys st \<and> dict_pop name st' = dict_pop name st \<and>
     rel_option same_identity (dict_get st name) (dict_get st' name)"

lemma evolves_refl [simp]: "evolves name st st"
  by (simp add: evolves_def option.rel_refl)

lemma evolves_trans: "evolves name st st' \<Longrightarrow> evolves name st' st'' \<Longrightarrow> evolves name st st''"
  unfolding evolves_def by (auto simp: option_rel_Some1 option_rel_Some2 intro: same_identity_trans elim!: option.rel_cases)

lemma dict_pop_set [simp]: "dict_pop k (dict_set k v d) = dict_pop k d"
  by (induction d) auto

lemma store_update_absent: "dict_get st name = None \<Longrightarrow> \<exists>m. store_update name f st = (Inl (KeyError m), st)"
  by (simp add: store_update_def)

lemma store_update_present: "dict_get st name = Some r \<Longrightarrow> store_update name f st = (Inr (), dict_set name (f r) st)"
  by (simp add: store_update_def)

lemma evolves_update:
  assumes "\<And>r. same_identity r (f r)"
  shows "evolves name st (snd (store_update name f st))"
proof (cases "dict_get st name")
  case (Some r)
  then have "name \<in> set (keys st)" by (rule present)
  with Some assms show ?thesis
    by (simp add: store_update_present evolves_def dict_simps keys_dict_set_old del: set_map)
qed (use store_update_absent [of st name f] in auto)

section \<open>The stages of create\<close>

definition handle_pids :: "process_handles \<Rightarrow> int set" where
  "handle_pids h = set_option (h_emulator h) \<union> set_option (h_socat h) \<union> set_option (h_keeper h) \<union> set_option (h_dhu h)"

definition running_handles :: "process_handles \<Rightarrow> bool list" where
  "running_handles h = map (\<lambda>p. p \<noteq> None) [h_emulator h, h_socat h, h_keeper h, h_dhu h]"

definition building :: "sys \<Rightarrow> string \<Rightarrow> sys \<Rightarrow> bool" where
  "building s0 name s \<longleftrightarrow> tracked s = tracked s0 \<and> ports s = ports s0 \<and> rpc_status s = rpc_status s0 \<and> captures s = captures s0 \<and>
     boot_timeout s = boot_timeout s0 \<and> dhu_timeout s = dhu_timeout s0 \<and>
     evolves name (instances s0) (instances s) \<and>
     (\<exists>new. trace s = new @ trace s0 \<and> set (started new) = handle_pids (new_handles s))"

text \<open>The first \<open>n\<close> processes run, and \<open>F\<close> relates the record to the handles.\<close>

definition stage ::
  "sys \<Rightarrow> string \<Rightarrow> nat \<Rightarrow> (instance_record \<Rightarrow> process_handles \<Rightarrow> bool) \<Rightarrow> sys \<Rightarrow> bool" where
  "stage s0 name n F s \<longleftrightarrow> building s0 name s \<and>
     running_handles (new_handles s) = replicate n True @ replicate (4 - n) False \<and>
     (\<forall>r. dict_get (instances s) name = Some r \<longrightarrow> F r (new_handles s))"

lemma stage_building: "stage s0 name n F s \<Longrightarrow> building s0 name s"
  by (simp add: stage_def)

lemma building_trace: "building s0 name s \<Longrightarrow> started new = [] \<Longrightarrow> building s0 name (s\<lparr>trace := new @ trace s\<rparr>)"
  unfolding building_def
proof (elim conjE exE, intro conjI)
  fix old assume "started new = []" "trace s = old @ trace s0" "set (started old) = handle_pids (new_handles s)"
  then show "\<exists>old. trace (s\<lparr>trace := new @ trace s\<rparr>) = old @ trace s0 \<and>
      set (started old) = handle_pids (new_handles (s\<lparr>trace := new @ trace s\<rparr>))"
    by (intro exI [of _ "new @ old"]) simp
qed simp_all

lemma stage_trace: "stage s0 name n F s \<Longrightarrow> started new = [] \<Longrightarrow> stage s0 name n F (s\<lparr>trace := new @ trace s\<rparr>)"
  by (simp add: stage_def building_trace)

text \<open>The end of the body: all four processes run, or an exception with the handles complete.\<close>

definition pids_recorded :: "instance_record \<Rightarrow> process_handles \<Rightarrow> bool" where
  "pids_recorded r h \<longleftrightarrow> emulator_pid r = h_emulator h \<and> socat_pid r = h_socat h \<and>
     keeper_pid r = h_keeper h \<and> dhu_pid r = h_dhu h"

definition up :: "string \<Rightarrow> instance_record \<Rightarrow> process_handles \<Rightarrow> bool" where
  "up name r h \<longleftrightarrow> pids_recorded r h \<and> inst_state r = RUNNING \<and>
     inst_pipe_path r = Some (''/tmp/dhu_'' @ name @ ''_pipe'') \<and> inst_log_path r = Some (''/tmp/dhu_'' @ name @ ''.log'') \<and>
     last_screenshot_png r \<noteq> None \<and> last_emulator_screenshot_png r \<noteq> None"

definition built :: "sys \<Rightarrow> string \<Rightarrow> unit result \<Rightarrow> sys \<Rightarrow> bool" where
  "built s0 name r s = (case r of Inl _ \<Rightarrow> building s0 name s | Inr _ \<Rightarrow> stage s0 name 4 (up name) s \<and> name \<in> set (keys (instances s)))"

lemma step_quiet:
  assumes "quiet os m" "\<And>x. triple os (stage s0 name n F) (f x) (built s0 name)"
  shows "triple os (stage s0 name n F) (bind m f) (built s0 name)"
  by (rule triple_bind [OF triple_quiet [OF assms(1)] assms(2)])
    (auto simp: built_def intro: stage_trace stage_building)

lemma triple_update:
  assumes "\<And>r. same_identity r (f r)" "\<And>r h. F r h \<Longrightarrow> F' (f r) h"
  shows "triple os (stage s0 name n F) (update_instance name f)
    (\<lambda>r s. case r of Inl _ \<Rightarrow> building s0 name s | Inr _ \<Rightarrow> stage s0 name n F' s \<and> name \<in> set (keys (instances s)))"
proof (rule triple_on_store)
  fix s assume st: "stage s0 name n F s"
  let ?u = "store_update name f (instances s)"
  from st have "evolves name (instances s0) (instances s)" by (simp add: stage_def building_def)
  then have "evolves name (instances s0) (snd ?u)" using evolves_update [of f, OF assms(1)] by (rule evolves_trans)
  with st have b: "building s0 name (s\<lparr>instances := snd ?u\<rparr>)"
    by (auto simp: stage_def building_def)
  show "case fst ?u of Inl _ \<Rightarrow> building s0 name (s\<lparr>instances := snd ?u\<rparr>)
      | Inr _ \<Rightarrow> stage s0 name n F' (s\<lparr>instances := snd ?u\<rparr>) \<and> name \<in> set (keys (instances (s\<lparr>instances := snd ?u\<rparr>)))"
  proof (cases "dict_get (instances s) name")
    case (Some r)
    with st b assms(2) show ?thesis
      by (simp add: stage_def store_update_present dict_simps)
  qed (use b store_update_absent [of "instances s" name f] in auto)
qed

lemma step_update:
  assumes "\<And>r. same_identity r (f r)" "\<And>r h. F r h \<Longrightarrow> F' (f r) h"
    and "triple os (stage s0 name n F') m (built s0 name)"
  shows "triple os (stage s0 name n F) (andthen (update_instance name f) m) (built s0 name)"
proof (rule triple_bind)
  show "triple os (stage s0 name n F) (update_instance name f)
    (\<lambda>r s. case r of Inl _ \<Rightarrow> building s0 name s | Inr _ \<Rightarrow> stage s0 name n F' s \<and> name \<in> set (keys (instances s)))"
    by (rule triple_update) (fact assms)+
qed (auto simp: built_def intro: triple_mono [OF assms(3)])

lemma step_popen:
  assumes next_stage: "n' = Suc n"
    and pids: "\<And>h p. running_handles h = replicate n True @ replicate (4 - n) False \<Longrightarrow>
      running_handles (upd p h) = replicate (Suc n) True @ replicate (4 - Suc n) False \<and>
      handle_pids (upd p h) = insert p (handle_pids h)"
    and facts: "\<And>r h p. F r h \<Longrightarrow> F' p r (upd p h)"
    and rest: "\<And>p. triple os (stage s0 name n' (F' p)) (m p) (built s0 name)"
  shows "triple os (stage s0 name n F) (bind (popen argv) (\<lambda>p. andthen (set_new_handles (upd p)) (m p))) (built s0 name)"
proof (rule tripleI)
  fix s r s'
  assume st: "stage s0 name n F s"
    and run: "bind (popen argv) (\<lambda>p. andthen (set_new_handles (upd p)) (m p)) os s = Some (r, s')"
  let ?a = "popen_of os (trace s) argv"
  let ?s1 = "s\<lparr>trace := Spawned argv ?a # trace s\<rparr>"
  show "built s0 name r s'"
  proof (cases ?a)
    case (Inl e)
    with run have "r = Inl e" "s' = s\<lparr>trace := [Spawned argv (Inl e)] @ trace s\<rparr>"
      by (auto simp: bind_def popen_def ask_def)
    with st show ?thesis by (simp add: built_def building_trace stage_building del: append_Cons)
  next
    case (Inr p)
    let ?s2 = "?s1\<lparr>new_handles := upd p (new_handles s)\<rparr>"
    from run Inr have "m p os ?s2 = Some (r, s')"
      by (simp add: bind_def popen_def ask_def modify_def)
    moreover have "stage s0 name (Suc n) (F' p) ?s2"
    proof -
      from st obtain new where new: "trace s = new @ trace s0" "set (started new) = handle_pids (new_handles s)"
        by (auto simp: stage_def building_def)
      from st pids [of "new_handles s" p] facts
      show ?thesis
        using new Inr by (simp add: stage_def building_def)
    qed
    ultimately show ?thesis using tripleD [OF rest] next_stage by blast
  qed
qed

text \<open>What holds of the record and the handles between the stages.\<close>

definition with_emulator :: "instance_record \<Rightarrow> process_handles \<Rightarrow> bool" where
  "with_emulator r h \<longleftrightarrow> emulator_pid r = h_emulator h"

definition with_socat :: "instance_record \<Rightarrow> process_handles \<Rightarrow> bool" where
  "with_socat r h \<longleftrightarrow> with_emulator r h \<and> socat_pid r = h_socat h"

definition with_keeper :: "int \<Rightarrow> instance_record \<Rightarrow> process_handles \<Rightarrow> bool" where
  "with_keeper keeper r h \<longleftrightarrow> with_socat r h \<and> h_keeper h = Some keeper"

definition with_dhu :: "string \<Rightarrow> instance_record \<Rightarrow> process_handles \<Rightarrow> bool" where
  "with_dhu name r h \<longleftrightarrow> pids_recorded r h \<and>
     inst_pipe_path r = Some (''/tmp/dhu_'' @ name @ ''_pipe'') \<and> inst_log_path r = Some (''/tmp/dhu_'' @ name @ ''.log'')"

lemmas stage_facts = with_emulator_def with_socat_def with_keeper_def with_dhu_def up_def pids_recorded_def
  same_identity_def running_handles_def handle_pids_def numeral_eq_Suc

lemma stage_show:
  "triple os (stage s0 name 4 (with_dhu name))
     (bind (wait_for_dhu_screenshot name pipe_path) (\<lambda>dhu_png.
      bind (emulator_screenshot_to_bytes serial) (\<lambda>emu_png.
      bind time_time (\<lambda>t.
      update_instance name (\<lambda>r. r\<lparr>inst_state := RUNNING, last_screenshot_png := Some dhu_png,
        last_emulator_screenshot_png := Some emu_png, last_screenshot_at_ms := Some (to_ms t)\<rparr>)))))
    (built s0 name)"
  by (intro step_quiet quiet_intros, rule triple_mono, rule triple_update [where F' = "up name"])
    (auto simp: stage_facts built_def split: sum.splits)

lemma stage_dhu:
  "triple os (stage s0 name 3 (with_keeper keeper)) (create_dhu name serial head slot keeper) (built s0 name)"
  unfolding create_dhu_def Let_def
  apply (rule step_quiet, intro quiet_intros)
  apply (rule step_popen [where n' = 4 and F' = "\<lambda>dhu r h. with_keeper keeper r h \<and> h_dhu h = Some dhu"])
     apply (auto simp: stage_facts) [3]
  apply (rule step_update [where F' = "with_dhu name"])
    apply (auto simp: stage_facts) [2]
  apply (rule step_quiet, intro quiet_intros)
  apply (rule stage_show)
  done

lemma stage_keeper:
  "triple os (stage s0 name 2 with_socat) (create_keeper name serial head slot) (built s0 name)"
  unfolding create_keeper_def Let_def
  apply (rule step_quiet, intro quiet_intros)
  apply (rule step_quiet, intro quiet_intros)
  apply (rule step_popen [where n' = 3 and F' = with_keeper])
     apply (auto simp: stage_facts) [3]
  apply (rule stage_dhu)
  done

lemma stage_socat:
  "triple os (stage s0 name 1 with_emulator) (create_socat name serial snapshot head slot) (built s0 name)"
  unfolding create_socat_def
  apply (rule step_quiet, intro quiet_intros)
  apply (rule step_quiet, intro quiet_intros)
  apply (rule step_popen [where n' = 2 and F' = "\<lambda>p r h. with_emulator r h \<and> h_socat h = Some p"])
     apply (auto simp: stage_facts) [3]
  apply (rule step_update [where F' = with_socat])
    apply (auto simp: stage_facts) [2]
  apply (rule stage_keeper)
  done

lemma stage_emulator:
  "triple os (stage s0 name 0 (\<lambda>_ _. True)) (create_emulator name avd snapshot head slot) (built s0 name)"
  unfolding create_emulator_def
  apply (rule step_quiet, intro quiet_intros)
  apply (rule step_quiet, intro quiet_intros)
  apply (rule step_quiet, intro quiet_intros)
  apply (rule step_popen [where n' = 1 and F' = "\<lambda>p r h. h_emulator h = Some p"])
     apply (auto simp: stage_facts) [3]
  apply (rule step_update [where F' = with_emulator])
    apply (auto simp: stage_facts) [2]
  apply (rule stage_socat)
  done

section \<open>Cleaning up\<close>

text \<open>\<open>Popen.kill\<close> raises nothing but an \<open>OSError\<close>.\<close>

definition kill_raises_os_error :: "os \<Rightarrow> bool" where
  "kill_raises_os_error os \<longleftrightarrow> (\<forall>h p e. kill_of os h p = Inl e \<longrightarrow> is_os_error e)"

fun kills_of :: "int option list \<Rightarrow> int list" where
  "kills_of [] = []"
| "kills_of (None # hs) = kills_of hs"
| "kills_of (Some p # hs) = p # kills_of hs"

definition killed :: "sys_call list \<Rightarrow> int set" where
  "killed h = {p. \<exists>r. Killed p r \<in> set h}"

lemma killed_simps [simp]: "killed [] = {}" "killed (Killed p r # h) = insert p (killed h)" "killed (g @ h) = killed g \<union> killed h"
  by (auto simp: killed_def)

lemma kill_all:
  assumes "kill_raises_os_error os"
  shows "\<exists>new. for_each kill_quietly hs os s = Some (Inr (), s\<lparr>trace := new @ trace s\<rparr>) \<and>
    started new = [] \<and> killed new = set (kills_of hs)"
proof (induction hs arbitrary: s rule: kills_of.induct)
  case 1
  show ?case by (intro exI [of _ "[]"]) (simp add: return_def)
next
  case (2 hs)
  have "kill_quietly None os s = Some (Inr (), s)" by (simp add: kill_quietly_def return_def)
  with 2 [of s] show ?case by (simp add: bind_def)
next
  case (3 p hs)
  let ?r = "kill_of os (trace s) p"
  let ?s1 = "s\<lparr>trace := Killed p ?r # trace s\<rparr>"
  have "kill_quietly (Some p) os s = Some (Inr (), ?s1)"
    using assms unfolding kill_raises_os_error_def
    by (cases ?r) (auto simp: kill_quietly_def ignoring_def catch_def bind_def attempt_def proc_kill_def ask_def return_def)
  moreover from 3 [of ?s1] obtain new where
    "for_each kill_quietly hs os ?s1 = Some (Inr (), ?s1\<lparr>trace := new @ trace ?s1\<rparr>)" "started new = []"
    "killed new = set (kills_of hs)" by blast
  ultimately show ?case
    by (intro exI [of _ "new @ [Killed p ?r]"]) (simp add: bind_def)
qed

text \<open>After a failed \<open>create\<close>: every process started has been sent a kill since.\<close>

definition all_killed :: "sys \<Rightarrow> sys \<Rightarrow> bool" where
  "all_killed s s' \<longleftrightarrow> (\<exists>kills before. trace s' = kills @ before @ trace s \<and> started kills = [] \<and>
     set (started before) \<subseteq> killed kills)"

lemma set_kills_of: "set (kills_of hs) = {p. Some p \<in> set hs}"
  by (induction hs rule: kills_of.induct) auto

lemma cleanup_create_effect:
  assumes "kill_raises_os_error os" "building s0 name s" "cleanup_create name e os s = Some (r, s')"
  shows "all_killed s0 s' \<and> tracked s' = tracked s0 \<and> ports s' = ports s0 \<and> rpc_status s' = rpc_status s0 \<and> captures s' = captures s0 \<and>
    evolves name (instances s0) (instances s') \<and> (\<exists>e'. r = Inl e') \<and>
    (name \<in> set (keys (instances s0)) \<longrightarrow> r = Inl e \<and> (\<exists>q. dict_get (instances s') name = Some q \<and> inst_state q = ERROR))"
proof -
  let ?h = "new_handles s" and ?f = "inst_state_update (\<lambda>_. ERROR)"
  let ?hs = "[h_dhu ?h, h_keeper ?h, h_socat ?h, h_emulator ?h]"
  let ?u = "store_update name ?f (instances s)"
  obtain new where new: "for_each kill_quietly ?hs os s = Some (Inr (), s\<lparr>trace := new @ trace s\<rparr>)"
    "started new = []" "killed new = set (kills_of ?hs)"
    using kill_all [OF assms(1), of ?hs s] by blast
  obtain old where old: "trace s = old @ trace s0" "set (started old) = handle_pids ?h"
    using assms(2) by (auto simp: building_def)
  have "handle_pids ?h \<subseteq> killed new"
    unfolding new(3) set_kills_of handle_pids_def by auto
  with old new(2) have killed: "all_killed s0 (s\<lparr>trace := new @ trace s, instances := st\<rparr>)" for st
    unfolding all_killed_def by (intro exI [of _ new] exI [of _ old]) simp
  have run: "s' = s\<lparr>trace := new @ trace s, instances := snd ?u\<rparr>"
    "r = (case fst ?u of Inl e' \<Rightarrow> Inl e' | Inr _ \<Rightarrow> Inl e)"
    using assms(3) new(1)
    by (auto simp: cleanup_create_def bind_def gets_def on_store_def raise_def split: prod.splits sum.splits)
  have ev: "evolves name (instances s) (snd ?u)" by (rule evolves_update) (simp add: same_identity_def)
  with assms(2) have ev0: "evolves name (instances s0) (snd ?u)"
    by (auto simp: building_def intro: evolves_trans)
  have "r = Inl e \<and> (\<exists>q. dict_get (snd ?u) name = Some q \<and> inst_state q = ERROR)" if "name \<in> set (keys (instances s0))"
  proof -
    from that assms(2) have "name \<in> set (keys (instances s))" by (simp add: building_def evolves_def del: set_map)
    then obtain q where "dict_get (instances s) name = Some q"
      by (metis dict_get_None_iff option.exhaust)
    then show ?thesis by (simp add: run store_update_present dict_simps)
  qed
  with killed [of "snd ?u"] assms(2) ev0 show ?thesis
    by (auto simp: run building_def split: sum.splits)
qed

text \<open>The outcomes of \<open>create\<close>, for a name that is in the store.\<close>

definition created :: "string \<Rightarrow> sys \<Rightarrow> instance_record \<Rightarrow> sys \<Rightarrow> bool" where
  "created name s r s' \<longleftrightarrow> dict_get (instances s') name = Some r \<and>
     (\<exists>h new. dict_get (tracked s') name = Some h \<and> up name r h \<and>
        tracked s' = dict_set name h (tracked s) \<and> None \<notin> {h_emulator h, h_socat h, h_keeper h, h_dhu h} \<and>
        trace s' = new @ trace s \<and> set (started new) = handle_pids h)"

lemma create_cases:
  assumes "kill_raises_os_error os" "name \<in> set (keys (instances s))"
    and run: "create name avd snapshot head slot os s = Some (r, s')"
  shows "ports s' = ports s \<and> rpc_status s' = rpc_status s \<and> captures s' = captures s \<and> evolves name (instances s) (instances s') \<and>
    (case r of
       Inr q \<Rightarrow> \<exists>rec. q = Some rec \<and> created name s rec s'
     | Inl e \<Rightarrow> all_killed s s' \<and> tracked s' = tracked s \<and>
         (\<exists>rec. dict_get (instances s') name = Some rec \<and> inst_state rec = ERROR))"
proof -
  let ?s0 = "s\<lparr>new_handles := no_handles\<rparr>"
  have start: "stage ?s0 name 0 (\<lambda>_ _. True) ?s0"
    by (simp add: stage_def building_def no_handles_def stage_facts)
  have emptied: "all_killed ?s0 s' = all_killed s s'" for s' by (simp add: all_killed_def)
  from run obtain q s1 where emu: "create_emulator name avd snapshot head slot os ?s0 = Some (q, s1)"
    by (auto simp: create_def bind_def modify_def catch_Some split: option.splits)
  have b: "built ?s0 name q s1" by (rule tripleD [OF stage_emulator start emu])
  show ?thesis
  proof (cases q)
    case (Inl e)
    with b have "building ?s0 name s1" by (simp add: built_def)
    moreover from run emu Inl have "cleanup_create name e os s1 = Some (r, s')"
      by (auto simp: create_def bind_def modify_def catch_Some)
    ultimately show ?thesis
      using cleanup_create_effect [OF assms(1), of ?s0 name s1 e r s'] assms(2) by (auto simp: emptied)
  next
    case (Inr u)
    with b have st: "stage ?s0 name 4 (up name) s1" and "name \<in> set (keys (instances s1))" by (simp_all add: built_def)
    then obtain rec where rec: "dict_get (instances s1) name = Some rec" by (metis dict_get_None_iff option.exhaust)
    let ?h = "new_handles s1"
    have s': "r = Inr (Some rec)" "s' = s1\<lparr>tracked := dict_set name ?h (tracked s1)\<rparr>"
      using run emu Inr rec
      by (auto simp: create_def bind_def modify_def catch_Some gets_def store_get_def)
    from st have "running_handles ?h = [True, True, True, True]" and "up name rec ?h"
      using rec by (simp_all add: stage_def numeral_eq_Suc)
    then show ?thesis
      using st rec unfolding s' stage_def building_def created_def running_handles_def
      by (auto simp: dict_simps)
  qed
qed

end
