(* ===== verification/Video_Capture.thy ===== *)
theory Video_Capture
  imports Sys_Logic
begin

text \<open>
  \<^verbatim>\<open>instance_manager/src/video_capture.py\<close>: starting and stopping a capture session,
  the loop of its background thread, and stitching the frames with ffmpeg.  The thread runs beside the
  service; \<open>stop\<close> sees the frame count it has reached.
\<close>

section \<open>Sessions\<close>

definition max_fps :: int where "max_fps = 5"
definition default_fps :: int where "default_fps = 2"
definition default_max_duration :: int where "default_max_duration = 30"
definition screenshot_timeout :: seconds where "screenshot_timeout = 3"
definition screenshot_poll_interval :: seconds where "screenshot_poll_interval = 1 / 10"

definition clamp_fps :: "int \<Rightarrow> int" where
  "clamp_fps fps = max 1 (min (if fps = 0 then default_fps else fps) max_fps)"

record capture_result =
  result_id :: string
  video_mp4 :: bytes
  frame_count :: nat
  actual_fps :: rat
  duration_ms :: int

definition capture_start :: "string \<Rightarrow> int \<Rightarrow> int \<Rightarrow> string prog" where
  "capture_start instance_name fps max_duration =
     (let fps = clamp_fps fps; max_duration = (if max_duration = 0 then default_max_duration else max_duration)
      in bind (gets captures) (\<lambda>sessions.
      if instance_name \<in> set (keys sessions)
      then raise (RuntimeError (''Capture already in progress for '' @ quote instance_name))
      else bind (observe uuid_of) (\<lambda>uuid.
        let capture_id = take 12 uuid
        in bind (mkdtemp (''vanpilot_video_'' @ instance_name @ ''_'')) (\<lambda>dir.
        let session = \<lparr>capture_id = capture_id, capture_instance = instance_name, target_fps = fps,
              max_duration_s = max_duration, frame_dir = dir, started_at = 0\<rparr>
        in andthen (modify (\<lambda>s. s\<lparr>captures := dict_set instance_name session (captures s)\<rparr>))
          (bind time_monotonic (\<lambda>t.
           andthen (modify (\<lambda>s. s\<lparr>captures := dict_set instance_name (session\<lparr>started_at := t\<rparr>) (captures s)\<rparr>))
           (andthen (start_thread (''video-capture-'' @ instance_name))
             (return capture_id))))))))"

definition frames_seen :: "capture_session \<Rightarrow> nat prog" where
  "frames_seen session = observe (\<lambda>os h. frames_of os h (capture_id session))"

section \<open>Stitching\<close>

definition ffmpeg_args :: "string \<Rightarrow> int \<Rightarrow> string list" where
  "ffmpeg_args dir fps =
     [''ffmpeg'', ''-y'', ''-framerate'', show_int fps, ''-i'', path_join dir ''frame_%06d.png'',
      ''-c:v'', ''libx264'', ''-pix_fmt'', ''yuv420p'', ''-movflags'', ''+faststart'', path_join dir ''output.mp4'']"

definition stitch_fps :: "rat \<Rightarrow> int \<Rightarrow> int" where
  "stitch_fps actual target = (if actual > 0 then max 1 (py_round actual) else target)"

definition stitch_frames :: "capture_session \<Rightarrow> rat \<Rightarrow> bytes prog" where
  "stitch_frames session actual =
     bind (catch
         (bind (run_within (Some 30) (ffmpeg_args (frame_dir session) (stitch_fps actual (target_fps session)))) (\<lambda>r.
          if returncode r \<noteq> 0 then raise CalledProcessError else return True))
         (\<lambda>e. if e = CalledProcessError \<or> e = TimeoutExpired \<or> e = FileNotFoundError then return False else raise e))
       (\<lambda>ok.
        if ok
        then catch (read_bytes (path_join (frame_dir session) ''output.mp4''))
          (\<lambda>e. if e = FileNotFoundError then return [] else raise e)
        else return [])"

text \<open>What \<open>stop\<close> does with the session it has taken out of the table.\<close>

definition finish_session :: "capture_session \<Rightarrow> capture_result prog" where
  "finish_session session =
     bind (observe (\<lambda>os h. thread_alive_of os h (capture_id session))) (\<lambda>alive.
     andthen (if alive then join_thread (capture_id session) 10 else return ())
     (bind time_monotonic (\<lambda>stopped_at.
      let duration_s = stopped_at - started_at session
      in bind (frames_seen session) (\<lambda>n.
      let actual = (if duration_s > 0 \<and> n > 0 then of_nat n / duration_s else 0)
      in if n = 0
         then andthen (rmtree (frame_dir session))
           (return \<lparr>result_id = capture_id session, video_mp4 = [], frame_count = 0, actual_fps = 0,
              duration_ms = to_ms duration_s\<rparr>)
         else bind (stitch_frames session actual) (\<lambda>video.
           andthen (rmtree (frame_dir session))
           (bind (frames_seen session) (\<lambda>n'.
            return \<lparr>result_id = capture_id session, video_mp4 = video, frame_count = n',
              actual_fps = of_int (py_round (actual * 100)) / 100, duration_ms = to_ms duration_s\<rparr>)))))))"

definition capture_stop :: "string \<Rightarrow> capture_result option prog" where
  "capture_stop instance_name =
     bind (gets (\<lambda>s. dict_get (captures s) instance_name)) (\<lambda>found.
     andthen (modify (\<lambda>s. s\<lparr>captures := dict_pop instance_name (captures s)\<rparr>))
     (case found of
        None \<Rightarrow> return None
      | Some session \<Rightarrow> bind (finish_session session) (\<lambda>c. return (Some c))))"

lemma quiet_finish [quiet_intros]: "quiet os (finish_session session)"
  unfolding finish_session_def stitch_frames_def frames_seen_def Let_def by (intro quiet_intros)

lemma term_finish [term_intros]: "terminates os (finish_session session)"
  unfolding finish_session_def stitch_frames_def frames_seen_def Let_def by (intro term_intros)

definition is_capturing :: "string \<Rightarrow> bool prog" where
  "is_capturing instance_name = gets (\<lambda>s. instance_name \<in> set (keys (captures s)))"

definition active_capture_id :: "string \<Rightarrow> string option prog" where
  "active_capture_id instance_name = gets (\<lambda>s. map_option capture_id (dict_get (captures s) instance_name))"

section \<open>The capture thread\<close>

definition default_screenshot :: "string \<Rightarrow> string \<Rightarrow> bool prog" where
  "default_screenshot pipe_path output_path =
     andthen (catch (unlink output_path) (\<lambda>e. if e = FileNotFoundError then return () else raise e))
     (bind (catch (andthen (pipe_write pipe_path (''screenshot '' @ output_path)) (return True))
          (\<lambda>e. if is_os_error e then return False else raise e)) (\<lambda>sent.
      if \<not> sent then return False
      else bind time_monotonic (\<lambda>t0.
        again (bind time_monotonic (\<lambda>t.
          if t < t0 + screenshot_timeout
          then bind (path_exists output_path) (\<lambda>there.
            bind (if there then bind (getsize output_path) (\<lambda>n. return (n > 0)) else return False) (\<lambda>ok.
            if ok then return (Some True)
            else andthen (sleep screenshot_poll_interval) (return None)))
          else return (Some False))))))"

text \<open>\<^verbatim>\<open>f"frame_{n:06d}.png"\<close>\<close>

definition frame_name :: "nat \<Rightarrow> string" where
  "frame_name n = ''frame_'' @ replicate (6 - length (show_nat n)) (CHR ''0'') @ show_nat n @ ''.png''"

text \<open>
  One turn of the thread's loop, with the session's frame count as its state: it leaves when the session
  is stopped or the deadline has passed; an exception of the screenshot function is logged and counts
  as no frame.  \<open>_stop_event.wait(sleep_time)\<close> is a sleep that the stop may cut short.
\<close>

definition wait_stop :: "capture_session \<Rightarrow> seconds \<Rightarrow> unit prog" where
  "wait_stop session d = bind (observe (\<lambda>os h. stop_set_of os h (capture_id session))) (\<lambda>stopped.
     if stopped then return () else sleep d)"

definition capture_turn :: "bool prog \<Rightarrow> capture_session \<Rightarrow> seconds \<Rightarrow> nat \<Rightarrow> nat prog" where
  "capture_turn shoot session interval n =
     bind time_monotonic (\<lambda>frame_start.
     bind (catch shoot (\<lambda>_. return False)) (\<lambda>ok.
     bind time_monotonic (\<lambda>t.
     let elapsed = t - frame_start; sleep_time = max 0 (interval - elapsed)
     in andthen (if sleep_time > 0 then wait_stop session sleep_time else return ())
       (return (if ok then Suc n else n)))))"

definition capture_loop :: "(string \<Rightarrow> bool prog) \<Rightarrow> capture_session \<Rightarrow> nat prog" where
  "capture_loop screenshot_fn session =
     bind time_monotonic (\<lambda>t0.
     let interval = 1 / of_int (target_fps session); deadline = t0 + of_int (max_duration_s session)
     in iterate (\<lambda>n.
       bind (observe (\<lambda>os h. stop_set_of os h (capture_id session))) (\<lambda>stopped.
       if stopped then return (Inr n)
       else bind time_monotonic (\<lambda>t.
         if t \<ge> deadline then return (Inr n)
         else bind (capture_turn (screenshot_fn (path_join (frame_dir session) (frame_name n))) session interval n)
           (\<lambda>n'. return (Inl n'))))) 0)"

end
