(* ===== verification/Instance_Service.thy ===== *)
theory Instance_Service
  imports Lifecycle_Create Video_Capture
begin

text \<open>
  \<^verbatim>\<open>instance_manager/src/instance_manager_service.py\<close>: the fifteen RPCs of the instance
  manager.  A handler is a program that returns a response or raises; \<open>context.abort\<close> records a
  status and raises, so an abort inside a \<open>try\<close> is caught by its \<open>except Exception\<close>.
\<close>

section \<open>Names\<close>

text \<open>
  \<open>_SAFE_NAME_RE.match\<close>: \<^verbatim>\<open>^[a-zA-Z0-9][a-zA-Z0-9._-]*$\<close>, where
  \<^verbatim>\<open>$\<close> also matches before a newline at the end.
\<close>

definition is_alnum :: "char \<Rightarrow> bool" where
  "is_alnum c \<longleftrightarrow> 97 \<le> code c \<and> code c \<le> 122 \<or> 65 \<le> code c \<and> code c \<le> 90 \<or> is_digit c"

definition is_name_char :: "char \<Rightarrow> bool" where
  "is_name_char c \<longleftrightarrow> is_alnum c \<or> c = CHR ''.'' \<or> c = CHR ''_'' \<or> c = CHR ''-''"

definition safe_name :: "string \<Rightarrow> bool" where
  "safe_name s = (case s of
       [] \<Rightarrow> False
     | c # cs \<Rightarrow> is_alnum c \<and>
         (case dropWhile is_name_char cs of [] \<Rightarrow> True | d # rest \<Rightarrow> d = newline \<and> rest = []))"

definition default_avd :: string where "default_avd = ''vanpilot_pixel9pro_api36''"
definition default_snapshot :: string where "default_snapshot = ''aa_ready''"

section \<open>Messages\<close>

record instance_info =
  info_name :: string
  info_state :: int
  info_emulator_console_port :: int
  info_adb_port :: int
  info_aa_forward_port :: int
  info_headful :: bool
  info_created_at_ms :: int
  info_avd_name :: string
  info_screenshot_png :: bytes
  info_emulator_screenshot_png :: bytes

text \<open>An unset bytes field reads as the empty string.\<close>

definition record_to_proto :: "instance_record \<Rightarrow> instance_info" where
  "record_to_proto r =
     \<lparr>info_name = inst_name r, info_state = inst_state r, info_emulator_console_port = emulator_console_port r,
      info_adb_port = adb_port r, info_aa_forward_port = aa_forward_port r, info_headful = headful r,
      info_created_at_ms = created_at_ms r, info_avd_name = avd_name r,
      info_screenshot_png = (case last_screenshot_png r of Some b \<Rightarrow> b | None \<Rightarrow> []),
      info_emulator_screenshot_png = (case last_emulator_screenshot_png r of Some b \<Rightarrow> b | None \<Rightarrow> [])\<rparr>"

datatype request =
    CreateReq string string string bool
  | DestroyReq string
  | ListReq
  | GetReq string
  | ScreenshotReq string
  | RestartDhuReq string
  | DhuCommandReq string string bool
  | InstallApkReq string bytes bool string
  | SaveSnapshotReq string string
  | LoadSnapshotReq string string
  | AdbShellReq string "string list" int
  | AdbPushReq string bytes string
  | AdbPullReq string string
  | StartVideoReq string int int
  | StopVideoReq string

datatype response =
    CreateInstanceResponse instance_info
  | DestroyInstanceResponse
  | ListInstancesResponse "instance_info list"
  | GetInstanceResponse instance_info
  | ScreenshotInstanceResponse bytes bytes int
  | RestartDhuResponse instance_info
  | DhuCommandResponse int bytes
  | InstallApkResponse instance_info
  | SaveSnapshotResponse instance_info
  | LoadSnapshotResponse instance_info
  | AdbShellResponse int string string
  | AdbPushResponse
  | AdbPullResponse bytes
  | StartVideoCaptureResponse string
  | StopVideoCaptureResponse bytes nat rat int string

section \<open>Guards\<close>

text \<open>\<open>if not ok: context.abort(code, message)\<close>\<close>

definition require :: "bool \<Rightarrow> status_code \<Rightarrow> string \<Rightarrow> unit prog" where
  "require ok c m = (if ok then return () else abort c (Message m))"

definition existing :: "string \<Rightarrow> instance_record prog" where
  "existing name =
     bind (get_instance name) (\<lambda>r. case r of
       None \<Rightarrow> abort NOT_FOUND (Message (''Instance '' @ quote name @ '' not found''))
     | Some r \<Rightarrow> return r)"

definition running :: "string \<Rightarrow> instance_record prog" where
  "running name =
     bind (existing name) (\<lambda>r.
     andthen (require (inst_state r = RUNNING) FAILED_PRECONDITION
       (''Instance '' @ quote name @ '' is not running (state='' @ show_int (inst_state r) @ '')''))
     (return r))"

text \<open>\<open>try: m except Exception as e: context.abort(INTERNAL, str(e))\<close>\<close>

definition or_internal :: "'a prog \<Rightarrow> 'a prog" where
  "or_internal m = catch m (\<lambda>e. abort INTERNAL (StrOf e))"

text \<open>Using \<open>None\<close> as a record raises an \<open>AttributeError\<close>.\<close>

definition the_record :: "instance_record option \<Rightarrow> instance_record prog" where
  "the_record r = (case r of None \<Rightarrow> raise AttributeError | Some r \<Rightarrow> return r)"

section \<open>The handlers\<close>

definition give_back :: "port_slot \<Rightarrow> string \<Rightarrow> exn \<Rightarrow> 'a prog" where
  "give_back slot name e =
     andthen (on_ports (release_slot (int (slot_index slot))))
     (andthen (on_store (store_remove name))
     (abort INTERNAL (StrOf e)))"

definition take_slot :: "port_slot prog" where
  "take_slot = catch (on_ports allocate)
     (\<lambda>e. case e of RuntimeError _ \<Rightarrow> abort RESOURCE_EXHAUSTED (StrOf e) | _ \<Rightarrow> raise e)"

definition CreateInstance :: "string \<Rightarrow> string \<Rightarrow> string \<Rightarrow> bool \<Rightarrow> response prog" where
  "CreateInstance name avd0 snapshot0 head =
     andthen (require (name \<noteq> []) INVALID_ARGUMENT ''name is required'')
     (andthen (require (safe_name name) INVALID_ARGUMENT
        (''Invalid name '' @ quote name @ '': must match [a-zA-Z0-9][a-zA-Z0-9._-]*''))
     (bind (get_instance name) (\<lambda>old.
      andthen (require (old = None) ALREADY_EXISTS (''Instance '' @ quote name @ '' already exists''))
      (let avd = (if avd0 \<noteq> [] then avd0 else default_avd);
           snapshot = (if snapshot0 \<noteq> [] then snapshot0 else default_snapshot)
       in andthen (require (safe_name avd) INVALID_ARGUMENT (''Invalid avd_name '' @ quote avd))
         (andthen (require (safe_name snapshot) INVALID_ARGUMENT (''Invalid snapshot_name '' @ quote snapshot))
         (bind take_slot (\<lambda>slot.
          bind time_time (\<lambda>t.
          andthen (on_store (store_create name (console_port slot) (slot_adb_port slot) (slot_aa_forward_port slot)
              head (to_ms t) avd))
          (catch
            (bind (create name avd snapshot head slot) (\<lambda>r.
             bind (the_record r) (\<lambda>r.
             return (CreateInstanceResponse (record_to_proto r)))))
            (give_back slot name)))))))))) "

definition DestroyInstance :: "string \<Rightarrow> response prog" where
  "DestroyInstance name =
     bind (existing name) (\<lambda>r.
     andthen (update_instance name (inst_state_update (\<lambda>_. DESTROYING)))
     (andthen (ignoring (\<lambda>_. True) (destroy r))
     (andthen (ignoring (\<lambda>e. case e of ValueError _ \<Rightarrow> True | _ \<Rightarrow> False)
        (on_ports (release_slot (slot_of_record r))))
     (andthen (on_store (store_remove name))
     (return DestroyInstanceResponse)))))"

definition ListInstances :: "response prog" where
  "ListInstances = gets (\<lambda>s. ListInstancesResponse (map record_to_proto (list_all_records (instances s))))"

definition GetInstance :: "string \<Rightarrow> response prog" where
  "GetInstance name = bind (existing name) (\<lambda>r. return (GetInstanceResponse (record_to_proto r)))"

definition ScreenshotInstance :: "string \<Rightarrow> response prog" where
  "ScreenshotInstance name =
     bind (running name) (\<lambda>r.
     or_internal
       (bind (screenshot r) (\<lambda>dhu_png.
        bind (emulator_screenshot_to_bytes (serial_of (emulator_console_port r))) (\<lambda>emu_png.
        bind time_time (\<lambda>t.
        andthen (update_instance name (\<lambda>r. r\<lparr>last_screenshot_png := Some dhu_png,
            last_emulator_screenshot_png := Some emu_png, last_screenshot_at_ms := Some (to_ms t)\<rparr>))
        (return (ScreenshotInstanceResponse dhu_png emu_png (to_ms t))))))))"

definition RestartDhu :: "string \<Rightarrow> response prog" where
  "RestartDhu name =
     bind (running name) (\<lambda>r.
     or_internal
       (bind (restart_dhu r) (\<lambda>u.
        bind (the_record u) (\<lambda>u.
        return (RestartDhuResponse (record_to_proto u))))))"

definition DhuCommand :: "string \<Rightarrow> string \<Rightarrow> bool \<Rightarrow> response prog" where
  "DhuCommand name command capture_screenshot =
     andthen (require (command \<noteq> []) INVALID_ARGUMENT ''command is required'')
     (bind (running name) (\<lambda>r.
      or_internal
        (bind (dhu_command r command capture_screenshot) (\<lambda>png.
         bind time_time (\<lambda>t.
         andthen (if png \<noteq> []
             then update_instance name (\<lambda>r. r\<lparr>last_screenshot_png := Some png, last_screenshot_at_ms := Some (to_ms t)\<rparr>)
             else return ())
         (return (DhuCommandResponse (to_ms t) png)))))))"

definition InstallApk :: "string \<Rightarrow> bytes \<Rightarrow> bool \<Rightarrow> string \<Rightarrow> response prog" where
  "InstallApk name apk_data restart snapshot =
     andthen (require (apk_data \<noteq> []) INVALID_ARGUMENT ''apk_data is required'')
     (bind (running name) (\<lambda>r.
      or_internal
        (andthen (install_apk r apk_data)
        (bind (if restart then restart_dhu r else get_instance name) (\<lambda>r.
         andthen (if snapshot \<noteq> []
             then andthen (require (safe_name snapshot) INVALID_ARGUMENT
                 (''Invalid save_snapshot name '' @ quote snapshot))
               (bind (the_record r) (\<lambda>r. save_snapshot r snapshot))
             else return ())
         (bind (the_record r) (\<lambda>r.
          return (InstallApkResponse (record_to_proto r)))))))))"

definition validate_snapshot_request :: "string \<Rightarrow> string \<Rightarrow> instance_record prog" where
  "validate_snapshot_request name snapshot =
     andthen (require (snapshot \<noteq> []) INVALID_ARGUMENT ''snapshot_name is required'')
     (andthen (require (safe_name snapshot) INVALID_ARGUMENT (''Invalid snapshot_name '' @ quote snapshot))
     (running name))"

definition SaveSnapshot :: "string \<Rightarrow> string \<Rightarrow> response prog" where
  "SaveSnapshot name snapshot =
     bind (validate_snapshot_request name snapshot) (\<lambda>r.
     or_internal (andthen (save_snapshot r snapshot) (return (SaveSnapshotResponse (record_to_proto r)))))"

definition LoadSnapshot :: "string \<Rightarrow> string \<Rightarrow> response prog" where
  "LoadSnapshot name snapshot =
     bind (validate_snapshot_request name snapshot) (\<lambda>r.
     or_internal (andthen (load_snapshot r snapshot) (return (LoadSnapshotResponse (record_to_proto r)))))"

definition AdbShell :: "string \<Rightarrow> string list \<Rightarrow> int \<Rightarrow> response prog" where
  "AdbShell name args timeout_s =
     andthen (require (args \<noteq> []) INVALID_ARGUMENT ''args is required'')
     (bind (running name) (\<lambda>r.
      or_internal
        (bind (adb_shell r args timeout_s) (\<lambda>(exit_code, out, err).
         return (AdbShellResponse exit_code out err)))))"

definition AdbPush :: "string \<Rightarrow> bytes \<Rightarrow> string \<Rightarrow> response prog" where
  "AdbPush name data remote_path =
     andthen (require (data \<noteq> []) INVALID_ARGUMENT ''data is required'')
     (andthen (require (remote_path \<noteq> []) INVALID_ARGUMENT ''remote_path is required'')
     (bind (running name) (\<lambda>r.
      or_internal (andthen (adb_push r data remote_path) (return AdbPushResponse)))))"

definition AdbPull :: "string \<Rightarrow> string \<Rightarrow> response prog" where
  "AdbPull name remote_path =
     andthen (require (remote_path \<noteq> []) INVALID_ARGUMENT ''remote_path is required'')
     (bind (running name) (\<lambda>r.
      or_internal (bind (adb_pull r remote_path) (\<lambda>data. return (AdbPullResponse data)))))"

definition StartVideoCapture :: "string \<Rightarrow> int \<Rightarrow> int \<Rightarrow> response prog" where
  "StartVideoCapture name fps max_duration =
     bind (running name) (\<lambda>r.
     bind (case inst_pipe_path r of
         Some p \<Rightarrow> if p \<noteq> [] then return p
           else abort FAILED_PRECONDITION (Message (''Instance '' @ quote name @ '' has no pipe path''))
       | None \<Rightarrow> abort FAILED_PRECONDITION (Message (''Instance '' @ quote name @ '' has no pipe path''))) (\<lambda>pipe.
     catch
       (bind (capture_start name fps max_duration) (\<lambda>i. return (StartVideoCaptureResponse i)))
       (\<lambda>e. case e of
          RuntimeError _ \<Rightarrow> abort ALREADY_EXISTS (StrOf e)
        | _ \<Rightarrow> abort INTERNAL (StrOf e))))"

definition StopVideoCapture :: "string \<Rightarrow> response prog" where
  "StopVideoCapture name =
     bind (existing name) (\<lambda>r.
     bind (capture_stop name) (\<lambda>res. case res of
       None \<Rightarrow> abort NOT_FOUND (Message (''No active video capture for '' @ quote name))
     | Some c \<Rightarrow> return (StopVideoCaptureResponse (video_mp4 c) (frame_count c) (actual_fps c)
         (duration_ms c) (result_id c))))"

section \<open>Serving\<close>

fun handle :: "request \<Rightarrow> response prog" where
  "handle (CreateReq name avd snapshot head) = CreateInstance name avd snapshot head"
| "handle (DestroyReq name) = DestroyInstance name"
| "handle ListReq = ListInstances"
| "handle (GetReq name) = GetInstance name"
| "handle (ScreenshotReq name) = ScreenshotInstance name"
| "handle (RestartDhuReq name) = RestartDhu name"
| "handle (DhuCommandReq name command capture) = DhuCommand name command capture"
| "handle (InstallApkReq name apk restart snapshot) = InstallApk name apk restart snapshot"
| "handle (SaveSnapshotReq name snapshot) = SaveSnapshot name snapshot"
| "handle (LoadSnapshotReq name snapshot) = LoadSnapshot name snapshot"
| "handle (AdbShellReq name args timeout) = AdbShell name args timeout"
| "handle (AdbPushReq name data path) = AdbPush name data path"
| "handle (AdbPullReq name path) = AdbPull name path"
| "handle (StartVideoReq name fps dur) = StartVideoCapture name fps dur"
| "handle (StopVideoReq name) = StopVideoCapture name"

text \<open>
  What the client gets: the response, the status the handler aborted with, or (for an exception without
  an abort) the status UNKNOWN, here \<open>Crashed\<close>.
\<close>

datatype reply = Replied response | Failed status_code details | Crashed exn

definition reply_of :: "response result \<Rightarrow> sys \<Rightarrow> reply" where
  "reply_of r s = (case r of
       Inr x \<Rightarrow> Replied x
     | Inl e \<Rightarrow> (case rpc_status s of Some (c, d) \<Rightarrow> Failed c d | None \<Rightarrow> Crashed e))"

text \<open>One RPC, with a context of its own.\<close>

definition rpc :: "os \<Rightarrow> request \<Rightarrow> sys \<Rightarrow> (reply \<times> sys) option" where
  "rpc os req s = (case handle req os (s\<lparr>rpc_status := None\<rparr>) of
       None \<Rightarrow> None
     | Some (r, s') \<Rightarrow> Some (reply_of r s', s'))"

section \<open>Background and shutdown\<close>

text \<open>
  One round of \<^verbatim>\<open>_screenshot_refresh_loop\<close> (\<^verbatim>\<open>server.py\<close>), which runs for ever
  in its own thread, and the shutdown of all instances (\<^verbatim>\<open>cleanup.py\<close>).
\<close>

definition refresh_instance :: "instance_record \<Rightarrow> unit prog" where
  "refresh_instance r =
     bind (check_health (inst_name r)) (\<lambda>healthy.
     if \<not> healthy
     then ignoring (\<lambda>e. case e of KeyError _ \<Rightarrow> True | _ \<Rightarrow> False)
       (update_instance (inst_name r) (inst_state_update (\<lambda>_. ERROR)))
     else ignoring (\<lambda>_. True)
       (bind (screenshot r) (\<lambda>dhu_png.
        bind (emulator_screenshot_to_bytes (serial_of (emulator_console_port r))) (\<lambda>emu_png.
        bind time_time (\<lambda>t.
        update_instance (inst_name r) (\<lambda>r. r\<lparr>last_screenshot_png := Some dhu_png,
          last_emulator_screenshot_png := Some emu_png, last_screenshot_at_ms := Some (to_ms t)\<rparr>))))))"

definition refresh_round :: "unit prog" where
  "refresh_round = andthen (sleep 30) (bind (gets (\<lambda>s. get_running (instances s))) (for_each refresh_instance))"

definition shutdown_all_instances :: "unit prog" where
  "shutdown_all_instances =
     bind (gets (\<lambda>s. list_all_records (instances s))) (for_each (\<lambda>r. ignoring (\<lambda>_. True) (destroy r)))"

text \<open>\<open>line.split()[0]\<close>\<close>

definition first_word :: "string \<Rightarrow> string result" where
  "first_word line = (case takeWhile (\<lambda>c. \<not> is_space c) (dropWhile is_space line) of
       [] \<Rightarrow> Inl IndexError | w \<Rightarrow> Inr w)"

definition kill_orphan_emulators :: "unit prog" where
  "kill_orphan_emulators =
     ignoring is_os_error
       (bind (run [''pgrep'', ''-af'', ''emulator.*@'']) (\<lambda>res.
        if returncode res \<noteq> 0 \<or> strip (stdout res) = [] then return ()
        else for_each (\<lambda>line.
          bind (of_result (first_word line)) (\<lambda>pid.
          ignoring is_os_error (bind (run [''kill'', ''-9'', pid]) (\<lambda>_. return ()))))
          (splitlines (strip (stdout res)))))"

text \<open>The manager as \<^verbatim>\<open>create_server\<close> wires it, before any request.\<close>

definition create_manager :: "nat \<Rightarrow> sys" where
  "create_manager slots =
     \<lparr>instances = [], tracked = [], ports = port_allocator_init slots, captures = [], boot_timeout = 60,
      dhu_timeout = 30, rpc_status = None, new_handles = no_handles, trace = []\<rparr>"

text \<open>What happens to a running manager, one thing after the other.\<close>

datatype event = Request request | RefreshRound

definition step :: "os \<Rightarrow> event \<Rightarrow> sys \<Rightarrow> (reply option \<times> sys) option" where
  "step os ev s = (case ev of
       Request req \<Rightarrow> map_option (\<lambda>(a, s'). (Some a, s')) (rpc os req s)
     | RefreshRound \<Rightarrow> map_option (\<lambda>(_, s'). (None, s')) (refresh_round os s))"

fun steps :: "os \<Rightarrow> event list \<Rightarrow> sys \<Rightarrow> (reply option list \<times> sys) option" where
  "steps os [] s = Some ([], s)"
| "steps os (ev # evs) s = (case step os ev s of
       None \<Rightarrow> None
     | Some (a, s') \<Rightarrow> map_option (\<lambda>(as, s''). (a # as, s'')) (steps os evs s'))"

text \<open>The method table of the generic handler.\<close>

definition im_method_handlers :: "(string \<times> string) list" where
  "im_method_handlers = map (\<lambda>m. (''/vanpilot.v1.InstanceManagerService/'' @ m, m))
     [''CreateInstance'', ''DestroyInstance'', ''ListInstances'', ''GetInstance'', ''ScreenshotInstance'',
      ''RestartDhu'', ''DhuCommand'', ''InstallApk'', ''SaveSnapshot'', ''LoadSnapshot'', ''AdbShell'',
      ''AdbPush'', ''AdbPull'', ''StartVideoCapture'', ''StopVideoCapture'']"

definition im_service :: "string \<Rightarrow> string option" where
  "im_service path = map_of im_method_handlers path"

end
