(* ===== verification/Service_Invariant.thy ===== *)
theory Service_Invariant
  imports Instance_Service
begin

text \<open>
  The state of the instance manager between RPCs: every record is an instance that came up, known under
  its own name, whose four processes are tracked under the pids the record holds; its ports are those of its
  slot, and the slots in use are exactly those of the records.  Every RPC keeps this, whatever the
  operating system answers.
\<close>

section \<open>The invariant\<close>

definition record_ok :: "sys \<Rightarrow> string \<Rightarrow> instance_record \<Rightarrow> bool" where
  "record_ok s name r \<longleftrightarrow> inst_name r = name \<and> inst_state r \<in> {RUNNING, ERROR} \<and>
     (\<exists>i. emulator_console_port r = console_port (make_slot i) \<and> adb_port r = slot_adb_port (make_slot i) \<and>
        aa_forward_port r = slot_aa_forward_port (make_slot i)) \<and>
     (\<exists>h. dict_get (tracked s) name = Some h \<and> pids_recorded r h \<and> inst_pipe_path r \<noteq> None)"

definition manager_ok :: "sys \<Rightarrow> bool" where
  "manager_ok s \<longleftrightarrow> wf_dict (instances s) \<and> set (keys (tracked s)) = set (keys (instances s)) \<and>
     used_slots (ports s) \<subseteq> {..<max_slots (ports s)} \<and>
     slots_match (used_slots (ports s)) (store_get (instances s)) slot_of_record \<and>
     (\<forall>name r. dict_get (instances s) name = Some r \<longrightarrow> record_ok s name r)"

text \<open>The invariant with the names of the instances and the port allocator fixed.\<close>

definition inv_on :: "string set \<times> port_allocator \<Rightarrow> sys \<Rightarrow> bool" where
  "inv_on K s \<longleftrightarrow> manager_ok s \<and> set (keys (instances s)) = fst K \<and> ports s = snd K"

definition keeps :: "os \<Rightarrow> string set \<times> port_allocator \<Rightarrow> 'a prog \<Rightarrow> bool" where
  "keeps os K m \<longleftrightarrow> triple os (inv_on K) m (\<lambda>_. inv_on K)"

named_theorems keeps_intros "operations that keep the invariant and the set of instances"

lemma manager_ok_irrelevant [simp]:
  "manager_ok (s\<lparr>trace := t\<rparr>) = manager_ok s" "manager_ok (s\<lparr>rpc_status := c\<rparr>) = manager_ok s"
  "manager_ok (s\<lparr>captures := cs\<rparr>) = manager_ok s" "manager_ok (s\<lparr>new_handles := h\<rparr>) = manager_ok s"
  by (simp_all add: manager_ok_def record_ok_def)

lemma inv_on_irrelevant [simp]:
  "inv_on K (s\<lparr>trace := t\<rparr>) = inv_on K s" "inv_on K (s\<lparr>rpc_status := c\<rparr>) = inv_on K s"
  "inv_on K (s\<lparr>captures := cs\<rparr>) = inv_on K s" "inv_on K (s\<lparr>new_handles := h\<rparr>) = inv_on K s"
  by (simp_all add: inv_on_def)

lemma keeps_quiet: "quiet os m \<Longrightarrow> keeps os K m"
  unfolding keeps_def by (rule triple_quiet) auto

lemmas keeps_calls [keeps_intros] =
  quiet_return [THEN keeps_quiet] quiet_raise [THEN keeps_quiet] quiet_of_result [THEN keeps_quiet]
  quiet_gets [THEN keeps_quiet] quiet_observe [THEN keeps_quiet] quiet_env [THEN keeps_quiet]
  quiet_calls [THEN keeps_quiet] quiet_run_check [THEN keeps_quiet] quiet_files [THEN keeps_quiet]
  quiet_screenshots [THEN keeps_quiet] quiet_waits [THEN keeps_quiet] quiet_stops [THEN keeps_quiet]
  quiet_finish [THEN keeps_quiet]

lemma keeps_bind [keeps_intros]: "keeps os K m \<Longrightarrow> (\<And>x. keeps os K (f x)) \<Longrightarrow> keeps os K (bind m f)"
  unfolding keeps_def by (rule triple_bind) auto

lemma keeps_catch [keeps_intros]: "keeps os K m \<Longrightarrow> (\<And>e. keeps os K (h e)) \<Longrightarrow> keeps os K (catch m h)"
  unfolding keeps_def by (rule triple_catch) auto

lemma keeps_if [keeps_intros]: "(b \<Longrightarrow> keeps os K m) \<Longrightarrow> (\<not> b \<Longrightarrow> keeps os K n) \<Longrightarrow> keeps os K (if b then m else n)"
  by simp

lemma keeps_case_option [keeps_intros]:
  "keeps os K m \<Longrightarrow> (\<And>x. keeps os K (f x)) \<Longrightarrow> keeps os K (case v of None \<Rightarrow> m | Some x \<Rightarrow> f x)"
  by (cases v) auto

lemma keeps_case_prod [keeps_intros]:
  "(\<And>x y. keeps os K (f x y)) \<Longrightarrow> keeps os K (case v of (x, y) \<Rightarrow> f x y)"
  by (cases v) auto

lemma keeps_case_exn [keeps_intros]:
  "(\<And>m. keeps os K (f m)) \<Longrightarrow> keeps os K g \<Longrightarrow> keeps os K (case e of RuntimeError m \<Rightarrow> f m | _ \<Rightarrow> g)"
  by (cases e) auto

lemma keeps_popen [keeps_intros]: "keeps os K (popen argv)"
  by (simp add: keeps_def triple_def popen_def ask_def)

lemma keeps_abort [keeps_intros]: "keeps os K (abort c d)"
  by (auto simp: keeps_def triple_def abort_def bind_def modify_def raise_def)

lemma keeps_captures [keeps_intros]: "keeps os K (modify (\<lambda>s. s\<lparr>captures := f s\<rparr>))"
  by (simp add: keeps_def triple_def modify_def)

text \<open>Changing a record's screenshots only, or marking it as failed.\<close>

definition same_vitals :: "instance_record \<Rightarrow> instance_record \<Rightarrow> bool" where
  "same_vitals r r' \<longleftrightarrow> same_identity r r' \<and> (inst_state r' = inst_state r \<or> inst_state r' = ERROR) \<and>
     emulator_pid r' = emulator_pid r \<and> socat_pid r' = socat_pid r \<and> keeper_pid r' = keeper_pid r \<and>
     dhu_pid r' = dhu_pid r \<and> inst_pipe_path r' = inst_pipe_path r"

lemma slot_same_identity: "same_identity r r' \<Longrightarrow> slot_of_record r' = slot_of_record r"
  by (simp add: same_identity_def slot_of_record_def)

lemma slots_update:
  assumes "slots_match used (store_get st) slot_of_record" "dict_get st name = Some r" "same_identity r r'"
  shows "slots_match used (store_get (dict_set name r' st)) slot_of_record"
  using slots_match_modify [OF assms(1), of name r r'] assms(2,3)
  by (simp add: store_get_def [abs_def] dict_simps slot_same_identity)

lemma record_ok_vitals: "record_ok s name r \<Longrightarrow> same_vitals r r' \<Longrightarrow> record_ok s' name r'"
  if "tracked s' = tracked s"
  using that unfolding record_ok_def same_vitals_def same_identity_def pids_recorded_def by auto

lemma manager_ok_update:
  assumes ok: "manager_ok s" and r: "dict_get (instances s) name = Some r" "same_vitals r r'"
  shows "manager_ok (s\<lparr>instances := dict_set name r' (instances s)\<rparr>)"
proof -
  let ?s' = "s\<lparr>instances := dict_set name r' (instances s)\<rparr>"
  have "name \<in> set (keys (instances s))" using r(1) by (rule present)
  then have keys: "set (keys (instances ?s')) = set (keys (instances s))"
    by (simp add: insert_absorb del: set_map)
  have "record_ok ?s' k q" if "dict_get (instances ?s') k = Some q" for k q
  proof (cases "k = name")
    case True
    with that ok r show ?thesis
      by (auto simp: dict_simps manager_ok_def intro: record_ok_vitals [where r = r and s = s])
  next
    case False
    with that ok have "record_ok s k q" by (simp add: dict_simps manager_ok_def)
    then show ?thesis by (rule record_ok_vitals [rotated]) (simp_all add: same_vitals_def)
  qed
  moreover have "slots_match (used_slots (ports s)) (store_get (instances ?s')) slot_of_record"
    using ok r by (auto simp: manager_ok_def same_vitals_def intro: slots_update)
  ultimately show ?thesis using ok keys by (simp add: manager_ok_def del: set_map)
qed

lemma keeps_update [keeps_intros]:
  assumes "\<And>r. same_vitals r (f r)"
  shows "keeps os K (update_instance name f)"
  unfolding keeps_def
proof (rule triple_on_store)
  fix s assume "inv_on K s"
  then have ok: "manager_ok s" and K: "set (keys (instances s)) = fst K" "ports s = snd K" by (simp_all add: inv_on_def del: set_map)
  show "inv_on K (s\<lparr>instances := snd (store_update name f (instances s))\<rparr>)"
  proof (cases "dict_get (instances s) name")
    case None
    then show ?thesis using \<open>inv_on K s\<close> by (simp add: store_update_def)
  next
    case (Some r)
    from manager_ok_update [OF ok Some assms] present [OF Some] K show ?thesis
      by (auto simp: inv_on_def store_update_def Some insert_absorb simp del: set_map)
  qed
qed

section \<open>Finding the instance\<close>

lemma keeps_require [keeps_intros]: "keeps os K (require b c m)"
  unfolding require_def by (intro keeps_intros)

lemma keeps_existing:
  assumes "\<And>r. inst_name r = name \<Longrightarrow> name \<in> fst K \<Longrightarrow> keeps os K (f r)"
  shows "keeps os K (bind (existing name) f)"
  unfolding keeps_def
proof (rule triple_bind)
  show "triple os (inv_on K) (existing name)
    (\<lambda>q s. inv_on K s \<and> (\<forall>r. q = Inr r \<longrightarrow> inst_name r = name \<and> name \<in> fst K))"
    by (auto simp: triple_def existing_def bind_def gets_def abort_def modify_def raise_def return_def
        store_get_def inv_on_def manager_ok_def record_ok_def dest: present split: option.splits simp del: set_map)
  show "triple os (\<lambda>s. inv_on K s \<and> (\<forall>r. Inr x = Inr r \<longrightarrow> inst_name r = name \<and> name \<in> fst K)) (f x) (\<lambda>_. inv_on K)" for x
    using assms [of x] unfolding keeps_def triple_def by blast
qed simp

lemma keeps_running:
  assumes "\<And>r. inst_name r = name \<Longrightarrow> name \<in> fst K \<Longrightarrow> keeps os K (f r)"
  shows "keeps os K (bind (running name) f)"
  unfolding running_def bind_assoc
proof (rule keeps_existing)
  fix r :: instance_record assume r: "inst_name r = name" "name \<in> fst K"
  have "bind (return r) f = f r" by (simp add: bind_def return_def)
  with assms [OF r] show "keeps os K (andthen (require (inst_state r = RUNNING) FAILED_PRECONDITION
      (''Instance '' @ quote name @ '' is not running (state='' @ show_int (inst_state r) @ '')'')) (bind (return r) f))"
    by (simp only:) (intro keeps_intros)
qed

lemma keeps_or_internal [keeps_intros]: "keeps os K m \<Longrightarrow> keeps os K (or_internal m)"
  unfolding or_internal_def by (intro keeps_intros)

lemma keeps_the_record [keeps_intros]: "keeps os K (the_record r)"
  unfolding the_record_def by (intro keeps_intros)

section \<open>Restarting the DHU\<close>

text \<open>The new pids enter the handles and the record one after the other; the pair keeps the invariant.\<close>

lemma keeps_new_dhu:
  assumes name: "name \<in> fst K"
  shows "keeps os K (andthen (modify (track_dhu name dhu keeper))
    (update_instance name (\<lambda>r. r\<lparr>dhu_pid := Some dhu, keeper_pid := Some keeper,
       inst_pipe_path := Some pipe, inst_log_path := Some logf\<rparr>)))"
  unfolding keeps_def
proof (rule tripleI)
  fix s q s'
  let ?f = "\<lambda>r. r\<lparr>dhu_pid := Some dhu, keeper_pid := Some keeper, inst_pipe_path := Some pipe, inst_log_path := Some logf\<rparr>"
  assume inv: "inv_on K s" and run: "andthen (modify (track_dhu name dhu keeper)) (update_instance name ?f) os s = Some (q, s')"
  from inv have ok: "manager_ok s" and K: "set (keys (instances s)) = fst K" "ports s = snd K" by (simp_all add: inv_on_def del: set_map)
  from K name obtain r where r: "dict_get (instances s) name = Some r"
    by (metis dict_get_None_iff option.exhaust)
  with ok have "record_ok s name r" unfolding manager_ok_def by blast
  then obtain h where h: "dict_get (tracked s) name = Some h" "pids_recorded r h"
    by (auto simp: record_ok_def)
  let ?h = "h\<lparr>h_dhu := Some dhu, h_keeper := Some keeper\<rparr>"
  let ?s = "s\<lparr>tracked := dict_set name ?h (tracked s), instances := dict_set name (?f r) (instances s)\<rparr>"
  have s': "s' = ?s"
    using run r h(1) by (auto simp: bind_def modify_def track_dhu_def on_store_def store_update_def)
  have keys: "set (keys (instances ?s)) = set (keys (instances s))" "set (keys (tracked ?s)) = set (keys (tracked s))"
    using present [OF r] present [OF h(1)] by (simp_all add: insert_absorb del: set_map)
  have "record_ok ?s k p" if "dict_get (instances ?s) k = Some p" for k p
  proof (cases "k = name")
    case True
    with that have "p = ?f r" by (simp add: dict_simps)
    with True \<open>record_ok s name r\<close> h(2) show ?thesis
      by (auto simp: dict_simps record_ok_def pids_recorded_def)
  next
    case False
    with that ok have "record_ok s k p" by (simp add: dict_simps manager_ok_def)
    with False show ?thesis by (simp add: record_ok_def dict_simps)
  qed
  moreover have "slots_match (used_slots (ports s)) (store_get (instances ?s)) slot_of_record"
    using ok r by (auto simp: manager_ok_def same_identity_def intro: slots_update)
  ultimately show "inv_on K s'" using ok keys K by (simp add: s' inv_on_def manager_ok_def del: set_map)
qed

lemma keeps_restart [keeps_intros]:
  assumes "inst_name r \<in> fst K"
  shows "keeps os K (restart_dhu r)"
proof -
  have finish: "keeps os K (restart_finish r pipe logf keeper dhu)" for pipe logf keeper dhu
    unfolding restart_finish_def Let_def
    by (subst bind_assoc [symmetric], intro keeps_bind keeps_new_dhu [OF assms] keeps_intros)
      (simp add: same_vitals_def same_identity_def)
  show ?thesis
    unfolding restart_dhu_def stop_old_dhu_def Let_def by (intro keeps_intros finish)
qed

section \<open>The handlers\<close>

lemma keeps_commands [keeps_intros]:
  "keeps os K (dhu_command r c b)" "keeps os K (adb_shell r args t)" "keeps os K (adb_push r d p)"
  "keeps os K (adb_pull r p)" "keeps os K (install_apk r d)" "keeps os K (save_snapshot r n)"
  "keeps os K (load_snapshot r n)"
  unfolding dhu_command_def adb_shell_def adb_push_def adb_pull_def install_apk_def save_snapshot_def load_snapshot_def
    with_temp_def
  by (intro keeps_quiet quiet_intros)+

lemma keeps_capture [keeps_intros]:
  "keeps os K (capture_start name fps d)" "keeps os K (capture_stop name)"
  unfolding capture_start_def capture_stop_def Let_def
  by (intro keeps_intros)+

lemma keeps_handlers:
  assumes "\<And>n a v h. req \<noteq> CreateReq n a v h" "\<And>n. req \<noteq> DestroyReq n"
  shows "keeps os K (handle req)"
  using assms
  by (cases req)
    (auto simp: ListInstances_def GetInstance_def ScreenshotInstance_def RestartDhu_def DhuCommand_def InstallApk_def
      validate_snapshot_request_def SaveSnapshot_def LoadSnapshot_def AdbShell_def AdbPush_def AdbPull_def
      StartVideoCapture_def StopVideoCapture_def bind_assoc same_vitals_def same_identity_def
      intro!: keeps_intros keeps_running keeps_existing)

end
