(* ===== verification/Service_Create.thy ===== *)
theory Service_Create
  imports Service_Invariant
begin

text \<open>
  Creating and destroying through the service.  A refused request changes nothing and makes no call; a
  creation that fails leaves the manager as it was and kills what it started; one that succeeds adds a
  running instance on the lowest free slot.  Destroying always succeeds for an existing instance.
\<close>

section \<open>Refused requests\<close>

definition create_refusal :: "sys \<Rightarrow> string \<Rightarrow> string \<Rightarrow> string \<Rightarrow> (status_code \<times> details) option" where
  "create_refusal s name avd0 snapshot0 =
     (let avd = (if avd0 \<noteq> [] then avd0 else default_avd);
          snapshot = (if snapshot0 \<noteq> [] then snapshot0 else default_snapshot)
      in if name = [] then Some (INVALID_ARGUMENT, Message ''name is required'')
         else if \<not> safe_name name then Some (INVALID_ARGUMENT,
           Message (''Invalid name '' @ quote name @ '': must match [a-zA-Z0-9][a-zA-Z0-9._-]*''))
         else if name \<in> set (keys (instances s)) then Some (ALREADY_EXISTS,
           Message (''Instance '' @ quote name @ '' already exists''))
         else if \<not> safe_name avd then Some (INVALID_ARGUMENT, Message (''Invalid avd_name '' @ quote avd))
         else if \<not> safe_name snapshot then Some (INVALID_ARGUMENT, Message (''Invalid snapshot_name '' @ quote snapshot))
         else if {..<max_slots (ports s)} \<subseteq> used_slots (ports s) then Some (RESOURCE_EXHAUSTED,
           StrOf (RuntimeError (''All '' @ show_nat (max_slots (ports s)) @ '' port slots are in use'')))
         else None)"

lemma allocate_full:
  "{..<max_slots p} \<subseteq> used_slots p \<Longrightarrow>
   allocate p = (Inl (RuntimeError (''All '' @ show_nat (max_slots p) @ '' port slots are in use'')), p)"
proof -
  assume "{..<max_slots p} \<subseteq> used_slots p"
  then have "filter (\<lambda>i. i \<notin> used_slots p) [0..<max_slots p] = []" by (auto simp: filter_empty_conv)
  then show ?thesis by (simp add: allocate_def)
qed

lemma allocate_free:
  assumes "\<not> {..<max_slots p} \<subseteq> used_slots p"
  obtains i where "allocate p = (Inr (make_slot i), p\<lparr>used_slots := insert i (used_slots p)\<rparr>)"
    "i \<notin> used_slots p" "i < max_slots p"
proof -
  from assms have "filter (\<lambda>i. i \<notin> used_slots p) [0..<max_slots p] \<noteq> []" by (auto simp: filter_empty_conv)
  then obtain i rest where "filter (\<lambda>i. i \<notin> used_slots p) [0..<max_slots p] = i # rest" by (meson list.exhaust)
  with filter_upt_Cons [OF this] that show thesis by (simp add: allocate_def)
qed

lemma bind_return [simp]: "bind (return x) f = f x"
  by (simp add: bind_def return_def)

lemma bind_abort [simp]: "bind (abort c d) f = abort c d"
  by (simp add: bind_def abort_def modify_def raise_def)

lemma abort_run: "abort c d os s = Some (Inl RpcAbort, s\<lparr>rpc_status := Some (c, d)\<rparr>)"
  by (simp add: bind_def abort_def modify_def raise_def)

lemma bind_gets: "bind (gets g) f os s = f (g s) os s"
  by (simp add: bind_def gets_def)

lemma store_get_None: "store_get st name = None \<longleftrightarrow> name \<notin> set (keys st)"
  by (simp add: store_get_def dict_get_None_iff)

lemma bind_require:
  "bind (require ok c m) f os s = (if ok then f () os s else Some (Inl RpcAbort, s\<lparr>rpc_status := Some (c, Message m)\<rparr>))"
  by (simp add: require_def abort_run)

text \<open>What an admitted request does once it has its slot.\<close>

definition create_in_slot :: "string \<Rightarrow> string \<Rightarrow> string \<Rightarrow> bool \<Rightarrow> port_slot \<Rightarrow> response prog" where
  "create_in_slot name avd snapshot head slot =
     bind time_time (\<lambda>t.
     andthen (on_store (store_create name (console_port slot) (slot_adb_port slot) (slot_aa_forward_port slot)
         head (to_ms t) avd))
     (catch
       (bind (create name avd snapshot head slot) (\<lambda>r.
        bind (the_record r) (\<lambda>r.
        return (CreateInstanceResponse (record_to_proto r)))))
       (give_back slot name)))"

lemma CreateInstance_steps:
  fixes avd0 snapshot0
  defines "avd \<equiv> (if avd0 \<noteq> [] then avd0 else default_avd)"
    and "snapshot \<equiv> (if snapshot0 \<noteq> [] then snapshot0 else default_snapshot)"
  shows "CreateInstance name avd0 snapshot0 head os s =
    (case create_refusal s name avd0 snapshot0 of
       Some (c, d) \<Rightarrow> Some (Inl RpcAbort, s\<lparr>rpc_status := Some (c, d)\<rparr>)
     | None \<Rightarrow> bind take_slot (create_in_slot name avd snapshot head) os s)"
proof -
  have full: "bind take_slot f os s = Some (Inl RpcAbort, s\<lparr>rpc_status := Some (RESOURCE_EXHAUSTED,
      StrOf (RuntimeError (''All '' @ show_nat (max_slots (ports s)) @ '' port slots are in use'')))\<rparr>)"
    if "{..<max_slots (ports s)} \<subseteq> used_slots (ports s)" for f :: "port_slot \<Rightarrow> response prog"
    using that by (simp add: take_slot_def catch_def bind_def attempt_def on_ports_def allocate_full abort_run)
  have "CreateInstance name avd0 snapshot0 head os s =
    (if name = [] then Some (Inl RpcAbort, s\<lparr>rpc_status := Some (INVALID_ARGUMENT, Message ''name is required'')\<rparr>)
     else if \<not> safe_name name then Some (Inl RpcAbort, s\<lparr>rpc_status := Some (INVALID_ARGUMENT,
           Message (''Invalid name '' @ quote name @ '': must match [a-zA-Z0-9][a-zA-Z0-9._-]*''))\<rparr>)
     else if name \<in> set (keys (instances s)) then Some (Inl RpcAbort, s\<lparr>rpc_status := Some (ALREADY_EXISTS,
           Message (''Instance '' @ quote name @ '' already exists''))\<rparr>)
     else if \<not> safe_name avd then Some (Inl RpcAbort, s\<lparr>rpc_status := Some (INVALID_ARGUMENT, Message (''Invalid avd_name '' @ quote avd))\<rparr>)
     else if \<not> safe_name snapshot then Some (Inl RpcAbort, s\<lparr>rpc_status := Some (INVALID_ARGUMENT, Message (''Invalid snapshot_name '' @ quote snapshot))\<rparr>)
     else bind take_slot (create_in_slot name avd snapshot head) os s)"
    by (simp add: CreateInstance_def avd_def snapshot_def Let_def bind_require bind_gets store_get_None
        create_in_slot_def [abs_def] del: set_map)
  then show ?thesis
    unfolding create_refusal_def Let_def avd_def [symmetric] snapshot_def [symmetric]
    by (simp add: full del: set_map)
qed

section \<open>Creating\<close>

text \<open>The manager's own state, which a failed creation must leave alone.\<close>

definition same_manager :: "sys \<Rightarrow> sys \<Rightarrow> bool" where
  "same_manager s s' \<longleftrightarrow> instances s' = instances s \<and> ports s' = ports s \<and> tracked s' = tracked s \<and> captures s' = captures s"

text \<open>A successful creation: the new record is at the end of the store, on slot \<open>i\<close>, and running.\<close>

definition added :: "string \<Rightarrow> nat \<Rightarrow> sys \<Rightarrow> instance_record \<Rightarrow> sys \<Rightarrow> bool" where
  "added name i s r s' \<longleftrightarrow> instances s' = instances s @ [(name, r)] \<and> record_ok s' name r \<and>
     slot_of_record r = int i \<and> i \<notin> used_slots (ports s) \<and> i < max_slots (ports s) \<and>
     (\<forall>j < i. j \<in> used_slots (ports s)) \<and>
     ports s' = (ports s)\<lparr>used_slots := insert i (used_slots (ports s))\<rparr> \<and> captures s' = captures s \<and>
     (\<exists>h new. tracked s' = dict_set name h (tracked s) \<and> trace s' = new @ trace s \<and>
        None \<notin> {h_emulator h, h_socat h, h_keeper h, h_dhu h} \<and> set (started new) = handle_pids h)"

lemma allocate_lowest:
  assumes "\<not> {..<max_slots p} \<subseteq> used_slots p"
  obtains i where "allocate p = (Inr (make_slot i), p\<lparr>used_slots := insert i (used_slots p)\<rparr>)"
    "i \<notin> used_slots p" "i < max_slots p" "\<forall>j < i. j \<in> used_slots p"
proof -
  from assms have "filter (\<lambda>i. i \<notin> used_slots p) [0..<max_slots p] \<noteq> []" by (auto simp: filter_empty_conv)
  then obtain i rest where "filter (\<lambda>i. i \<notin> used_slots p) [0..<max_slots p] = i # rest" by (meson list.exhaust)
  with filter_upt_Cons [OF this] that show thesis by (simp add: allocate_def)
qed

lemma dict_pop_last: "name \<notin> set (keys st) \<Longrightarrow> dict_pop name (st @ [(name, r)]) = st"
  by (induction st) auto

lemma dict_get_last: "name \<notin> set (keys st) \<Longrightarrow> dict_get (st @ [(name, r)]) name = Some r"
  by (induction st) auto

lemma evolves_appended:
  assumes "evolves name (st @ [(name, r)]) st'" "name \<notin> set (keys st)" "wf_dict st"
  obtains r' where "st' = st @ [(name, r')]" "same_identity r r'"
proof -
  note get = dict_get_last [OF assms(2)] and pop = dict_pop_last [OF assms(2)]
  from assms(1) get obtain r' where r': "dict_get st' name = Some r'" "same_identity r r'"
    unfolding evolves_def by (auto simp: option_rel_Some1)
  from assms(1) have keys: "keys st' = keys st @ [name]" and pop': "dict_pop name st' = st"
    unfolding evolves_def pop by simp_all
  from keys obtain st1 x where st': "st' = st1 @ [x]" "keys st1 = keys st" "fst x = name"
    by (auto simp: map_eq_append_conv)
  then obtain q where x: "st' = st1 @ [(name, q)]" "name \<notin> set (keys st1)" using assms(2) by (cases x) auto
  have "dict_pop name st' = st1" unfolding x(1) by (rule dict_pop_last [OF x(2)])
  moreover have "dict_get st' name = Some q" unfolding x(1) by (rule dict_get_last [OF x(2)])
  moreover note x(1)
  ultimately show thesis using that [of q] pop' r' by simp
qed

text \<open>A created instance is up under its slot's ports.\<close>

lemma create_in_slot_cases:
  assumes kills: "kill_raises_os_error os" and new: "name \<notin> set (keys (instances s0))" and wf: "wf_dict (instances s0)"
    and free: "i \<notin> used_slots (ports s0)"
    and s: "s = s0\<lparr>ports := (ports s0)\<lparr>used_slots := insert i (used_slots (ports s0))\<rparr>\<rparr>"
    and run: "create_in_slot name avd snapshot head (make_slot i) os s = Some (q, s')"
  shows "(case q of
      Inr x \<Rightarrow> \<exists>r h new. x = CreateInstanceResponse (record_to_proto r) \<and> instances s' = instances s0 @ [(name, r)] \<and>
        up name r h \<and> same_identity (new_record name (console_port (make_slot i)) (slot_adb_port (make_slot i))
          (slot_aa_forward_port (make_slot i)) head (created_at_ms r) avd) r \<and>
        tracked s' = dict_set name h (tracked s0) \<and> None \<notin> {h_emulator h, h_socat h, h_keeper h, h_dhu h} \<and>
        trace s' = new @ trace s0 \<and> set (started new) = handle_pids h \<and> ports s' = ports s \<and> captures s' = captures s0
    | Inl e \<Rightarrow> same_manager s0 s' \<and> all_killed s0 s' \<and> (\<exists>e. rpc_status s' = Some (INTERNAL, StrOf e)))"
proof -
  let ?t = "to_ms (clock_of os (trace s))"
  let ?r = "new_record name (console_port (make_slot i)) (slot_adb_port (make_slot i))
     (slot_aa_forward_port (make_slot i)) head ?t avd"
  let ?s1 = "s\<lparr>trace := ReadClock # trace s, instances := instances s0 @ [(name, ?r)]\<rparr>"
  have store: "store_create name a b c d t e (instances s0) =
      (Inr (new_record name a b c d t e), instances s0 @ [(name, new_record name a b c d t e)])" for a b c d t e
    using new by (simp add: store_create_def add_record_def dict_set_new del: set_map)
  have named: "name \<in> set (keys (instances ?s1))" by simp
  have killed: "all_killed s0 t" if "all_killed ?s1 t" for t
  proof -
    from that obtain kills old where "trace t = kills @ (old @ [ReadClock]) @ trace s0" "started kills = []"
      "set (started (old @ [ReadClock])) \<subseteq> killed kills"
      unfolding all_killed_def s by auto
    then show ?thesis unfolding all_killed_def by blast
  qed
  obtain c s2 where cr: "create name avd snapshot head (make_slot i) os ?s1 = Some (c, s2)"
    using run unfolding create_in_slot_def
    by (cases "create name avd snapshot head (make_slot i) os ?s1")
      (auto simp: bind_def time_time_def ask_def on_store_def store s catch_def attempt_def)
  note cases = create_cases [OF kills named cr]
  from cases obtain r' where r': "instances s2 = instances s0 @ [(name, r')]" "same_identity ?r r'"
    using evolves_appended [OF _ new wf, of ?r "instances s2"] by auto
  show ?thesis
  proof (cases c)
    case (Inr v)
    with cases r'(1) have v: "v = Some r'" "created name ?s1 r' s2"
      using dict_get_last [OF new, of r'] by (auto simp: created_def)
    with run cr Inr have "q = Inr (CreateInstanceResponse (record_to_proto r'))" "s' = s2"
      by (auto simp: create_in_slot_def bind_def time_time_def ask_def on_store_def store s catch_def attempt_def
          the_record_def return_def)
    moreover from r'(2) have "created_at_ms r' = ?t" by (simp add: same_identity_def new_record_def)
    ultimately show ?thesis
      using v(2) r' cases unfolding created_def
      by (auto simp: s intro!: exI [of _ "_ @ [ReadClock]"])
  next
    case (Inl e)
    let ?s3 = "s2\<lparr>ports := ports s0, instances := instances s0, rpc_status := Some (INTERNAL, StrOf e)\<rparr>"
    have gb: "(give_back (make_slot i) name e :: response prog) os s2 = Some (Inl RpcAbort, ?s3)"
      using cases r'(1) free dict_pop_last [OF new, of r']
      by (auto simp: give_back_def bind_def on_ports_def on_store_def release_slot_def store_remove_def abort_def
          modify_def raise_def make_slot_def s)
    have "create_in_slot name avd snapshot head (make_slot i) os s = give_back (make_slot i) name e os s2"
      using cr Inl by (simp add: create_in_slot_def bind_def time_time_def ask_def on_store_def store s catch_def attempt_def)
    then have q: "q = Inl RpcAbort" "s' = ?s3" using run gb by simp_all
    have "all_killed ?s1 s2" using cases Inl by simp
    then have "all_killed s0 ?s3" using killed [of ?s3] by (simp add: all_killed_def)
    with q cases Inl show ?thesis by (simp add: same_manager_def s)
  qed
qed

lemma added_manager_ok:
  assumes ok: "manager_ok s" and new: "name \<notin> set (keys (instances s))" and add: "added name i s r s'"
  shows "manager_ok s'"
proof -
  from add have inst: "instances s' = instances s @ [(name, r)]" and rok: "record_ok s' name r"
    and slot: "slot_of_record r = int i" "i \<notin> used_slots (ports s)" "i < max_slots (ports s)"
    and ports: "ports s' = (ports s)\<lparr>used_slots := insert i (used_slots (ports s))\<rparr>"
    unfolding added_def by blast+
  from add obtain h where tracked: "tracked s' = dict_set name h (tracked s)" unfolding added_def by blast
  have get: "dict_get (instances s') k = (if k = name then Some r else dict_get (instances s) k)" for k
    unfolding inst dict_set_new [OF new, symmetric] by (simp add: dict_simps)
  have others: "record_ok s' k q" if "dict_get (instances s) k = Some q" "k \<noteq> name" for k q
  proof -
    from ok that(1) have "record_ok s k q" unfolding manager_ok_def by blast
    with that(2) show ?thesis by (simp add: record_ok_def tracked dict_simps)
  qed
  have "store_get (instances s') = (store_get (instances s))(name \<mapsto> r)"
    by (simp add: store_get_def [abs_def] get fun_eq_iff)
  moreover have "store_get (instances s) name = None" using new by (simp add: store_get_None del: set_map)
  ultimately have "slots_match (used_slots (ports s')) (store_get (instances s')) slot_of_record"
    using ok slot by (simp add: manager_ok_def ports slots_match_insert)
  moreover have "wf_dict (instances s')" "set (keys (tracked s')) = set (keys (instances s'))"
    using ok new by (simp_all add: manager_ok_def inst tracked)
  moreover have "used_slots (ports s') \<subseteq> {..<max_slots (ports s')}"
    using ok slot(3) by (auto simp: manager_ok_def ports)
  moreover have "\<forall>k q. dict_get (instances s') k = Some q \<longrightarrow> record_ok s' k q"
    using others rok by (auto simp: get simp del: map_of_eq_Some_iff split: if_splits)
  ultimately show ?thesis by (simp add: manager_ok_def del: set_map)
qed

lemma rpc_fail: "handle req os (s\<lparr>rpc_status := None\<rparr>) = Some (Inl e, s') \<Longrightarrow> rpc_status s' = Some (c, d) \<Longrightarrow>
    rpc os req s = Some (Failed c d, s')"
  by (simp add: rpc_def reply_of_def)

lemma refusal_status: "create_refusal (s\<lparr>rpc_status := x\<rparr>) name avd snapshot = create_refusal s name avd snapshot"
  by (simp add: create_refusal_def)

text \<open>An admitted request takes the lowest free slot.\<close>

lemma admitted_create:
  assumes adm: "create_refusal s name avd snapshot = None"
  obtains i where "i \<notin> used_slots (ports s)" "i < max_slots (ports s)" "\<forall>j < i. j \<in> used_slots (ports s)"
    "handle (CreateReq name avd snapshot head) os (s\<lparr>rpc_status := None\<rparr>) =
     create_in_slot name (if avd \<noteq> [] then avd else default_avd) (if snapshot \<noteq> [] then snapshot else default_snapshot) head
       (make_slot i) os (s\<lparr>rpc_status := None, ports := (ports s)\<lparr>used_slots := insert i (used_slots (ports s))\<rparr>\<rparr>)"
proof -
  let ?s = "s\<lparr>rpc_status := None\<rparr>"
  from adm have free: "\<not> {..<max_slots (ports s)} \<subseteq> used_slots (ports s)"
    by (auto simp: create_refusal_def Let_def split: if_splits simp del: set_map)
  then obtain i where i: "allocate (ports s) = (Inr (make_slot i), (ports s)\<lparr>used_slots := insert i (used_slots (ports s))\<rparr>)"
    "i \<notin> used_slots (ports s)" "i < max_slots (ports s)" "\<forall>j < i. j \<in> used_slots (ports s)"
    by (rule allocate_lowest)
  have "take_slot os ?s = Some (Inr (make_slot i), ?s\<lparr>ports := (ports s)\<lparr>used_slots := insert i (used_slots (ports s))\<rparr>\<rparr>)"
    using i(1) by (simp add: take_slot_def catch_def bind_def attempt_def on_ports_def return_def)
  moreover have "create_refusal ?s name avd snapshot = None" using adm by (simp only: refusal_status)
  ultimately show thesis using i by (intro that) (simp_all add: CreateInstance_steps bind_def)
qed

lemma create_admitted:
  assumes kills: "kill_raises_os_error os" and ok: "manager_ok s" and adm: "create_refusal s name avd snapshot = None"
    and run: "rpc os (CreateReq name avd snapshot head) s = Some (a, s')"
  shows "(\<exists>r i. a = Replied (CreateInstanceResponse (record_to_proto r)) \<and> added name i s r s' \<and> manager_ok s') \<or>
    (\<exists>e. a = Failed INTERNAL (StrOf e) \<and> same_manager s s' \<and> all_killed s s')"
proof -
  let ?s = "s\<lparr>rpc_status := None\<rparr>"
  let ?avd = "if avd \<noteq> [] then avd else default_avd" and ?snap = "if snapshot \<noteq> [] then snapshot else default_snapshot"
  from adm have new: "name \<notin> set (keys (instances s))"
    by (auto simp: create_refusal_def Let_def split: if_splits simp del: set_map)
  from adm obtain i where i: "i \<notin> used_slots (ports s)" "i < max_slots (ports s)" "\<forall>j < i. j \<in> used_slots (ports s)"
    and steps: "handle (CreateReq name avd snapshot head) os ?s = create_in_slot name ?avd ?snap head (make_slot i) os
      (?s\<lparr>ports := (ports s)\<lparr>used_slots := insert i (used_slots (ports s))\<rparr>\<rparr>)"
    by (rule admitted_create)
  let ?s1 = "?s\<lparr>ports := (ports ?s)\<lparr>used_slots := insert i (used_slots (ports ?s))\<rparr>\<rparr>"
  from run steps obtain q where q: "create_in_slot name ?avd ?snap head (make_slot i) os ?s1 = Some (q, s')" "a = reply_of q s'"
    by (auto simp: rpc_def split: option.splits)
  have "wf_dict (instances ?s)" using ok by (simp add: manager_ok_def)
  note result = create_in_slot_cases [OF kills _ this _ refl q(1)]
  show ?thesis
  proof (cases q)
    case (Inl e)
    with result new i(1) obtain e' where "same_manager ?s s'" "all_killed ?s s'" "rpc_status s' = Some (INTERNAL, StrOf e')"
      by auto
    with q(2) Inl show ?thesis by (auto simp: reply_of_def same_manager_def all_killed_def)
  next
    case (Inr x)
    with result new i(1) obtain r h tr where r: "x = CreateInstanceResponse (record_to_proto r)"
      "instances s' = instances s @ [(name, r)]" "up name r h"
      "same_identity (new_record name (console_port (make_slot i)) (slot_adb_port (make_slot i))
          (slot_aa_forward_port (make_slot i)) head (created_at_ms r) ?avd) r"
      "tracked s' = dict_set name h (tracked s)" "None \<notin> {h_emulator h, h_socat h, h_keeper h, h_dhu h}"
      "trace s' = tr @ trace s" "set (started tr) = handle_pids h" "ports s' = ports ?s1" "captures s' = captures s"
      by auto
    have "record_ok s' name r"
      using r(3,4) by (auto simp: record_ok_def same_identity_def new_record_def up_def r(5) dict_simps)
    moreover have "slot_of_record r = int i"
      using r(4) by (simp add: same_identity_def new_record_def slot_of_record_def)
    ultimately have add: "added name i s r s'"
      unfolding added_def using r i by (intro conjI exI [of _ h] exI [of _ tr]) simp_all
    with added_manager_ok [OF ok new] q(2) Inr r(1) show ?thesis by (auto simp: reply_of_def)
  qed
qed

section \<open>Destroying\<close>

lemma ignoring_all:
  "andthen (ignoring (\<lambda>_. True) m) n os s = (case m os s of None \<Rightarrow> None | Some (_, s') \<Rightarrow> n os s')"
  by (cases "m os s") (auto simp: bind_def ignoring_def catch_def attempt_def return_def split: sum.split)

lemma destroy_effect:
  assumes "destroy r os s = Some (q, s')"
  obtains new where "s' = s\<lparr>tracked := dict_pop (inst_name r) (tracked s), trace := new @ trace s\<rparr>" "started new = []"
proof -
  let ?s1 = "s\<lparr>tracked := dict_pop (inst_name r) (tracked s)\<rparr>"
  define rest where "rest = (\<lambda>handles. andthen (case handles of Some h \<Rightarrow> destroy_via_handles h (serial_of (emulator_console_port r))
        | None \<Rightarrow> destroy_via_pids r (serial_of (emulator_console_port r)))
      (andthen (run [''adb'', ''-s'', serial_of (emulator_console_port r), ''forward'', ''--remove'', ''tcp:'' @ show_int (aa_forward_port r)])
      (for_each rm_if_set [inst_pipe_path r, inst_log_path r, Some (emu_log_path (inst_name r))])))"
  have "quiet os (rest handles)" for handles
    unfolding rest_def by (intro quiet_intros)
  moreover have "rest (dict_get (tracked s) (inst_name r)) os ?s1 = Some (q, s')"
    using assms by (simp add: destroy_def Let_def bind_gets rest_def) (simp add: bind_def modify_def)
  ultimately obtain new where "s' = ?s1\<lparr>trace := new @ trace ?s1\<rparr>" "started new = []" by (rule quietD)
  with that show thesis by simp
qed

lemma DestroyInstance_effect:
  assumes ok: "manager_ok s" and r: "dict_get (instances s) name = Some r"
    and run: "rpc os (DestroyReq name) s = Some (a, s')"
  obtains new i where "a = Replied DestroyInstanceResponse" "slot_of_record r = int i" "i \<in> used_slots (ports s)"
    "s' = s\<lparr>instances := dict_pop name (instances s), tracked := dict_pop name (tracked s),
       ports := (ports s)\<lparr>used_slots := used_slots (ports s) - {i}\<rparr>, rpc_status := None, trace := new @ trace s\<rparr>"
    "started new = []"
proof -
  let ?s = "s\<lparr>rpc_status := None\<rparr>"
  let ?s1 = "?s\<lparr>instances := dict_set name (r\<lparr>inst_state := DESTROYING\<rparr>) (instances s)\<rparr>"
  from ok r have rok: "record_ok s name r" unfolding manager_ok_def by blast
  then have n: "inst_name r = name" by (simp add: record_ok_def)
  have "store_get (instances s) name = Some r" using r by (simp add: store_get_def)
  with ok obtain i where i: "i \<in> used_slots (ports s)" "slot_of_record r = int i"
    by (auto simp: manager_ok_def dest: slots_matchD)
  define fin where "fin = andthen (ignoring (\<lambda>e. case e of ValueError _ \<Rightarrow> True | _ \<Rightarrow> False) (on_ports (release_slot (slot_of_record r))))
     (andthen (on_store (store_remove name)) (return DestroyInstanceResponse))"
  have "handle (DestroyReq name) os ?s = andthen (ignoring (\<lambda>_. True) (destroy r)) fin os ?s1"
    using r by (simp add: DestroyInstance_def existing_def bind_assoc bind_gets store_get_def fin_def)
      (simp add: bind_def on_store_def store_update_def)
  with run obtain x where x: "andthen (ignoring (\<lambda>_. True) (destroy r)) fin os ?s1 = Some (x, s')" "a = reply_of x s'"
    by (auto simp: rpc_def split: option.splits)
  then obtain q s2 where d: "destroy r os ?s1 = Some (q, s2)" "fin os s2 = Some (x, s')"
    by (auto simp: ignoring_all split: option.splits)
  obtain new where eff: "s2 = ?s1\<lparr>tracked := dict_pop (inst_name r) (tracked ?s1), trace := new @ trace ?s1\<rparr>" "started new = []"
    by (rule destroy_effect [OF d(1)])
  then have new: "s2 = ?s1\<lparr>tracked := dict_pop name (tracked s), trace := new @ trace s\<rparr>" by (simp add: n)
  let ?s' = "s2\<lparr>ports := (ports s)\<lparr>used_slots := used_slots (ports s) - {i}\<rparr>, instances := dict_pop name (instances s)\<rparr>"
  have "fin os s2 = Some (Inr DestroyInstanceResponse, ?s')"
    using i by (simp add: fin_def new ignoring_def catch_def attempt_def bind_def on_ports_def on_store_def
        release_slot_def store_remove_def return_def)
  with d(2) have "x = Inr DestroyInstanceResponse" "s' = ?s'" by simp_all
  with that [of i new] i x(2) new eff(2) show thesis by (simp add: reply_of_def)
qed

end
