(* ===== verification/Service_Properties.thy ===== *)
theory Service_Properties
  imports Service_Create
begin

text \<open>
  The properties of the instance manager's service: every RPC returns, keeps the manager's invariant,
  and answers as specified; with the witnesses on a sample operating system.
\<close>

section \<open>Returning\<close>

lemma term_operations [term_intros]:
  assumes "steady_clock os"
  shows "terminates os (restart_dhu r)" "terminates os (dhu_command r c b)" "terminates os (adb_shell r args t)"
    "terminates os (adb_push r d p)" "terminates os (adb_pull r p)" "terminates os (install_apk r d)"
    "terminates os (save_snapshot r n)" "terminates os (load_snapshot r n)"
    "terminates os (capture_start name fps m)" "terminates os (capture_stop name)"
  unfolding restart_dhu_def restart_finish_def stop_old_dhu_def dhu_command_def adb_shell_def adb_push_def adb_pull_def
    install_apk_def save_snapshot_def load_snapshot_def with_temp_def capture_start_def capture_stop_def Let_def
  using assms by (intro term_intros; assumption)+

lemma term_guards [term_intros]:
  "terminates os (require b c m)" "terminates os (existing name)" "terminates os (running name)"
  "terminates os (the_record o')" "terminates os take_slot" "terminates os (give_back slot name e)"
  unfolding require_def running_def existing_def the_record_def take_slot_def give_back_def
  by (auto intro!: term_intros split: exn.split)

lemma term_case_exn [term_intros]:
  "(\<And>m. terminates os (f m)) \<Longrightarrow> terminates os g \<Longrightarrow>
   terminates os (case e of RuntimeError m \<Rightarrow> f m | _ \<Rightarrow> g)"
  by (cases e) auto

lemma term_case_prod [term_intros]:
  "(\<And>x y. terminates os (f x y)) \<Longrightarrow> terminates os (case v of (x, y) \<Rightarrow> f x y)"
  by (cases v) auto

lemma term_or_internal [term_intros]: "terminates os m \<Longrightarrow> terminates os (or_internal m)"
  unfolding or_internal_def by (intro term_intros)

lemma term_handle:
  assumes "steady_clock os"
  shows "terminates os (handle req)"
  using assms
  by (cases req)
    (auto simp: CreateInstance_def DestroyInstance_def ListInstances_def GetInstance_def ScreenshotInstance_def
      RestartDhu_def DhuCommand_def InstallApk_def validate_snapshot_request_def SaveSnapshot_def LoadSnapshot_def
      AdbShell_def AdbPush_def AdbPull_def StartVideoCapture_def StopVideoCapture_def Let_def
      intro!: term_intros)

lemma rpc_returns:
  assumes "steady_clock os"
  shows "\<exists>a s'. rpc os req s = Some (a, s')"
  using term_handle [OF assms, of req] by (auto simp: rpc_def terminates_def dest!: spec [of _ "s\<lparr>rpc_status := None\<rparr>"])

section \<open>The invariant under any sequence of requests\<close>

lemma destroyed_manager_ok:
  assumes ok: "manager_ok s" and r: "dict_get (instances s) name = Some r" and i: "slot_of_record r = int i"
    and s': "s' = s\<lparr>instances := dict_pop name (instances s), tracked := dict_pop name (tracked s),
       ports := (ports s)\<lparr>used_slots := used_slots (ports s) - {i}\<rparr>, rpc_status := c, trace := t\<rparr>"
  shows "manager_ok s'"
proof -
  have "store_get (instances s') = (store_get (instances s))(name := None)"
    by (simp add: s' store_get_def [abs_def] dict_simps)
  with slots_match_delete [of "used_slots (ports s)" "store_get (instances s)" slot_of_record name r i] ok r i
  have "slots_match (used_slots (ports s')) (store_get (instances s')) slot_of_record"
    by (simp add: manager_ok_def s' store_get_def)
  moreover have "record_ok s' k q" if "dict_get (instances s') k = Some q" for k q
  proof -
    from that have k: "k \<noteq> name" "dict_get (instances s) k = Some q" by (auto simp: s' dict_simps split: if_splits)
    with ok have "record_ok s k q" unfolding manager_ok_def by blast
    with k(1) show ?thesis by (simp add: record_ok_def s' dict_simps)
  qed
  ultimately show ?thesis using ok by (auto simp: manager_ok_def s' simp del: set_map map_of_eq_Some_iff)
qed

lemma missing_refused:
  assumes "name \<notin> set (keys (instances s))"
  shows "rpc os (DestroyReq name) s =
    Some (Failed NOT_FOUND (Message (''Instance '' @ quote name @ '' not found'')),
      s\<lparr>rpc_status := Some (NOT_FOUND, Message (''Instance '' @ quote name @ '' not found''))\<rparr>)"
proof -
  have "store_get (instances s) name = None" using assms by (simp add: store_get_None del: set_map)
  then show ?thesis
    by (simp add: rpc_def DestroyInstance_def existing_def bind_assoc bind_gets abort_run reply_of_def)
qed

lemma added_max_slots: "added name i s r s' \<Longrightarrow> max_slots (ports s') = max_slots (ports s)"
  by (simp add: added_def)

lemma same_manager_ok: "same_manager s s' \<Longrightarrow> manager_ok s' \<longleftrightarrow> manager_ok s"
  by (simp add: same_manager_def manager_ok_def record_ok_def)

lemma rpc_keeps_manager_ok:
  assumes "kill_raises_os_error os" "manager_ok s" "rpc os req s = Some (a, s')"
  shows "manager_ok s' \<and> max_slots (ports s') = max_slots (ports s)"
proof (cases req)
  case (CreateReq name avd snapshot head)
  show ?thesis
  proof (cases "create_refusal s name avd snapshot")
    case None
    with create_admitted [OF assms(1,2) None, of head a s'] assms(2,3) CreateReq
    show ?thesis by (metis added_max_slots same_manager_ok same_manager_def)
  next
    case (Some cd)
    obtain c d where cd: "cd = (c, d)" by (cases cd)
    from assms(3) have "s' = s\<lparr>rpc_status := Some (c, d)\<rparr>"
      by (simp add: rpc_def CreateReq CreateInstance_steps refusal_status Some cd)
    with assms(2) show ?thesis by simp
  qed
next
  case (DestroyReq name)
  show ?thesis
  proof (cases "dict_get (instances s) name")
    case None
    with missing_refused [of name s os] assms(2,3) DestroyReq show ?thesis
      by (simp add: dict_get_None_iff del: set_map)
  next
    case (Some r)
    from DestroyInstance_effect [OF assms(2) Some assms(3) [unfolded DestroyReq]] obtain new i where
      "slot_of_record r = int i" "s' = s\<lparr>instances := dict_pop name (instances s), tracked := dict_pop name (tracked s),
       ports := (ports s)\<lparr>used_slots := used_slots (ports s) - {i}\<rparr>, rpc_status := None, trace := new @ trace s\<rparr>"
      by metis
    then show ?thesis using destroyed_manager_ok [OF assms(2) Some, of i s'] by simp
  qed
qed (use assms keeps_handlers [of req os "(set (keys (instances s)), ports s)"] in
    \<open>auto simp: rpc_def keeps_def inv_on_def dest!: tripleD [where s = "s\<lparr>rpc_status := None\<rparr>"]
      split: option.splits simp del: set_map\<close>)

definition record_ports :: "instance_record \<Rightarrow> int set" where
  "record_ports r = {emulator_console_port r, adb_port r, aa_forward_port r}"

lemma manager_ports:
  assumes ok: "manager_ok s" and few: "max_slots (ports s) \<le> 277"
    and r: "dict_get (instances s) k = Some r" "dict_get (instances s) k' = Some r'" "k \<noteq> k'"
  shows "record_ports r \<inter> record_ports r' = {}"
proof -
  have slot: "\<exists>i < 277. record_ports q = slot_ports (make_slot i) \<and> slot_of_record q = int i"
    if "dict_get (instances s) j = Some q" for j q
  proof -
    from ok that have rok: "record_ok s j q" unfolding manager_ok_def by blast
    then obtain i where i: "record_ports q = slot_ports (make_slot i)" "slot_of_record q = int i"
      by (auto simp: record_ok_def record_ports_def slot_ports_def slot_of_record_def)
    have "slots_match (used_slots (ports s)) (store_get (instances s)) slot_of_record"
      using ok by (simp add: manager_ok_def)
    from slots_matchD [OF this, of j q] that i(2) have "i \<in> used_slots (ports s)" by (auto simp: store_get_def)
    with ok few have "i < 277" by (auto simp: manager_ok_def)
    with i show ?thesis by blast
  qed
  obtain i where i: "i < 277" "record_ports r = slot_ports (make_slot i)" "slot_of_record r = int i" using slot [OF r(1)] by blast
  obtain j where j: "j < 277" "record_ports r' = slot_ports (make_slot j)" "slot_of_record r' = int j" using slot [OF r(2)] by blast
  have "slots_match (used_slots (ports s)) (store_get (instances s)) slot_of_record" using ok by (simp add: manager_ok_def)
  from slots_match_unique [OF this, of k r k' r'] r i j have "i \<noteq> j" by (auto simp: store_get_def)
  with i j show ?thesis by (auto simp: slot_ports_def make_slot_def base_console_def base_aa_fwd_def)
qed

lemma keeps_ignoring [keeps_intros]: "keeps os K m \<Longrightarrow> keeps os K (ignoring c m)"
  unfolding ignoring_def by (intro keeps_intros)

lemma keeps_for_each [keeps_intros]: "(\<And>x. keeps os K (f x)) \<Longrightarrow> keeps os K (for_each f xs)"
  by (induction xs) (auto intro: keeps_intros)

lemma keeps_check_health [keeps_intros]: "keeps os K (check_health name)"
proof -
  have "keeps os K (none_exited hs)" for hs
    by (induction hs) (auto intro!: keeps_intros split: option.split)
  then show ?thesis unfolding check_health_def by (intro keeps_intros)
qed

lemma refresh_keeps: "keeps os K refresh_round"
proof -
  have "keeps os K (refresh_instance r)" for r
    unfolding refresh_instance_def by (intro keeps_intros) (simp_all add: same_vitals_def same_identity_def)
  then show ?thesis unfolding refresh_round_def by (intro keeps_intros)
qed

lemma term_refresh: "steady_clock os \<Longrightarrow> terminates os refresh_round"
proof -
  assume clock: "steady_clock os"
  have "terminates os (none_exited hs)" for hs
    by (induction hs) (auto intro!: term_intros split: option.split)
  then have "terminates os (check_health name)" for name
    unfolding check_health_def by (intro term_intros)
  then show ?thesis
    unfolding refresh_round_def refresh_instance_def using clock by (intro term_intros)
qed

lemma step_ok:
  assumes "steady_clock os" "kill_raises_os_error os" "manager_ok s"
  shows "\<exists>a s'. step os ev s = Some (a, s') \<and> manager_ok s' \<and> max_slots (ports s') = max_slots (ports s)"
proof (cases ev)
  case (Request req)
  from rpc_returns [OF assms(1)] obtain a s1 where a: "rpc os req s = Some (a, s1)" by blast
  with rpc_keeps_manager_ok [OF assms(2,3) a] show ?thesis by (simp add: step_def Request)
next
  case RefreshRound
  from term_refresh [OF assms(1)] obtain r s1 where run: "refresh_round os s = Some (r, s1)"
    unfolding terminates_def by blast
  have "inv_on (set (keys (instances s)), ports s) s" using assms(3) by (simp add: inv_on_def)
  from tripleD [OF refresh_keeps [unfolded keeps_def] this run] run show ?thesis
    by (simp add: step_def RefreshRound inv_on_def)
qed

lemma steps_ok:
  assumes "steady_clock os" "kill_raises_os_error os" "manager_ok s"
  shows "\<exists>as s'. steps os evs s = Some (as, s') \<and> length as = length evs \<and> manager_ok s' \<and>
    max_slots (ports s') = max_slots (ports s)"
  using assms(3)
proof (induction evs arbitrary: s)
  case (Cons ev evs)
  from step_ok [OF assms(1,2) Cons.prems, of ev] obtain a s1 where
    a: "step os ev s = Some (a, s1)" "manager_ok s1" "max_slots (ports s1) = max_slots (ports s)" by blast
  with Cons.IH [of s1] show ?case by auto
qed simp

end
