(* ===== verification/Sample_Os.thy ===== *)
theory Sample_Os
  imports Service_Properties
begin

text \<open>
  An operating system on which everything the instance manager asks for succeeds, and on which
  time passes only while the program sleeps.  The witnesses of the service's properties run on it.
\<close>

fun time_slept :: "sys_call list \<Rightarrow> seconds" where
  "time_slept [] = 0"
| "time_slept (c # h) = (case c of Slept d \<Rightarrow> max 0 d | _ \<Rightarrow> 0) + time_slept h"

definition sample_os :: os where
  "sample_os =
     \<lparr>run_of = (\<lambda>h argv t. Inr \<lparr>returncode = 0, stdout = ''1'', stderr = []\<rparr>),
      popen_of = (\<lambda>h argv. Inr (100 + int (length h))),
      pipe_write_of = (\<lambda>h p c. Inr ()),
      clock_of = time_slept,
      exists_of = (\<lambda>h p. True),
      size_of = (\<lambda>h p. Inr 3),
      bytes_of = (\<lambda>h p. Inr [1, 2, 3]),
      text_of = (\<lambda>h p. Inr ''hw.gpu.mode=host verify returned''),
      truncate_of = (\<lambda>h p. Inr ()),
      append_of = (\<lambda>h p t. Inr ()),
      mkstemp_of = (\<lambda>h suffix. Inr (''/tmp/t'' @ suffix)),
      write_of = (\<lambda>h p d. Inr ()),
      unlink_of = (\<lambda>h p. Inr ()),
      poll_of = (\<lambda>h p. None),
      wait_of = (\<lambda>h p t. Inr 0),
      terminate_of = (\<lambda>h p. Inr ()),
      kill_of = (\<lambda>h p. Inr ()),
      getpgid_of = (\<lambda>h p. Inr p),
      killpg_of = (\<lambda>h g sig. Inr ()),
      monotonic_of = time_slept,
      mkdtemp_of = (\<lambda>h prefix. Inr (''/tmp/'' @ prefix)),
      uuid_of = (\<lambda>h. ''0123456789abcdef''),
      thread_alive_of = (\<lambda>h c. True),
      stop_set_of = (\<lambda>h c. False),
      frames_of = (\<lambda>h c. 4),
      env_of = (\<lambda>v. None),
      expanduser_of = (\<lambda>p. p),
      makedirs_of = (\<lambda>h p. Inr ()),
      interrupt_of = (\<lambda>h p. Inr ())\<rparr>"

lemma time_slept_grows: "time_slept h \<le> time_slept (c # h)"
  by (auto split: sys_call.split)

lemma sample_steady [simp]: "steady_clock sample_os"
  using time_slept_grows by (simp add: steady_clock_def sample_os_def del: time_slept.simps) simp

lemma sample_kills [simp]: "kill_raises_os_error sample_os"
  by (simp add: kill_raises_os_error_def sample_os_def)

lemma fresh_manager_ok [simp]: "manager_ok (create_manager n)"
  by (simp add: manager_ok_def create_manager_def port_allocator_init_def slots_match_def store_get_def [abs_def] dom_def bij_betw_def)

text \<open>A manager of eight slots on which one instance runs.\<close>

definition sample_record :: instance_record where
  "sample_record = (new_record ''phone'' 5554 5555 5277 False 0 default_avd)
     \<lparr>inst_state := RUNNING, emulator_pid := Some 100, socat_pid := Some 101, keeper_pid := Some 102, dhu_pid := Some 103,
      inst_pipe_path := Some ''/tmp/dhu_phone_pipe'', inst_log_path := Some ''/tmp/dhu_phone.log''\<rparr>"

definition sample_manager :: sys where
  "sample_manager = (create_manager 8)\<lparr>instances := [(''phone'', sample_record)],
     tracked := [(''phone'', \<lparr>h_emulator = Some 100, h_dhu = Some 103, h_keeper = Some 102, h_socat = Some 101\<rparr>)],
     ports := (port_allocator_init 8)\<lparr>used_slots := {0}\<rparr>\<rparr>"

lemma sample_instance [simp]: "dict_get (instances sample_manager) ''phone'' = Some sample_record"
  by (simp add: sample_manager_def)

lemma sample_manager_ok [simp]: "manager_ok sample_manager"
proof -
  have "slot_of_record sample_record = 0"
    by (simp add: slot_of_record_def sample_record_def new_record_def)
  then have "slots_match {0} (store_get (instances sample_manager)) slot_of_record"
    by (auto simp: slots_match_def store_get_def [abs_def] sample_manager_def bij_betw_def dom_def)
  moreover have "record_ok sample_manager ''phone'' sample_record"
    by (simp add: record_ok_def sample_record_def new_record_def sample_manager_def pids_recorded_def make_slot_def
        base_console_def base_aa_fwd_def)
  ultimately show ?thesis
    by (auto simp: manager_ok_def sample_manager_def create_manager_def port_allocator_init_def split: if_splits)
qed

end
