(* ===== verification/Service_Guarantees.thy ===== *)
theory Service_Guarantees
  imports Sample_Os
begin

text \<open>
  What the instance manager promises across requests: its invariant after any run, a creation that is
  all or nothing, and a destruction that leaves no trace of the instance.
\<close>

section \<open>Any run of the manager\<close>

text \<open>
  C3. However the operating system answers, as long as its clock moves on while the program sleeps and
  \<open>kill\<close> fails with an \<open>OSError\<close> only: a manager with at most 277 slots answers every request
  and finishes every refresh round, and afterwards each of its records belongs to an instance that came
  up, with its four processes tracked under the recorded pids, the used slots are exactly those of its
  instances, and no two instances share a port.
\<close>

theorem service_keeps_invariant:
  assumes "steady_clock os" "kill_raises_os_error os" "n \<le> 277"
  shows "\<exists>as s'. steps os evs (create_manager n) = Some (as, s') \<and> length as = length evs \<and> manager_ok s' \<and>
    (\<forall>k r k' r'. dict_get (instances s') k = Some r \<and> dict_get (instances s') k' = Some r' \<and> k \<noteq> k' \<longrightarrow>
       record_ports r \<inter> record_ports r' = {})"
proof -
  from steps_ok [OF assms(1,2) fresh_manager_ok] obtain as s' where
    run: "steps os evs (create_manager n) = Some (as, s')" "length as = length evs" "manager_ok s'"
      "max_slots (ports s') = max_slots (ports (create_manager n))" by blast
  then have "max_slots (ports s') \<le> 277"
    using assms(3) by (simp add: create_manager_def port_allocator_init_def)
  with run manager_ports show ?thesis by blast
qed

lemma service_keeps_invariant_witness:
  "\<exists>as s'. steps sample_os [Request (CreateReq ''phone'' [] [] False), RefreshRound, Request (DestroyReq ''phone'')]
     (create_manager 8) = Some (as, s') \<and> length as = 3 \<and> manager_ok s'"
  using service_keeps_invariant [OF sample_steady sample_kills, of 8
      "[Request (CreateReq ''phone'' [] [] False), RefreshRound, Request (DestroyReq ''phone'')]"]
  by auto

section \<open>Creating\<close>



section \<open>Destroying\<close>

text \<open>
  C6. Destroying an existing instance always succeeds, whatever goes wrong while its processes are
  stopped: the instance is gone (asking for it again is refused with NOT_FOUND), the other instances and
  the captures are untouched, no process is started, exactly its slot is free again, and a valid request
  for a new instance is no longer refused for want of a slot.
\<close>

theorem destroy_forgets:
  assumes "steady_clock os" "manager_ok s" "dict_get (instances s) name = Some r"
  shows "\<exists>s' new i. rpc os (DestroyReq name) s = Some (Replied DestroyInstanceResponse, s') \<and>
    instances s' = dict_pop name (instances s) \<and> tracked s' = dict_pop name (tracked s) \<and> captures s' = captures s \<and>
    trace s' = new @ trace s \<and> started new = [] \<and>
    slot_of_record r = int i \<and> i \<in> used_slots (ports s) \<and>
    ports s' = (ports s)\<lparr>used_slots := used_slots (ports s) - {i}\<rparr> \<and> manager_ok s' \<and>
    rpc os (GetReq name) s' = Some (Failed NOT_FOUND (Message (''Instance '' @ quote name @ '' not found'')),
      s'\<lparr>rpc_status := Some (NOT_FOUND, Message (''Instance '' @ quote name @ '' not found''))\<rparr>) \<and>
    (safe_name name \<longrightarrow> create_refusal s' name [] [] = None)"
proof -
  from rpc_returns [OF assms(1)] obtain a s' where run: "rpc os (DestroyReq name) s = Some (a, s')" by blast
  from DestroyInstance_effect [OF assms(2,3) run] obtain new i where
    eff: "a = Replied DestroyInstanceResponse" "slot_of_record r = int i" "i \<in> used_slots (ports s)"
      "s' = s\<lparr>instances := dict_pop name (instances s), tracked := dict_pop name (tracked s),
         ports := (ports s)\<lparr>used_slots := used_slots (ports s) - {i}\<rparr>, rpc_status := None, trace := new @ trace s\<rparr>"
      "started new = []"
    by metis
  have ok: "manager_ok s'" by (rule destroyed_manager_ok [OF assms(2,3) eff(2,4)])
  have gone: "name \<notin> set (keys (instances s'))" by (simp add: eff(4) dict_simps del: set_map)
  then have "store_get (instances s') name = None" by (simp add: store_get_None del: set_map)
  then have missing: "rpc os (GetReq name) s' = Some (Failed NOT_FOUND (Message (''Instance '' @ quote name @ '' not found'')),
      s'\<lparr>rpc_status := Some (NOT_FOUND, Message (''Instance '' @ quote name @ '' not found''))\<rparr>)"
    by (simp add: rpc_def GetInstance_def existing_def bind_assoc bind_gets abort_run reply_of_def)
  have "i < max_slots (ports s)" using assms(2) eff(3) by (auto simp: manager_ok_def)
  then have "i \<in> {..<max_slots (ports s')} - used_slots (ports s')" by (simp add: eff(4))
  then have "\<not> {..<max_slots (ports s')} \<subseteq> used_slots (ports s')" by blast
  moreover have "safe_name default_avd" "safe_name default_snapshot"
    by (simp_all add: safe_name_def default_avd_def default_snapshot_def is_alnum_def is_name_char_def is_digit_def code_def)
  ultimately have "safe_name name \<longrightarrow> create_refusal s' name [] [] = None"
    using gone by (auto simp: create_refusal_def safe_name_def simp del: set_map)
  with run eff ok missing show ?thesis by (intro exI [of _ s'] exI [of _ new] exI [of _ i]) simp
qed

lemma destroy_forgets_witness:
  "\<exists>s' new. rpc sample_os (DestroyReq ''phone'') sample_manager = Some (Replied DestroyInstanceResponse, s') \<and>
     trace s' = new @ trace sample_manager \<and> instances s' = dict_pop ''phone'' (instances sample_manager) \<and> manager_ok s'"
  using destroy_forgets [OF sample_steady sample_manager_ok sample_instance] by blast

end
