(* ===== verification/Request_Replies.thy ===== *)
theory Request_Replies
  imports Sample_Os
begin

text \<open>
  How the service answers.  \<open>refusal\<close> collects the reasons for which a request is turned down, in
  the order in which the handlers look for them; a refused request is without a call and without a change.
  Every other request gets a response of its own kind, or INTERNAL.
\<close>

section \<open>The reasons to refuse\<close>

definition unknown_refusal :: "sys \<Rightarrow> string \<Rightarrow> (status_code \<times> details) option" where
  "unknown_refusal s name = (case dict_get (instances s) name of
       None \<Rightarrow> Some (NOT_FOUND, Message (''Instance '' @ quote name @ '' not found''))
     | Some _ \<Rightarrow> None)"

definition running_refusal :: "sys \<Rightarrow> string \<Rightarrow> (status_code \<times> details) option" where
  "running_refusal s name = (case dict_get (instances s) name of
       None \<Rightarrow> Some (NOT_FOUND, Message (''Instance '' @ quote name @ '' not found''))
     | Some r \<Rightarrow> if inst_state r = RUNNING then None
         else Some (FAILED_PRECONDITION,
           Message (''Instance '' @ quote name @ '' is not running (state='' @ show_int (inst_state r) @ '')'')))"

definition pipe_refusal :: "sys \<Rightarrow> string \<Rightarrow> (status_code \<times> details) option" where
  "pipe_refusal s name =
     (if case dict_get (instances s) name of Some r \<Rightarrow> inst_pipe_path r \<in> {None, Some []} | None \<Rightarrow> False
      then Some (FAILED_PRECONDITION, Message (''Instance '' @ quote name @ '' has no pipe path'')) else None)"

definition snapshot_refusal :: "string \<Rightarrow> string option" where
  "snapshot_refusal snapshot =
     (if snapshot = [] then Some ''snapshot_name is required''
      else if \<not> safe_name snapshot then Some (''Invalid snapshot_name '' @ quote snapshot) else None)"

fun argument_refusal :: "request \<Rightarrow> string option" where
  "argument_refusal (DhuCommandReq _ command _) = (if command = [] then Some ''command is required'' else None)"
| "argument_refusal (InstallApkReq _ apk _ _) = (if apk = [] then Some ''apk_data is required'' else None)"
| "argument_refusal (SaveSnapshotReq _ snapshot) = snapshot_refusal snapshot"
| "argument_refusal (LoadSnapshotReq _ snapshot) = snapshot_refusal snapshot"
| "argument_refusal (AdbShellReq _ args _) = (if args = [] then Some ''args is required'' else None)"
| "argument_refusal (AdbPushReq _ data path) = (if data = [] then Some ''data is required''
     else if path = [] then Some ''remote_path is required'' else None)"
| "argument_refusal (AdbPullReq _ path) = (if path = [] then Some ''remote_path is required'' else None)"
| "argument_refusal _ = None"

definition first_of :: "'a option \<Rightarrow> 'a option \<Rightarrow> 'a option" where
  "first_of v w = (case v of Some x \<Rightarrow> Some x | None \<Rightarrow> w)"

fun request_name :: "request \<Rightarrow> string" where
  "request_name (CreateReq n _ _ _) = n"
| "request_name (DestroyReq n) = n"
| "request_name ListReq = []"
| "request_name (GetReq n) = n"
| "request_name (ScreenshotReq n) = n"
| "request_name (RestartDhuReq n) = n"
| "request_name (DhuCommandReq n _ _) = n"
| "request_name (InstallApkReq n _ _ _) = n"
| "request_name (SaveSnapshotReq n _) = n"
| "request_name (LoadSnapshotReq n _) = n"
| "request_name (AdbShellReq n _ _) = n"
| "request_name (AdbPushReq n _ _) = n"
| "request_name (AdbPullReq n _) = n"
| "request_name (StartVideoReq n _ _) = n"
| "request_name (StopVideoReq n) = n"

definition refusal :: "sys \<Rightarrow> request \<Rightarrow> (status_code \<times> details) option" where
  "refusal s req = (case req of
       CreateReq n avd snapshot _ \<Rightarrow> create_refusal s n avd snapshot
     | DestroyReq n \<Rightarrow> unknown_refusal s n
     | ListReq \<Rightarrow> None
     | GetReq n \<Rightarrow> unknown_refusal s n
     | StartVideoReq n _ _ \<Rightarrow> first_of (running_refusal s n) (first_of (pipe_refusal s n)
         (if n \<in> set (keys (captures s))
          then Some (ALREADY_EXISTS, StrOf (RuntimeError (''Capture already in progress for '' @ quote n))) else None))
     | StopVideoReq n \<Rightarrow> first_of (unknown_refusal s n)
         (if n \<in> set (keys (captures s)) then None
          else Some (NOT_FOUND, Message (''No active video capture for '' @ quote n)))
     | _ \<Rightarrow> first_of (map_option (\<lambda>m. (INVALID_ARGUMENT, Message m)) (argument_refusal req))
         (running_refusal s (request_name req)))"

section \<open>Refused requests\<close>

lemma existing_run:
  "bind (existing name) f os s = (case unknown_refusal s name of
     Some (c, d) \<Rightarrow> Some (Inl RpcAbort, s\<lparr>rpc_status := Some (c, d)\<rparr>)
   | None \<Rightarrow> f (the (dict_get (instances s) name)) os s)"
  by (simp add: existing_def bind_assoc bind_gets store_get_def unknown_refusal_def abort_run split: option.split)

lemma running_run:
  "bind (running name) f os s = (case running_refusal s name of
     Some (c, d) \<Rightarrow> Some (Inl RpcAbort, s\<lparr>rpc_status := Some (c, d)\<rparr>)
   | None \<Rightarrow> f (the (dict_get (instances s) name)) os s)"
  by (simp add: running_def bind_assoc existing_run bind_require unknown_refusal_def running_refusal_def
      split: option.split)

lemma refusal_status' [simp]:
  "unknown_refusal (s\<lparr>rpc_status := x\<rparr>) n = unknown_refusal s n"
  "running_refusal (s\<lparr>rpc_status := x\<rparr>) n = running_refusal s n"
  "pipe_refusal (s\<lparr>rpc_status := x\<rparr>) n = pipe_refusal s n"
  by (simp_all add: unknown_refusal_def running_refusal_def pipe_refusal_def)

lemma validate_run:
  "bind (validate_snapshot_request name snapshot) f os s = (case snapshot_refusal snapshot of
     Some m \<Rightarrow> Some (Inl RpcAbort, s\<lparr>rpc_status := Some (INVALID_ARGUMENT, Message m)\<rparr>)
   | None \<Rightarrow> bind (running name) f os s)"
  by (simp add: validate_snapshot_request_def bind_assoc bind_require snapshot_refusal_def)

lemma dict_pop_absent: "k \<notin> set (keys d) \<Longrightarrow> dict_pop k d = d"
  by (induction d) auto

lemma dict_get_absent: "k \<notin> set (keys d) \<Longrightarrow> dict_get d k = None"
  by (simp add: dict_get_None_iff del: set_map)

lemma start_refused:
  assumes "n \<in> set (keys (captures s))"
  shows "capture_start n fps d os s = Some (Inl (RuntimeError (''Capture already in progress for '' @ quote n)), s)"
  using assms by (simp add: capture_start_def Let_def bind_gets del: set_map) (simp add: raise_def)

lemma stop_refused:
  assumes "n \<notin> set (keys (captures s))"
  shows "capture_stop n os s = Some (Inr None, s)"
  using dict_get_absent [OF assms] dict_pop_absent [OF assms]
  by (simp add: capture_stop_def bind_gets del: set_map) (simp add: bind_def modify_def return_def)

lemma refused_run:
  "case refusal s req of
     Some (c, d) \<Rightarrow> rpc os req s = Some (Failed c d, s\<lparr>rpc_status := Some (c, d)\<rparr>)
   | None \<Rightarrow> True"
proof (cases "refusal s req")
  case (Some cd)
  obtain c d where cd: "cd = (c, d)" by (cases cd)
  let ?s = "s\<lparr>rpc_status := None\<rparr>"
  have "handle req os ?s = Some (Inl RpcAbort, ?s\<lparr>rpc_status := Some (c, d)\<rparr>)"
  proof (cases req)
    case (CreateReq n avd snapshot head)
    with Some cd show ?thesis by (simp add: refusal_def CreateInstance_steps refusal_status)
  next
    case (StartVideoReq n fps dur)
    show ?thesis
    proof (cases "running_refusal s n")
      case None
      then obtain r where r: "dict_get (instances s) n = Some r" by (auto simp: running_refusal_def split: option.splits)
      with None Some cd StartVideoReq start_refused [of n ?s fps dur os] show ?thesis
        by (cases "inst_pipe_path r")
          (auto simp: refusal_def first_of_def StartVideoCapture_def running_run pipe_refusal_def abort_run catch_run
            bind_run [of "capture_start n fps dur"] split: if_splits simp del: set_map)
    qed (use Some cd StartVideoReq in \<open>auto simp: refusal_def first_of_def StartVideoCapture_def running_run\<close>)
  next
    case (StopVideoReq n)
    with Some cd stop_refused [of n ?s os] show ?thesis
      by (auto simp: refusal_def first_of_def StopVideoCapture_def existing_run abort_run bind_run [of "capture_stop n"]
          split: option.splits if_splits simp del: set_map)
  qed (use Some cd in \<open>auto simp: refusal_def first_of_def DestroyInstance_def GetInstance_def ScreenshotInstance_def
      RestartDhu_def DhuCommand_def InstallApk_def SaveSnapshot_def LoadSnapshot_def AdbShell_def AdbPush_def AdbPull_def
      existing_run running_run validate_run bind_require split: option.splits if_splits\<close>)
  with Some cd show ?thesis by (simp add: rpc_def reply_of_def)
qed simp

text \<open>
  C7. A request that gives a reason for refusal is answered with that reason's status and nothing else
  happens: no call is made and the manager's state stays as it was.  This covers every request and every
  guard: a missing or invalid argument, an unknown instance, an instance that is not running or has no
  pipe, a capture that already runs or does not run, and for a creation a name in use or no free slot.
\<close>

theorem refused_without_effect:
  "case refusal s req of
     Some (c, d) \<Rightarrow> rpc os req s = Some (Failed c d, s\<lparr>rpc_status := Some (c, d)\<rparr>)
   | None \<Rightarrow> True"
  by (rule refused_run)

section \<open>Admitted requests\<close>

text \<open>The response to a request: of its kind, and about the instance it names.\<close>

definition answers :: "request \<Rightarrow> response \<Rightarrow> bool" where
  "answers req x \<longleftrightarrow> (case req of
       CreateReq n _ _ _ \<Rightarrow> \<exists>i. x = CreateInstanceResponse i \<and> info_name i = n
     | DestroyReq n \<Rightarrow> x = DestroyInstanceResponse
     | ListReq \<Rightarrow> \<exists>is. x = ListInstancesResponse is
     | GetReq n \<Rightarrow> \<exists>i. x = GetInstanceResponse i \<and> info_name i = n
     | ScreenshotReq n \<Rightarrow> \<exists>a b t. x = ScreenshotInstanceResponse a b t
     | RestartDhuReq n \<Rightarrow> \<exists>i. x = RestartDhuResponse i \<and> info_name i = n
     | DhuCommandReq n _ _ \<Rightarrow> \<exists>t b. x = DhuCommandResponse t b
     | InstallApkReq n _ _ _ \<Rightarrow> \<exists>i. x = InstallApkResponse i \<and> info_name i = n
     | SaveSnapshotReq n _ \<Rightarrow> \<exists>i. x = SaveSnapshotResponse i \<and> info_name i = n
     | LoadSnapshotReq n _ \<Rightarrow> \<exists>i. x = LoadSnapshotResponse i \<and> info_name i = n
     | AdbShellReq n _ _ \<Rightarrow> \<exists>c out err. x = AdbShellResponse c out err
     | AdbPushReq n _ _ \<Rightarrow> x = AdbPushResponse
     | AdbPullReq n _ \<Rightarrow> \<exists>b. x = AdbPullResponse b
     | StartVideoReq n _ _ \<Rightarrow> \<exists>i. x = StartVideoCaptureResponse i
     | StopVideoReq n \<Rightarrow> \<exists>v k f d i. x = StopVideoCaptureResponse v k f d i)"

named_theorems gives_intros "operations that keep the invariant and return a value of a kind"

definition gives :: "os \<Rightarrow> string set \<times> port_allocator \<Rightarrow> 'a prog \<Rightarrow> ('a \<Rightarrow> bool) \<Rightarrow> bool" where
  "gives os K m Q \<longleftrightarrow> triple os (inv_on K) m (\<lambda>q s. inv_on K s \<and> (\<forall>x. q = Inr x \<longrightarrow> Q x))"

lemma gives_keeps: "keeps os K m \<Longrightarrow> gives os K m (\<lambda>_. True)"
  by (simp add: gives_def keeps_def)

lemma gives_bind: "gives os K m R \<Longrightarrow> (\<And>x. R x \<Longrightarrow> gives os K (f x) Q) \<Longrightarrow> gives os K (bind m f) Q"
  unfolding gives_def triple_def bind_Some by blast

lemma gives_then: "keeps os K m \<Longrightarrow> (\<And>x. gives os K (f x) Q) \<Longrightarrow> gives os K (bind m f) Q"
  by (rule gives_bind [OF gives_keeps])

lemma gives_return: "Q x \<Longrightarrow> gives os K (return x) Q"
  by (simp add: gives_def triple_def return_def)

lemma gives_the_record: "gives os K (the_record u) (\<lambda>r. u = Some r)"
  by (auto simp: gives_def triple_def the_record_def raise_def return_def split: option.splits)

lemma record_named:
  assumes "inv_on K s" "store_get (instances s) n = Some r"
  shows "inst_name r = n"
proof -
  from assms have "record_ok s n r" unfolding inv_on_def manager_ok_def store_get_def by blast
  then show ?thesis by (simp add: record_ok_def)
qed

lemma gives_lookup: "gives os K (get_instance name) (\<lambda>u. \<forall>r. u = Some r \<longrightarrow> inst_name r = name)"
  by (simp add: gives_def triple_def gets_def record_named)

text \<open>What a restart returns is what it looks up last.\<close>

lemma restart_result:
  assumes "restart_dhu r os s = Some (Inr u, s')"
  shows "u = store_get (instances s') (inst_name r)"
proof -
  let ?ends = "\<lambda>m :: instance_record option prog. triple os (\<lambda>_. True) m (\<lambda>q s. \<forall>u. q = Inr u \<longrightarrow> u = store_get (instances s) (inst_name r))"
  have more: "?ends (bind m f)" if "\<And>x. ?ends (f x)" for m :: "'b prog" and f
    using that unfolding triple_def bind_Some by blast
  have last: "?ends (get_instance (inst_name r))" by (simp add: triple_def gets_def)
  have "?ends (restart_dhu r)"
    unfolding restart_dhu_def restart_finish_def Let_def by (intro more last)
  with assms show ?thesis unfolding triple_def by blast
qed

lemma gives_restart:
  assumes "inst_name r \<in> fst K"
  shows "gives os K (restart_dhu r) (\<lambda>u. \<forall>q. u = Some q \<longrightarrow> inst_name q = inst_name r)"
  unfolding gives_def
proof (rule tripleI)
  fix s q s' assume "inv_on K s" and run: "restart_dhu r os s = Some (q, s')"
  with keeps_restart [OF assms] have "inv_on K s'" unfolding keeps_def by (blast dest: tripleD)
  with run show "inv_on K s' \<and> (\<forall>u. q = Inr u \<longrightarrow> (\<forall>p. u = Some p \<longrightarrow> inst_name p = inst_name r))"
    by (metis restart_result record_named)
qed

lemma info_name_proto [simp]: "info_name (record_to_proto r) = inst_name r"
  by (simp add: record_to_proto_def)

text \<open>A handler whose guards have let the request through: the outcome the client sees.\<close>

definition replies :: "request \<Rightarrow> response result \<Rightarrow> sys \<Rightarrow> bool" where
  "replies req q s \<longleftrightarrow> (case q of
       Inr x \<Rightarrow> answers req x
     | Inl _ \<Rightarrow> \<exists>e. rpc_status s = Some (INTERNAL, StrOf e))"

definition admits :: "string set \<times> port_allocator \<Rightarrow> string \<Rightarrow> sys \<Rightarrow> bool" where
  "admits K n s \<longleftrightarrow> inv_on K s \<and> running_refusal s n = None"

lemma admitted_running:
  assumes "\<And>r. inst_name r = n \<Longrightarrow> n \<in> fst K \<Longrightarrow> triple os (admits K n) (f r) Q"
  shows "triple os (admits K n) (bind (running n) f) Q"
proof (rule tripleI)
  fix s q s' assume adm: "admits K n s" and run: "bind (running n) f os s = Some (q, s')"
  then obtain r where r: "dict_get (instances s) n = Some r"
    by (auto simp: admits_def running_refusal_def split: option.splits)
  from adm r have "inst_name r = n" by (auto simp: admits_def store_get_def intro: record_named)
  moreover from adm present [OF r] have "n \<in> fst K" by (simp add: admits_def inv_on_def)
  moreover from run adm r have "f r os s = Some (q, s')" by (simp add: running_run admits_def)
  ultimately show "Q q s'" using assms [of r] adm by (auto dest: tripleD)
qed

lemma admitted_require: "b \<Longrightarrow> triple os P m Q \<Longrightarrow> triple os P (andthen (require b c t) m) Q"
  by (simp add: require_def)

lemma admitted_internal:
  assumes "gives os K m (answers req)"
  shows "triple os (admits K n) (or_internal m) (replies req)"
  unfolding or_internal_def
proof (rule triple_catch)
  show "triple os (admits K n) m (\<lambda>q s. \<forall>x. q = Inr x \<longrightarrow> answers req x)"
    using assms unfolding gives_def triple_def admits_def by blast
  show "triple os (\<lambda>s. \<forall>x. Inl e = Inr x \<longrightarrow> answers req x) (abort INTERNAL (StrOf e)) (replies req)" for e
    by (simp add: triple_def abort_run replies_def)
qed (simp add: replies_def)

lemma admitted_running_requests:
  assumes "argument_refusal req = None"
    and kind: "case req of CreateReq _ _ _ _ \<Rightarrow> False | DestroyReq _ \<Rightarrow> False | ListReq \<Rightarrow> False | GetReq _ \<Rightarrow> False
      | StartVideoReq _ _ _ \<Rightarrow> False | StopVideoReq _ \<Rightarrow> False | _ \<Rightarrow> True"
  shows "triple os (admits K (request_name req)) (handle req) (replies req)"
proof (cases req)
  case (RestartDhuReq n)
  show ?thesis
    unfolding RestartDhuReq handle.simps request_name.simps RestartDhu_def
  proof (rule admitted_running)
    fix r :: instance_record assume r: "inst_name r = n" "n \<in> fst K"
    then have K: "inst_name r \<in> fst K" by simp
    have "gives os K (bind (restart_dhu r) (\<lambda>u. bind (the_record u) (\<lambda>u. return (RestartDhuResponse (record_to_proto u)))))
        (answers (RestartDhuReq n))"
      by (rule gives_bind [OF gives_restart [OF K]], rule gives_bind [OF gives_the_record], rule gives_return)
        (use r in \<open>simp add: answers_def\<close>)
    then show "triple os (admits K n) (or_internal (bind (restart_dhu r) (\<lambda>u. bind (the_record u)
        (\<lambda>u. return (RestartDhuResponse (record_to_proto u)))))) (replies (RestartDhuReq n))"
      by (rule admitted_internal)
  qed
next
  case (InstallApkReq n apk restart snapshot)
  have body: "gives os K (andthen (install_apk r apk)
        (bind (if restart then restart_dhu r else get_instance n) (\<lambda>r.
         andthen (if snapshot \<noteq> []
             then andthen (require (safe_name snapshot) INVALID_ARGUMENT
                 (''Invalid save_snapshot name '' @ quote snapshot))
               (bind (the_record r) (\<lambda>r. save_snapshot r snapshot))
             else return ())
         (bind (the_record r) (\<lambda>r. return (InstallApkResponse (record_to_proto r))))))) (answers req)"
    if r: "inst_name r = n" "n \<in> fst K" for r :: instance_record
  proof (rule gives_then)
    show "keeps os K (install_apk r apk)" by (intro keeps_intros)
    have look: "gives os K (if restart then restart_dhu r else get_instance n) (\<lambda>u. \<forall>q. u = Some q \<longrightarrow> inst_name q = n)"
      using gives_restart [of r K os] gives_lookup [of os K n] r by simp
    have save: "keeps os K (if snapshot \<noteq> []
             then andthen (require (safe_name snapshot) INVALID_ARGUMENT (''Invalid save_snapshot name '' @ quote snapshot))
               (bind (the_record u) (\<lambda>r. save_snapshot r snapshot))
             else return ())" for u
      by (intro keeps_intros)
    show "gives os K (bind (if restart then restart_dhu r else get_instance n) (\<lambda>r.
         andthen (if snapshot \<noteq> []
             then andthen (require (safe_name snapshot) INVALID_ARGUMENT
                 (''Invalid save_snapshot name '' @ quote snapshot))
               (bind (the_record r) (\<lambda>r. save_snapshot r snapshot))
             else return ())
         (bind (the_record r) (\<lambda>r. return (InstallApkResponse (record_to_proto r)))))) (answers req)" for x
      by (rule gives_bind [OF look], rule gives_then [OF save], rule gives_bind [OF gives_the_record], rule gives_return)
        (auto simp: answers_def InstallApkReq)
  qed
  then show ?thesis
    using assms(1) unfolding InstallApkReq handle.simps request_name.simps InstallApk_def
    by (intro admitted_require admitted_running admitted_internal) (auto split: if_splits)
next
  case (SaveSnapshotReq n snapshot)
  with assms(1) show ?thesis
    by (auto simp: SaveSnapshot_def validate_snapshot_request_def snapshot_refusal_def bind_assoc answers_def split: if_splits
        intro!: admitted_running admitted_require admitted_internal gives_then keeps_intros gives_return)
next
  case (LoadSnapshotReq n snapshot)
  with assms(1) show ?thesis
    by (auto simp: LoadSnapshot_def validate_snapshot_request_def snapshot_refusal_def bind_assoc answers_def split: if_splits
        intro!: admitted_running admitted_require admitted_internal gives_then keeps_intros gives_return)
qed (use assms in \<open>auto simp: ScreenshotInstance_def DhuCommand_def AdbShell_def AdbPush_def AdbPull_def answers_def
    same_vitals_def same_identity_def split: if_splits
    intro!: admitted_running admitted_require admitted_internal gives_then keeps_intros gives_return\<close>)

lemma unknown_found: "unknown_refusal s n = None \<Longrightarrow> \<exists>r. dict_get (instances s) n = Some r"
  by (auto simp: unknown_refusal_def split: option.splits)

lemma running_found: "running_refusal s n = None \<Longrightarrow> \<exists>r. dict_get (instances s) n = Some r \<and> inst_state r = RUNNING"
  by (auto simp: running_refusal_def split: option.splits if_splits)

text \<open>Stopping a capture that runs.\<close>

lemma stop_reply:
  assumes run: "rpc os (StopVideoReq n) s = Some (a, s')" and adm: "refusal s (StopVideoReq n) = None"
  shows "(\<exists>x. a = Replied x \<and> answers (StopVideoReq n) x) \<or> (\<exists>e. a = Crashed e)"
proof -
  let ?s = "s\<lparr>rpc_status := None\<rparr>"
  from adm have found: "unknown_refusal s n = None" and "n \<in> set (keys (captures s))"
    by (auto simp: refusal_def first_of_def split: option.splits if_splits)
  then obtain session where session: "dict_get (captures s) n = Some session"
    by (metis dict_get_None_iff option.exhaust)
  let ?s1 = "?s\<lparr>captures := dict_pop n (captures s)\<rparr>"
  have "capture_stop n os ?s = bind (finish_session session) (\<lambda>c. return (Some c)) os ?s1"
    by (simp add: capture_stop_def bind_gets session) (simp add: bind_def modify_def)
  with run found obtain q s2 where q: "finish_session session os ?s1 = Some (q, s2)"
    and "s' = s2" "a = reply_of (case q of Inl e \<Rightarrow> Inl e | Inr c \<Rightarrow> Inr (StopVideoCaptureResponse (video_mp4 c)
        (frame_count c) (actual_fps c) (duration_ms c) (result_id c))) s2"
    by (auto simp: rpc_def StopVideoCapture_def existing_run bind_run [of "capture_stop n"] bind_run [of "finish_session session"]
        return_def split: option.splits sum.splits)
  moreover have "rpc_status s2 = None"
    using quiet_finish q by (rule quietD) simp
  ultimately show ?thesis by (cases q) (auto simp: reply_of_def answers_def)
qed

lemma start_reply:
  assumes run: "rpc os (StartVideoReq n fps dur) s = Some (a, s')" and adm: "refusal s (StartVideoReq n fps dur) = None"
  shows "(\<exists>x. a = Replied x \<and> answers (StartVideoReq n fps dur) x) \<or> (\<exists>e. a = Failed INTERNAL (StrOf e)) \<or>
    (\<exists>m. a = Failed ALREADY_EXISTS (StrOf (RuntimeError m)))"
proof -
  let ?s = "s\<lparr>rpc_status := None\<rparr>"
  from adm have found: "running_refusal s n = None" and pipe: "pipe_refusal s n = None"
    by (auto simp: refusal_def first_of_def split: option.splits)
  then obtain r p where "dict_get (instances s) n = Some r" "inst_pipe_path r = Some p" "p \<noteq> []"
    by (auto simp: pipe_refusal_def dest!: running_found split: if_splits option.splits)
  with found have steps: "handle (StartVideoReq n fps dur) os ?s =
    catch (bind (capture_start n fps dur) (\<lambda>i. return (StartVideoCaptureResponse i)))
      (\<lambda>e. case e of RuntimeError _ \<Rightarrow> abort ALREADY_EXISTS (StrOf e) | _ \<Rightarrow> abort INTERNAL (StrOf e)) os ?s"
    by (simp add: StartVideoCapture_def running_run)
  from run obtain q where q: "handle (StartVideoReq n fps dur) os ?s = Some (q, s')" "a = reply_of q s'"
    by (auto simp: rpc_def split: option.splits)
  from q(1) [unfolded steps catch_Some] consider i where "q = Inr (StartVideoCaptureResponse i)"
    | e s1 where "(case e of RuntimeError _ \<Rightarrow> abort ALREADY_EXISTS (StrOf e) | _ \<Rightarrow> abort INTERNAL (StrOf e)) os s1 = Some (q, s')"
    by (auto simp: bind_Some return_def)
  then show ?thesis
  proof cases
    case 2
    then show ?thesis by (cases e) (auto simp: abort_run q(2) reply_of_def)
  qed (simp add: q(2) reply_of_def answers_def)
qed

section \<open>Every request is answered\<close>

definition runs_on_instance :: "request \<Rightarrow> bool" where
  "runs_on_instance req \<longleftrightarrow> (case req of CreateReq _ _ _ _ \<Rightarrow> False | DestroyReq _ \<Rightarrow> False | ListReq \<Rightarrow> False
     | GetReq _ \<Rightarrow> False | StartVideoReq _ _ _ \<Rightarrow> False | StopVideoReq _ \<Rightarrow> False | _ \<Rightarrow> True)"

lemma running_reply:
  assumes ok: "manager_ok s" and adm: "refusal s req = None" and kind: "runs_on_instance req"
    and a: "rpc os req s = Some (a, s')"
  shows "(\<exists>x. a = Replied x \<and> answers req x) \<or> (\<exists>e. a = Failed INTERNAL (StrOf e))"
proof -
  let ?K = "(set (keys (instances s)), ports s)"
  from kind have "refusal s req = first_of (map_option (\<lambda>m. (INVALID_ARGUMENT, Message m)) (argument_refusal req))
      (running_refusal s (request_name req))"
    by (cases req) (simp_all add: runs_on_instance_def refusal_def)
  with adm have req: "argument_refusal req = None" "running_refusal s (request_name req) = None"
    by (simp_all add: first_of_def split: option.splits)
  from a obtain q where q: "handle req os (s\<lparr>rpc_status := None\<rparr>) = Some (q, s')" "a = reply_of q s'"
    by (auto simp: rpc_def split: option.splits)
  have "admits ?K (request_name req) (s\<lparr>rpc_status := None\<rparr>)" using ok req(2) by (simp add: admits_def inv_on_def)
  from tripleD [OF admitted_running_requests [OF req(1) kind [unfolded runs_on_instance_def]] this q(1)] q(2)
  show ?thesis by (cases q) (auto simp: replies_def reply_of_def)
qed

lemma get_reply:
  assumes ok: "manager_ok s" and adm: "refusal s (GetReq n) = None" and a: "rpc os (GetReq n) s = Some (a, s')"
  shows "\<exists>x. a = Replied x \<and> answers (GetReq n) x"
proof -
  from adm have found: "unknown_refusal s n = None" by (simp add: refusal_def)
  then obtain r where r: "dict_get (instances s) n = Some r" by (auto dest!: unknown_found)
  with ok have "record_ok s n r" unfolding manager_ok_def by blast
  then have n: "inst_name r = n" by (simp add: record_ok_def)
  have "handle (GetReq n) os (s\<lparr>rpc_status := None\<rparr>) = Some (Inr (GetInstanceResponse (record_to_proto r)), s\<lparr>rpc_status := None\<rparr>)"
    using found r by (simp add: GetInstance_def existing_run) (simp add: return_def)
  with a n show ?thesis by (auto simp: rpc_def reply_of_def answers_def simp del: handle.simps)
qed

lemma create_reply:
  assumes "kill_raises_os_error os" and ok: "manager_ok s" and adm: "refusal s (CreateReq n avd snapshot head) = None"
    and a: "rpc os (CreateReq n avd snapshot head) s = Some (a, s')"
  shows "(\<exists>x. a = Replied x \<and> answers (CreateReq n avd snapshot head) x) \<or> (\<exists>e. a = Failed INTERNAL (StrOf e))"
proof -
  from adm have "create_refusal s n avd snapshot = None" by (simp add: refusal_def)
  from create_admitted [OF assms(1) ok this a] consider r i where
    "a = Replied (CreateInstanceResponse (record_to_proto r))" "added n i s r s'" | e where "a = Failed INTERNAL (StrOf e)"
    by blast
  then show ?thesis
  proof cases
    case 1
    then have "inst_name r = n" by (simp add: added_def record_ok_def)
    with 1(1) show ?thesis by (simp add: answers_def)
  qed simp
qed

lemma destroy_reply:
  assumes "manager_ok s" "refusal s (DestroyReq n) = None" "rpc os (DestroyReq n) s = Some (a, s')"
  shows "\<exists>x. a = Replied x \<and> answers (DestroyReq n) x"
proof -
  from assms(2) obtain r where "dict_get (instances s) n = Some r" by (auto simp: refusal_def dest!: unknown_found)
  from DestroyInstance_effect [OF assms(1) this assms(3)] have "a = Replied DestroyInstanceResponse" by metis
  then show ?thesis by (simp add: answers_def)
qed

lemma list_reply: "rpc os ListReq s = Some (a, s') \<Longrightarrow> \<exists>x. a = Replied x \<and> answers ListReq x"
  by (auto simp: rpc_def ListInstances_def gets_def reply_of_def answers_def)

lemma admitted_reply:
  assumes "steady_clock os" "kill_raises_os_error os" "manager_ok s" "refusal s req = None"
  shows "\<exists>a s'. rpc os req s = Some (a, s') \<and>
    ((\<exists>x. a = Replied x \<and> answers req x) \<or> (\<exists>e. a = Failed INTERNAL (StrOf e)) \<or>
     ((\<exists>n fps dur. req = StartVideoReq n fps dur) \<and> (\<exists>m. a = Failed ALREADY_EXISTS (StrOf (RuntimeError m)))) \<or>
     ((\<exists>n. req = StopVideoReq n) \<and> (\<exists>e. a = Crashed e)))"
proof -
  from rpc_returns [OF assms(1)] obtain a s' where a: "rpc os req s = Some (a, s')" by blast
  note adm = assms(4) and ok = assms(3)
  have "(\<exists>x. a = Replied x \<and> answers req x) \<or> (\<exists>e. a = Failed INTERNAL (StrOf e)) \<or>
     ((\<exists>n fps dur. req = StartVideoReq n fps dur) \<and> (\<exists>m. a = Failed ALREADY_EXISTS (StrOf (RuntimeError m)))) \<or>
     ((\<exists>n. req = StopVideoReq n) \<and> (\<exists>e. a = Crashed e))"
  proof (cases "runs_on_instance req")
    case True
    from running_reply [OF ok adm True a] show ?thesis by blast
  next
    case False
    then consider n avd snapshot head where "req = CreateReq n avd snapshot head" | n where "req = DestroyReq n"
      | "req = ListReq" | n where "req = GetReq n" | n fps dur where "req = StartVideoReq n fps dur" | n where "req = StopVideoReq n"
      by (cases req) (auto simp: runs_on_instance_def)
    then show ?thesis
    proof cases
      case 1
      with create_reply [OF assms(2) ok] adm a show ?thesis by blast
    next
      case 2
      with destroy_reply [OF ok] adm a show ?thesis by blast
    next
      case 3
      with list_reply a show ?thesis by blast
    next
      case 4
      with get_reply [OF ok] adm a show ?thesis by blast
    next
      case 5
      with start_reply adm a show ?thesis by blast
    next
      case 6
      with stop_reply adm a show ?thesis by blast
    qed
  qed
  with a show ?thesis by blast
qed

text \<open>
  C8. A request that is not refused is answered with the response that belongs to it (about the instance
  it names, where the response holds one), or with INTERNAL and the text of an exception.  There are two
  exceptions: a RuntimeError while a capture starts is reported as ALREADY_EXISTS, and only stopping a
  capture can end in an exception that no handler turns into a status.
\<close>

theorem admitted_requests_answered:
  assumes "steady_clock os" "kill_raises_os_error os" "manager_ok s" "refusal s req = None"
  shows "\<exists>a s'. rpc os req s = Some (a, s') \<and>
    ((\<exists>x. a = Replied x \<and> answers req x) \<or> (\<exists>e. a = Failed INTERNAL (StrOf e)) \<or>
     ((\<exists>n fps dur. req = StartVideoReq n fps dur) \<and> (\<exists>m. a = Failed ALREADY_EXISTS (StrOf (RuntimeError m)))) \<or>
     ((\<exists>n. req = StopVideoReq n) \<and> (\<exists>e. a = Crashed e)))"
  using assms by (rule admitted_reply)

lemma admitted_requests_answered_witness:
  "\<exists>a s'. rpc sample_os (AdbShellReq ''phone'' [''ls''] 0) sample_manager = Some (a, s') \<and>
     ((\<exists>x. a = Replied x \<and> answers (AdbShellReq ''phone'' [''ls''] 0) x) \<or> (\<exists>e. a = Failed INTERNAL (StrOf e)))"
proof -
  have "refusal sample_manager (AdbShellReq ''phone'' [''ls''] 0) = None"
    by (simp add: refusal_def first_of_def running_refusal_def) (simp add: sample_record_def)
  from admitted_requests_answered [OF sample_steady sample_kills sample_manager_ok this] show ?thesis by blast
qed

end
