(* ===== verification/Lifecycle_Safety.thy ===== *)
theory Lifecycle_Safety
  imports Request_Replies
begin

text \<open>
  What the operations on one instance do to the outside world: destroying sees every process exit, a
  temporary file is always removed, a shell command has a time limit, and which names reach the paths and
  command lines built from them.
\<close>

section \<open>Stopping processes\<close>

definition seen_exited :: "sys_call list \<Rightarrow> int \<Rightarrow> bool" where
  "seen_exited h p \<longleftrightarrow> (\<exists>st. Polled p (Some st) \<in> set h) \<or> (\<exists>t st. Waited p t (Inr st) \<in> set h)"

lemma seen_exited_simps [simp]:
  "seen_exited (c # h) p \<longleftrightarrow> (\<exists>st. c = Polled p (Some st)) \<or> (\<exists>t st. c = Waited p t (Inr st)) \<or> seen_exited h p"
  "seen_exited (g @ h) p \<longleftrightarrow> seen_exited g p \<or> seen_exited h p"
  "\<not> seen_exited [] p"
  by (auto simp: seen_exited_def)

text \<open>When \<open>m\<close> returns without an exception, what it has called satisfies \<open>R\<close>.\<close>

definition calls :: "os \<Rightarrow> 'a prog \<Rightarrow> (sys_call list \<Rightarrow> bool) \<Rightarrow> bool" where
  "calls os m R \<longleftrightarrow> (\<forall>s x s'. m os s = Some (Inr x, s') \<longrightarrow> (\<exists>new. trace s' = new @ trace s \<and> R new))"

lemma calls_quiet: "quiet os m \<Longrightarrow> calls os m (\<lambda>_. True)"
  unfolding calls_def by (fastforce elim: quietD)

lemma calls_bind:
  assumes "calls os m R" "\<And>x. calls os (f x) R'"
  shows "calls os (bind m f) (\<lambda>new. \<exists>g h. new = h @ g \<and> R g \<and> R' h)"
  unfolding calls_def bind_Some
proof (intro allI impI, elim disjE exE conjE)
  fix s x s' y s1 assume "m os s = Some (Inr y, s1)" "f y os s1 = Some (Inr x, s')"
  with assms obtain g h where "trace s1 = g @ trace s" "R g" "trace s' = h @ trace s1" "R' h"
    unfolding calls_def by metis
  then show "\<exists>new. trace s' = new @ trace s \<and> (\<exists>g h. new = h @ g \<and> R g \<and> R' h)" by auto
qed simp

lemma calls_mono: "calls os m R \<Longrightarrow> (\<And>new. R new \<Longrightarrow> R' new) \<Longrightarrow> calls os m R'"
  unfolding calls_def by blast

lemma proc_wait_run: "proc_wait p t os s = Some (wait_of os (trace s) p t, s\<lparr>trace := Waited p t (wait_of os (trace s) p t) # trace s\<rparr>)"
  by (simp add: proc_wait_def ask_def)

lemma proc_poll_run: "proc_poll p os s = Some (Inr (poll_of os (trace s) p), s\<lparr>trace := Polled p (poll_of os (trace s) p) # trace s\<rparr>)"
  by (simp add: proc_poll_def ask_def)

text \<open>Waiting for a process, and doing more if that takes too long.\<close>

lemma wait_exits: "calls os (proc_wait p t) (\<lambda>new. seen_exited new p)"
  by (auto simp: calls_def proc_wait_run)

lemma wait_or_exits:
  assumes m: "calls os m (\<lambda>new. seen_exited new p)"
  shows "calls os (catch (proc_wait p t) (\<lambda>e. if e = TimeoutExpired then m else raise e)) (\<lambda>new. seen_exited new p)"
  unfolding calls_def catch_Some
proof (intro allI impI, elim disjE exE conjE)
  fix s x s' y assume "proc_wait p t os s = Some (Inr y, s')" "Inr x = Inr y"
  then show "\<exists>new. trace s' = new @ trace s \<and> seen_exited new p" by (auto simp: proc_wait_run)
next
  fix s x s' e s1
  assume w: "proc_wait p t os s = Some (Inl e, s1)" and "(if e = TimeoutExpired then m else raise e) os s1 = Some (Inr x, s')"
  then have "m os s1 = Some (Inr x, s')" by (auto simp: raise_def split: if_splits)
  with m obtain new where "trace s' = new @ trace s1" "seen_exited new p" unfolding calls_def by blast
  with w show "\<exists>new. trace s' = new @ trace s \<and> seen_exited new p" by (auto simp: proc_wait_run)
qed

lemma polled_exits:
  assumes "calls os m (\<lambda>new. seen_exited new p)"
  shows "calls os (bind (proc_poll p) (\<lambda>status. if status \<noteq> None then return () else m)) (\<lambda>new. seen_exited new p)"
  unfolding calls_def
proof (intro allI impI)
  fix s x s' assume run: "bind (proc_poll p) (\<lambda>status. if status \<noteq> None then return () else m) os s = Some (Inr x, s')"
  let ?st = "poll_of os (trace s) p"
  let ?s1 = "s\<lparr>trace := Polled p ?st # trace s\<rparr>"
  show "\<exists>new. trace s' = new @ trace s \<and> seen_exited new p"
  proof (cases ?st)
    case None
    with run have "m os ?s1 = Some (Inr x, s')" by (simp add: bind_def proc_poll_run)
    with assms obtain new where "trace s' = new @ trace ?s1" "seen_exited new p" unfolding calls_def by blast
    then show ?thesis by (intro exI [of _ "new @ [Polled p ?st]"]) simp
  next
    case (Some st)
    with run show ?thesis by (auto simp: bind_def proc_poll_run return_def)
  qed
qed

lemma calls_then_unit: "quiet os m \<Longrightarrow> calls os n R \<Longrightarrow> (\<And>g h. R h \<Longrightarrow> R (h @ g)) \<Longrightarrow> calls os (andthen m n) R"
  by (rule calls_mono [OF calls_bind [OF calls_quiet]]) auto

lemma calls_return: "calls os m R \<Longrightarrow> (\<And>g. R g \<Longrightarrow> R ([] @ g)) \<Longrightarrow> calls os (bind m (\<lambda>_. return ())) R"
  unfolding calls_def bind_Some by (auto simp: return_def)

lemmas exit_rules = polled_exits calls_return wait_or_exits wait_exits calls_then_unit

lemma stop_child_exits: "calls os (stop_child h) (\<lambda>new. \<forall>p. h = Some p \<longrightarrow> seen_exited new p)"
proof (cases h)
  case (Some p)
  have "calls os (stop_child (Some p)) (\<lambda>new. seen_exited new p)"
    unfolding stop_child_def option.case by (rule polled_exits) (intro exit_rules quiet_intros; simp)
  with Some show ?thesis by simp
qed (auto simp: stop_child_def calls_def return_def)

lemma stop_emulator_exits: "calls os (stop_emulator serial h) (\<lambda>new. \<forall>p. h = Some p \<longrightarrow> seen_exited new p)"
proof (cases h)
  case (Some p)
  have "calls os (stop_emulator serial (Some p)) (\<lambda>new. seen_exited new p)"
    unfolding stop_emulator_def option.case by (rule polled_exits) (intro exit_rules quiet_intros; simp)
  with Some show ?thesis by simp
qed (auto simp: stop_emulator_def calls_def return_def)

lemma calls_ran: "calls os (run argv) (\<lambda>new. Ran argv None \<in> set new)"
  by (simp add: calls_def run_within_def ask_def)

lemma calls_rm: "calls os (rm_if_set (Some path)) (\<lambda>new. path \<noteq> [] \<longrightarrow> Ran [''rm'', ''-f'', path] None \<in> set new)"
proof (cases "path = []")
  case False
  have "calls os (rm_f path) (\<lambda>new. Ran [''rm'', ''-f'', path] None \<in> set new)"
    unfolding rm_f_def by (rule calls_return [OF calls_ran]) simp
  with False show ?thesis by (simp add: rm_if_set_def)
qed (simp add: rm_if_set_def calls_def return_def)

lemma destroy_sees_exits:
  assumes h: "dict_get (tracked s) (inst_name r) = Some h" and run: "destroy r os s = Some (Inr u, s')"
  shows "\<exists>new. trace s' = new @ trace s \<and> started new = [] \<and> tracked s' = dict_pop (inst_name r) (tracked s) \<and>
    (\<forall>p. Some p \<in> {h_keeper h, h_socat h, h_emulator h} \<longrightarrow> seen_exited new p) \<and>
    Ran [''adb'', ''-s'', serial_of (emulator_console_port r), ''forward'', ''--remove'', ''tcp:'' @ show_int (aa_forward_port r)] None
      \<in> set new \<and>
    Ran [''rm'', ''-f'', emu_log_path (inst_name r)] None \<in> set new"
proof -
  let ?serial = "serial_of (emulator_console_port r)"
  let ?fwd = "[''adb'', ''-s'', ?serial, ''forward'', ''--remove'', ''tcp:'' @ show_int (aa_forward_port r)]"
  let ?rest = "andthen (destroy_via_handles h ?serial) (andthen (run ?fwd)
     (for_each rm_if_set [inst_pipe_path r, inst_log_path r, Some (emu_log_path (inst_name r))]))"
  let ?s1 = "s\<lparr>tracked := dict_pop (inst_name r) (tracked s)\<rparr>"
  have rest: "?rest os ?s1 = Some (Inr u, s')"
    using run h by (simp add: destroy_def Let_def bind_gets) (simp add: bind_def modify_def)
  have "calls os ?rest (\<lambda>new. (\<forall>p. Some p \<in> {h_keeper h, h_socat h, h_emulator h} \<longrightarrow> seen_exited new p) \<and>
      Ran ?fwd None \<in> set new \<and> Ran [''rm'', ''-f'', emu_log_path (inst_name r)] None \<in> set new)"
    unfolding destroy_via_handles_def for_each.simps bind_assoc
    by (rule calls_mono, rule calls_bind [OF calls_quiet], intro quiet_intros,
        rule calls_bind [OF stop_child_exits], rule calls_bind [OF stop_child_exits], rule calls_bind [OF stop_emulator_exits],
        rule calls_bind [OF calls_ran], rule calls_bind [OF calls_quiet], intro quiet_intros,
        rule calls_bind [OF calls_quiet], intro quiet_intros, rule calls_return [OF calls_rm])
      (auto simp: emu_log_path_def)
  with rest obtain new where new: "trace s' = new @ trace ?s1"
      "(\<forall>p. Some p \<in> {h_keeper h, h_socat h, h_emulator h} \<longrightarrow> seen_exited new p) \<and>
      Ran ?fwd None \<in> set new \<and> Ran [''rm'', ''-f'', emu_log_path (inst_name r)] None \<in> set new"
    unfolding calls_def by blast
  have "quiet os ?rest" by (intro quiet_intros)
  from this rest obtain old where "s' = ?s1\<lparr>trace := old @ trace ?s1\<rparr>" "started old = []" by (rule quietD)
  with new show ?thesis by (intro exI [of _ new]) simp
qed

text \<open>
  C14. When destroying a tracked instance returns without an exception, the keeper, the socat forwarder and
  the emulator have each been seen to exit (a poll or a wait gave their status), the port forward was
  removed and the emulator's log was deleted; no process was started, and the instance is no longer tracked.
\<close>

theorem destroyed_processes_exited:
  assumes h: "dict_get (tracked s) (inst_name r) = Some h" and run: "destroy r os s = Some (Inr u, s')"
  shows "\<exists>new. trace s' = new @ trace s \<and> started new = [] \<and> tracked s' = dict_pop (inst_name r) (tracked s) \<and>
    (\<forall>p. Some p \<in> {h_keeper h, h_socat h, h_emulator h} \<longrightarrow> seen_exited new p) \<and>
    Ran [''adb'', ''-s'', serial_of (emulator_console_port r), ''forward'', ''--remove'', ''tcp:'' @ show_int (aa_forward_port r)] None
      \<in> set new \<and>
    Ran [''rm'', ''-f'', emu_log_path (inst_name r)] None \<in> set new"
  using assms by (rule destroy_sees_exits)

lemma sample_destroy: "map_option fst (destroy sample_record sample_os sample_manager) = Some (Inr ())"
  by (simp add: Let_def destroy_def destroy_via_handles_def stop_dhu_def stop_child_def stop_emulator_def rm_if_set_def rm_f_def
      prog_defs sample_os_def sample_manager_def sample_record_def new_record_def emu_log_path_def)

lemma destroyed_processes_exited_witness:
  "\<exists>s' new. destroy sample_record sample_os sample_manager = Some (Inr (), s') \<and> trace s' = new @ trace sample_manager \<and>
     seen_exited new 100 \<and> seen_exited new 101 \<and> seen_exited new 102"
proof -
  from sample_destroy obtain s' where run: "destroy sample_record sample_os sample_manager = Some (Inr (), s')" by auto
  have h: "dict_get (tracked sample_manager) (inst_name sample_record) =
      Some \<lparr>h_emulator = Some 100, h_dhu = Some 103, h_keeper = Some 102, h_socat = Some 101\<rparr>"
    by (simp add: sample_manager_def sample_record_def new_record_def)
  from destroyed_processes_exited [OF h run] run show ?thesis by auto
qed

section \<open>Temporary files\<close>

text \<open>
  Between \<open>s\<close> and \<open>s'\<close> a temporary file was asked for, and if there was one, removing it
  was the last call.
\<close>

definition temp_removed :: "os \<Rightarrow> string \<Rightarrow> sys \<Rightarrow> sys \<Rightarrow> bool" where
  "temp_removed os suffix s s' \<longleftrightarrow> (case mkstemp_of os (trace s) suffix of
       Inl e \<Rightarrow> trace s' = MadeTemp suffix (Inl e) # trace s
     | Inr tmp \<Rightarrow> \<exists>mid. trace s' = Unlinked tmp # mid @ MadeTemp suffix (Inr tmp) # trace s)"

lemma unlink_run: "unlink p os s = Some (unlink_of os (trace s) p, s\<lparr>trace := Unlinked p # trace s\<rparr>)"
  by (simp add: unlink_def ask_def)

lemma quietly_unlinked:
  "\<exists>q. ignoring is_os_error (unlink tmp) os s = Some (q, s\<lparr>trace := Unlinked tmp # trace s\<rparr>) \<and>
     (\<forall>e. unlink_of os (trace s) tmp = Inl e \<longrightarrow> is_os_error e) = (q = Inr ())"
  by (cases "unlink_of os (trace s) tmp")
    (auto simp: ignoring_def catch_run unlink_run return_def raise_def)

text \<open>The body runs on the new file; then the file is removed.\<close>

lemma with_temp_body:
  assumes "with_temp suffix body os s = Some (q, s')" "mkstemp_of os (trace s) suffix = Inr tmp"
  obtains r s2 where "body tmp os (s\<lparr>trace := MadeTemp suffix (Inr tmp) # trace s\<rparr>) = Some (r, s2)"
    "s' = s2\<lparr>trace := Unlinked tmp # trace s2\<rparr>" "r = q \<or> (\<exists>e. q = Inl e)"
proof -
  let ?s1 = "s\<lparr>trace := MadeTemp suffix (Inr tmp) # trace s\<rparr>"
  from assms have "ensuring (body tmp) (ignoring is_os_error (unlink tmp)) os ?s1 = Some (q, s')"
    by (simp add: with_temp_def mkstemp_def ask_def bind_def)
  then obtain r s2 u where r: "body tmp os ?s1 = Some (r, s2)" and u: "ignoring is_os_error (unlink tmp) os s2 = Some (u, s')"
    "r = q \<or> (\<exists>e. q = Inl e)"
    unfolding ensuring_Some by blast
  from u(1) quietly_unlinked [of tmp os s2] have "s' = s2\<lparr>trace := Unlinked tmp # trace s2\<rparr>" by auto
  from r this u(2) show thesis by (rule that)
qed

lemma with_temp_run:
  assumes "\<And>tmp. quiet os (body tmp)" "with_temp suffix body os s = Some (q, s')"
  shows "temp_removed os suffix s s'"
proof (cases "mkstemp_of os (trace s) suffix")
  case (Inl e)
  with assms(2) show ?thesis by (auto simp: with_temp_def mkstemp_def ask_def bind_def temp_removed_def)
next
  case (Inr tmp)
  let ?s1 = "s\<lparr>trace := MadeTemp suffix (Inr tmp) # trace s\<rparr>"
  from assms(2) Inr obtain r s2 where body: "body tmp os ?s1 = Some (r, s2)" "s' = s2\<lparr>trace := Unlinked tmp # trace s2\<rparr>"
    by (rule with_temp_body)
  from assms(1) body(1) obtain new where s2: "s2 = ?s1\<lparr>trace := new @ trace ?s1\<rparr>" by (rule quietD)
  with Inr body(2) show ?thesis by (simp add: temp_removed_def)
qed

lemma write_bytes_run: "write_bytes p d os s = Some (write_of os (trace s) p d, s\<lparr>trace := WroteTemp p d # trace s\<rparr>)"
  by (simp add: write_bytes_def ask_def)

lemma run_within_run: "run_within t argv os s = Some (run_of os (trace s) argv t, s\<lparr>trace := Ran argv t # trace s\<rparr>)"
  by (simp add: run_within_def ask_def)

text \<open>A push or an install that goes well: exactly these calls, the file holding the data.\<close>

lemma with_temp_success:
  assumes "with_temp suffix (\<lambda>tmp. andthen (write_bytes tmp data)
     (bind (run_within t (argv tmp)) (\<lambda>res. if returncode res \<noteq> 0 then raise (err res) else return ()))) os s = Some (Inr u, s')"
  shows "\<exists>tmp. trace s' = [Unlinked tmp, Ran (argv tmp) t, WroteTemp tmp data, MadeTemp suffix (Inr tmp)] @ trace s"
proof -
  from assms obtain tmp where m: "mkstemp_of os (trace s) suffix = Inr tmp"
    by (cases "mkstemp_of os (trace s) suffix") (auto simp: with_temp_def mkstemp_def ask_def bind_def)
  with assms obtain q s2 where body: "andthen (write_bytes tmp data)
     (bind (run_within t (argv tmp)) (\<lambda>res. if returncode res \<noteq> 0 then raise (err res) else return ())) os
       (s\<lparr>trace := MadeTemp suffix (Inr tmp) # trace s\<rparr>) = Some (q, s2)"
    "s' = s2\<lparr>trace := Unlinked tmp # trace s2\<rparr>" "q = Inr u \<or> (\<exists>e. (Inr u :: unit result) = Inl e)"
    by (rule with_temp_body)
  from body(3) have "q = Inr u" by simp
  with body(1) have "trace s2 = [Ran (argv tmp) t, WroteTemp tmp data, MadeTemp suffix (Inr tmp)] @ trace s"
    by (auto simp: bind_run write_bytes_run run_within_run raise_def return_def split: sum.splits if_splits)
  with body(2) show ?thesis by auto
qed

text \<open>
  The temporary file of a push, a pull and an install is removed whatever happens, and removing it is
  the last thing they do.  A push or an install that succeeds has, in this order, made the file, written
  the data to it, run adb once with its path, and removed it; an empty APK is refused before any file is
  made.
\<close>

theorem temporary_files_removed:
  "(\<forall>q s'. adb_push r data path os s = Some (q, s') \<longrightarrow> temp_removed os [] s s' \<and>
      (q = Inr () \<longrightarrow> (\<exists>tmp. trace s' = [Unlinked tmp, Ran (adb r [''push'', tmp, path]) (Some 60), WroteTemp tmp data,
         MadeTemp [] (Inr tmp)] @ trace s))) \<and>
   (\<forall>q s'. adb_pull r path os s = Some (q, s') \<longrightarrow> temp_removed os [] s s') \<and>
   (\<forall>q s'. install_apk r data os s = Some (q, s') \<longrightarrow>
      (if data = [] then q = Inl (ValueError ''apk_data is empty'') \<and> s' = s
       else temp_removed os ''.apk'' s s' \<and>
         (q = Inr () \<longrightarrow> (\<exists>tmp. trace s' = [Unlinked tmp, Ran (adb r [''install'', ''-r'', tmp]) None, WroteTemp tmp data,
            MadeTemp ''.apk'' (Inr tmp)] @ trace s))))"
proof (intro conjI allI impI)
  fix q s' assume run: "adb_push r data path os s = Some (q, s')"
  show "temp_removed os [] s s'"
    by (rule with_temp_run [OF _ run [unfolded adb_push_def]]) (intro quiet_intros)
  assume "q = Inr ()"
  with run with_temp_success [of "[]" data "Some 60" "\<lambda>tmp. adb r [''push'', tmp, path]"]
  show "\<exists>tmp. trace s' = [Unlinked tmp, Ran (adb r [''push'', tmp, path]) (Some 60), WroteTemp tmp data,
         MadeTemp [] (Inr tmp)] @ trace s" by (simp add: adb_push_def)
next
  fix q s' assume run: "adb_pull r path os s = Some (q, s')"
  show "temp_removed os [] s s'"
    by (rule with_temp_run [OF _ run [unfolded adb_pull_def]]) (intro quiet_intros)
next
  fix q s' assume run: "install_apk r data os s = Some (q, s')"
  show "if data = [] then q = Inl (ValueError ''apk_data is empty'') \<and> s' = s
       else temp_removed os ''.apk'' s s' \<and>
         (q = Inr () \<longrightarrow> (\<exists>tmp. trace s' = [Unlinked tmp, Ran (adb r [''install'', ''-r'', tmp]) None, WroteTemp tmp data,
            MadeTemp ''.apk'' (Inr tmp)] @ trace s))"
  proof (cases "data = []")
    case True
    with run show ?thesis by (simp add: install_apk_def raise_def)
  next
    case False
    note run' = run [unfolded install_apk_def if_not_P [OF False]]
    have "temp_removed os ''.apk'' s s'" by (rule with_temp_run [OF _ run']) (intro quiet_intros)
    with False run' with_temp_success [of "''.apk''" data None "\<lambda>tmp. adb r [''install'', ''-r'', tmp]"]
    show ?thesis by auto
  qed
qed

lemma sample_push: "map_option fst (adb_push sample_record [1, 2] ''/sdcard/x'' sample_os sample_manager) = Some (Inr ())"
  by (simp add: adb_push_def with_temp_def prog_defs sample_os_def)

lemma temporary_files_removed_witness:
  "\<exists>tmp s'. adb_push sample_record [1, 2] ''/sdcard/x'' sample_os sample_manager = Some (Inr (), s') \<and>
     trace s' = [Unlinked tmp, Ran (adb sample_record [''push'', tmp, ''/sdcard/x'']) (Some 60), WroteTemp tmp [1, 2],
       MadeTemp [] (Inr tmp)] @ trace sample_manager"
proof -
  from sample_push obtain s' where run: "adb_push sample_record [1, 2] ''/sdcard/x'' sample_os sample_manager = Some (Inr (), s')"
    by auto
  with temporary_files_removed [of sample_record "[1, 2]" "''/sdcard/x''" sample_os sample_manager] show ?thesis by blast
qed

section \<open>Shell commands\<close>

text \<open>
  An adb shell request makes at most one call, the adb command for the instance's serial with the
  request's arguments, and gives it a time limit of 1 to 300 seconds: the requested one where it lies in
  that range, the nearest bound where it does not, and 30 seconds where none is requested.
\<close>

theorem shell_time_limit:
  assumes "dict_get (instances s) n = Some r" "rpc os (AdbShellReq n args t) s = Some (a, s')"
  shows "\<exists>limit. 1 \<le> limit \<and> limit \<le> 300 \<and> limit = (if t = 0 then 30 else if t < 1 then 1 else if t > 300 then 300 else t) \<and>
    (trace s' = trace s \<or>
     trace s' = Ran ([''adb'', ''-s'', serial_of (emulator_console_port r), ''shell''] @ args) (Some (of_int limit)) # trace s) \<and>
    (inst_state r = RUNNING \<and> args \<noteq> [] \<longleftrightarrow> trace s' \<noteq> trace s)"
proof -
  let ?s = "s\<lparr>rpc_status := None\<rparr>"
  let ?limit = "clamp_timeout t"
  have limit: "1 \<le> ?limit" "?limit \<le> 300" "?limit = (if t = 0 then 30 else if t < 1 then 1 else if t > 300 then 300 else t)"
    by (auto simp: clamp_timeout_def Let_def)
  show ?thesis
  proof (cases "args \<noteq> [] \<and> running_refusal s n = None")
    case True
    then have state: "inst_state r = RUNNING" using assms(1) by (auto simp: running_refusal_def split: if_splits)
    from True assms(1) have "handle (AdbShellReq n args t) os ?s =
        or_internal (bind (adb_shell r args t) (\<lambda>(exit_code, out, err). return (AdbShellResponse exit_code out err))) os ?s"
      by (simp add: AdbShell_def bind_require running_run)
    with assms(2) have "trace s' = Ran (adb r ([''shell''] @ args)) (Some (of_int ?limit)) # trace s"
      by (auto simp: rpc_def or_internal_def catch_run bind_run adb_shell_def run_within_run return_def abort_run
          split: sum.splits)
    with limit True state show ?thesis by (intro exI [of _ ?limit]) auto
  next
    case False
    then have "\<exists>c d. refusal s (AdbShellReq n args t) = Some (c, d)"
      by (auto simp: refusal_def first_of_def split: option.split)
    with refused_run [where s = s and req = "AdbShellReq n args t" and os = os] assms(2) have "trace s' = trace s" by auto
    moreover have "\<not> (inst_state r = RUNNING \<and> args \<noteq> [])" using False assms(1) by (auto simp: running_refusal_def)
    ultimately show ?thesis using limit by (intro exI [of _ ?limit]) auto
  qed
qed

section \<open>Names in paths and commands\<close>

text \<open>
  The names the service accepts: a letter or digit followed by letters, digits, dots, underscores and
  hyphens, and the same with one newline at the end (\<open>$\<close> matches before it).  So no accepted name
  holds a slash, a blank or a quote; but a name that ends in a newline is admitted, and for it the keeper's
  command falls into two lines, the first of which writes to a file that is not the instance's pipe.
\<close>

theorem accepted_names:
  "(safe_name s \<longleftrightarrow> (\<exists>c cs. (s = c # cs \<or> s = c # cs @ [newline]) \<and> is_alnum c \<and> list_all is_name_char cs)) \<and>
   safe_name (''phone'' @ [newline]) \<and>
   create_refusal (create_manager 8) (''phone'' @ [newline]) [] [] = None \<and>
   text_lines (keeper_args (''/tmp/dhu_'' @ (''phone'' @ [newline]) @ ''_pipe'') ! 2) =
     [''while true; do sleep 3600; done > /tmp/dhu_phone'', ''_pipe'']"
proof (intro conjI)
  have tail: "(case dropWhile is_name_char cs of [] \<Rightarrow> True | d # rest \<Rightarrow> d = newline \<and> rest = []) \<longleftrightarrow>
      (\<exists>ds. (cs = ds \<or> cs = ds @ [newline]) \<and> (\<forall>d \<in> set ds. is_name_char d))" for cs
  proof (induction cs)
    case (Cons c cs)
    have "\<not> is_name_char newline" by (simp add: is_name_char_def is_alnum_def is_digit_def code_def)
    with Cons show ?case
      by (cases "is_name_char c") (force simp: Cons_eq_append_conv)+
  qed auto
  show "safe_name s \<longleftrightarrow> (\<exists>c cs. (s = c # cs \<or> s = c # cs @ [newline]) \<and> is_alnum c \<and> list_all is_name_char cs)"
    by (cases s) (auto simp: safe_name_def tail list_all_iff)
  show newline: "safe_name (''phone'' @ [newline])"
    by (simp add: safe_name_def is_name_char_def is_alnum_def is_digit_def code_def)
  show "create_refusal (create_manager 8) (''phone'' @ [newline]) [] [] = None"
    using newline by (simp add: create_refusal_def create_manager_def port_allocator_init_def default_avd_def default_snapshot_def
      safe_name_def is_name_char_def is_alnum_def is_digit_def code_def lessThan_empty_iff)
  show "text_lines (keeper_args (''/tmp/dhu_'' @ (''phone'' @ [newline]) @ ''_pipe'') ! 2) =
     [''while true; do sleep 3600; done > /tmp/dhu_phone'', ''_pipe'']"
    by (simp add: keeper_args_def text_lines.simps)
qed

lemma shell_time_limit_witness:
  "\<exists>a s'. rpc sample_os (AdbShellReq ''phone'' [''ls''] 1000) sample_manager = Some (a, s') \<and>
     trace s' = Ran [''adb'', ''-s'', serial_of 5554, ''shell'', ''ls''] (Some 300) # trace sample_manager"
proof -
  from rpc_returns [OF sample_steady] obtain a s' where
    run: "rpc sample_os (AdbShellReq ''phone'' [''ls''] 1000) sample_manager = Some (a, s')" by blast
  have "emulator_console_port sample_record = 5554" by (simp add: sample_record_def new_record_def)
  moreover have "inst_state sample_record = RUNNING" by (simp add: sample_record_def)
  ultimately show ?thesis using shell_time_limit [OF sample_instance run] run by auto
qed

section \<open>Installing and saving\<close>

text \<open>
  An InstallApk request whose snapshot name is invalid is only turned down after the APK has been
  installed: the name is checked inside the \<open>try\<close>, so the abort is caught and reported again, and
  the client gets INTERNAL for what every other handler calls INVALID_ARGUMENT.
\<close>

theorem bad_snapshot_after_install:
  assumes "refusal s (InstallApkReq n apk False snapshot) = None" "snapshot \<noteq> []" "\<not> safe_name snapshot"
    and "dict_get (instances s) n = Some r" "install_apk r apk os (s\<lparr>rpc_status := None\<rparr>) = Some (Inr (), s1)"
  shows "rpc os (InstallApkReq n apk False snapshot) s =
    Some (Failed INTERNAL (StrOf RpcAbort), s1\<lparr>rpc_status := Some (INTERNAL, StrOf RpcAbort)\<rparr>)"
proof -
  from assms(1) have "apk \<noteq> []" "running_refusal s n = None"
    by (auto simp: refusal_def first_of_def split: option.splits if_splits)
  with assms(2-) show ?thesis
    by (simp add: rpc_def InstallApk_def bind_require running_run)
      (simp add: or_internal_def catch_run bind_run gets_def require_def abort_run reply_of_def)
qed

lemma bad_snapshot_after_install_witness:
  "\<exists>s1. rpc sample_os (InstallApkReq ''phone'' [80, 75] False ''a b'') sample_manager = Some (Failed INTERNAL (StrOf RpcAbort), s1)"
proof -
  have "map_option fst (install_apk sample_record [80, 75] sample_os (sample_manager\<lparr>rpc_status := None\<rparr>)) = Some (Inr ())"
    by (simp add: install_apk_def with_temp_def prog_defs sample_os_def)
  then obtain s1 where "install_apk sample_record [80, 75] sample_os (sample_manager\<lparr>rpc_status := None\<rparr>) = Some (Inr (), s1)" by auto
  moreover have "refusal sample_manager (InstallApkReq ''phone'' [80, 75] False ''a b'') = None"
    by (simp add: refusal_def first_of_def running_refusal_def) (simp add: sample_record_def)
  moreover have "\<not> safe_name ''a b''"
    by (simp add: safe_name_def is_name_char_def is_alnum_def is_digit_def code_def)
  ultimately show ?thesis using bad_snapshot_after_install [of sample_manager "''phone''" "[80, 75]" "''a b''"] by fastforce
qed

end
