(* ===== verification/Capture_Bounds.thy ===== *)
theory Capture_Bounds
  imports Sample_Os
begin

text \<open>
  The capture thread: its loop ends, and the number of frames it takes is bounded by the duration and the
  frame rate.
\<close>

section \<open>The monotonic clock\<close>

definition steady_monotonic :: "os \<Rightarrow> bool" where
  "steady_monotonic os \<longleftrightarrow> (\<forall>c h. monotonic_of os h \<le> monotonic_of os (c # h)) \<and>
     (\<forall>d h. monotonic_of os h + d \<le> monotonic_of os (Slept d # h))"

lemma monotonic_extends: "steady_monotonic os \<Longrightarrow> monotonic_of os h \<le> monotonic_of os (new @ h)"
  unfolding steady_monotonic_def by (induction new) (auto intro: order_trans)

lemma monotonic_quiet: "steady_monotonic os \<Longrightarrow> quiet os m \<Longrightarrow> m os s = Some (r, s') \<Longrightarrow>
    monotonic_of os (trace s) \<le> monotonic_of os (trace s')"
  by (erule (1) quietD) (simp add: monotonic_extends)

lemma monotonic_slept: "steady_monotonic os \<Longrightarrow> monotonic_of os h + d \<le> monotonic_of os (Slept d # h)"
  by (simp add: steady_monotonic_def)

lemma time_monotonic_run: "time_monotonic os s = Some (Inr (monotonic_of os (trace s)), s\<lparr>trace := ReadMonotonic # trace s\<rparr>)"
  by (simp add: time_monotonic_def ask_def)

lemma sleep_run: "sleep d os s = Some (Inr (), s\<lparr>trace := Slept d # trace s\<rparr>)"
  by (simp add: sleep_def ask_def)

section \<open>One frame\<close>

lemma quiet_default_screenshot [quiet_intros]: "quiet os (default_screenshot pipe path)"
  unfolding default_screenshot_def Let_def by (intro quiet_intros)

lemma screenshot_poll_slow:
  assumes clock: "steady_monotonic os" and q: "quiet os q"
    and run: "bind q (\<lambda>ok. if ok then return (Some True) else andthen (sleep d) (return None)) os s = Some (Inr None, s')"
  shows "monotonic_of os (trace s) + d \<le> monotonic_of os (trace s')"
proof -
  from run obtain ok s1 where s1: "q os s = Some (Inr ok, s1)"
      "(if ok then return (Some True) else andthen (sleep d) (return None)) os s1 = Some (Inr None, s')"
    unfolding bind_Some by blast
  then have "trace s' = Slept d # trace s1" by (auto simp: return_def bind_run sleep_run split: if_splits)
  with monotonic_slept [OF clock, of "trace s1" d] monotonic_quiet [OF clock q s1(1)] show ?thesis by simp
qed

lemma term_default_screenshot [term_intros]:
  assumes clock: "steady_monotonic os"
  shows "terminates os (default_screenshot pipe path)"
proof -
  define body where "body d = bind time_monotonic (\<lambda>t.
          if t < d
          then bind (path_exists path) (\<lambda>there.
            bind (if there then bind (getsize path) (\<lambda>n. return (n > 0)) else return False) (\<lambda>ok.
            if ok then return (Some True)
            else andthen (sleep screenshot_poll_interval) (return None)))
          else return (Some False))" for d
  have "terminates os (again (body d))" for d
  proof (rule term_again [where \<mu> = "\<lambda>s. nat \<lceil>(d - monotonic_of os (trace s)) / screenshot_poll_interval\<rceil>"])
    show "terminates os (body d)" unfolding body_def by (intro term_intros)
    fix s s' assume run: "body d os s = Some (Inr None, s')"
    let ?s1 = "s\<lparr>trace := ReadMonotonic # trace s\<rparr>"
    have now: "monotonic_of os (trace s) < d" and rest: "bind (path_exists path) (\<lambda>there.
            bind (if there then bind (getsize path) (\<lambda>n. return (n > 0)) else return False) (\<lambda>ok.
            if ok then return (Some True)
            else andthen (sleep screenshot_poll_interval) (return None))) os ?s1 = Some (Inr None, s')"
      using run by (auto simp: body_def bind_run [of time_monotonic] time_monotonic_run return_def split: if_splits)
    from rest have "bind (bind (path_exists path) (\<lambda>there.
            if there then bind (getsize path) (\<lambda>n. return (n > 0)) else return False)) (\<lambda>ok.
            if ok then return (Some True)
            else andthen (sleep screenshot_poll_interval) (return None)) os ?s1 = Some (Inr None, s')"
      by (simp only: bind_assoc)
    moreover have "quiet os (bind (path_exists path) (\<lambda>there.
            if there then bind (getsize path) (\<lambda>n. return (n > 0)) else return False))" by (intro quiet_intros)
    ultimately have "monotonic_of os (trace ?s1) + screenshot_poll_interval \<le> monotonic_of os (trace s')"
      by (intro screenshot_poll_slow [OF clock])
    moreover have "monotonic_of os (trace s) \<le> monotonic_of os (trace ?s1)"
      using monotonic_extends [OF clock, of "trace s" "[ReadMonotonic]"] by simp
    ultimately have "monotonic_of os (trace s) + screenshot_poll_interval \<le> monotonic_of os (trace s')" by linarith
    with now show "nat \<lceil>(d - monotonic_of os (trace s')) / screenshot_poll_interval\<rceil>
        < nat \<lceil>(d - monotonic_of os (trace s)) / screenshot_poll_interval\<rceil>"
      by (intro nat_ceiling_less) (simp_all add: screenshot_poll_interval_def)
  qed
  then show ?thesis unfolding default_screenshot_def body_def by (intro term_intros)
qed

section \<open>The loop\<close>

lemma iterate_total:
  fixes \<mu> :: "'s \<Rightarrow> sys \<Rightarrow> nat"
  assumes "I x s"
    and step: "\<And>x s. I x s \<Longrightarrow> (\<exists>v s'. m x os s = Some (Inr (Inr v), s') \<and> Q v s') \<or>
      (\<exists>y s'. m x os s = Some (Inr (Inl y), s') \<and> I y s' \<and> \<mu> y s' < \<mu> x s)"
  shows "\<exists>v s'. iterate m x os s = Some (Inr v, s') \<and> Q v s'"
  using assms(1)
proof (induction "\<mu> x s" arbitrary: x s rule: less_induct)
  case less
  from step [OF less.prems] show ?case
  proof (elim disjE exE conjE)
    fix y s' assume "m x os s = Some (Inr (Inl y), s')" "I y s'" "\<mu> y s' < \<mu> x s"
    with less.hyps [of y s'] show ?thesis by (simp add: iterate.simps [of m x os s])
  qed (simp add: iterate.simps [of m x os s])
qed

text \<open>One turn takes at least an interval, unless the session is stopped while it waits.\<close>

lemma capture_turn_run:
  assumes clock: "steady_monotonic os" and shoot: "quiet os shoot" "terminates os shoot"
  shows "\<exists>n' s'. capture_turn shoot session interval n os s = Some (Inr n', s') \<and> n' \<le> Suc n \<and>
    (\<exists>new. s' = s\<lparr>trace := new @ trace s\<rparr>) \<and>
    (stop_set_of os (trace s') (capture_id session) \<or> monotonic_of os (trace s) + interval \<le> monotonic_of os (trace s'))"
proof -
  let ?s1 = "s\<lparr>trace := ReadMonotonic # trace s\<rparr>"
  have "terminates os (catch shoot (\<lambda>_. return False))" using shoot(2) by (intro term_intros)
  moreover have quiet: "quiet os (catch shoot (\<lambda>_. return False))" using shoot(1) by (intro quiet_intros)
  moreover from calculation(1) obtain r s2 where r: "catch shoot (\<lambda>_. return False) os ?s1 = Some (r, s2)"
    by (rule terminatesE)
  from r have "\<exists>ok. r = Inr ok" by (auto simp: catch_Some return_def)
  then obtain ok where ok: "r = Inr ok" by blast
  from quiet r obtain new where new: "s2 = ?s1\<lparr>trace := new @ trace ?s1\<rparr>" by (rule quietD)
  let ?start = "monotonic_of os (trace s)" and ?t = "monotonic_of os (trace s2)"
  let ?s3 = "s2\<lparr>trace := ReadMonotonic # trace s2\<rparr>"
  let ?pause = "max 0 (interval - (?t - ?start))"
  have turn: "capture_turn shoot session interval n os s =
      andthen (if ?pause > 0 then wait_stop session ?pause else return ()) (return (if ok then Suc n else n)) os ?s3"
    by (simp add: capture_turn_def bind_run [of time_monotonic] time_monotonic_run bind_run [of "catch shoot h" for h] r ok Let_def)
  have run3: "(if ok then Suc n else n) \<le> Suc n" "\<exists>new. ?s3 = s\<lparr>trace := new @ trace s\<rparr>"
    "\<exists>new. ?s3\<lparr>trace := c # trace ?s3\<rparr> = s\<lparr>trace := new @ trace s\<rparr>" for c
    by (simp, intro exI [of _ "ReadMonotonic # new @ [ReadMonotonic]"], simp add: new,
        intro exI [of _ "c # ReadMonotonic # new @ [ReadMonotonic]"], simp add: new)
  have t: "?t \<le> monotonic_of os (trace ?s3)" using monotonic_extends [OF clock, of "trace s2" "[ReadMonotonic]"] by simp
  show ?thesis
  proof (cases "?pause > 0")
    case False
    then have "?start + interval \<le> ?t" by simp
    with t have "?start + interval \<le> monotonic_of os (trace ?s3)" by linarith
    moreover have "capture_turn shoot session interval n os s = Some (Inr (if ok then Suc n else n), ?s3)"
      using turn False by (simp add: bind_run return_def)
    ultimately show ?thesis using run3(1,2) by blast
  next
    case True
    show ?thesis
    proof (cases "stop_set_of os (trace ?s3) (capture_id session)")
      case stop: True
      then have "capture_turn shoot session interval n os s = Some (Inr (if ok then Suc n else n), ?s3)"
        using turn True by (simp add: wait_stop_def bind_run observe_def return_def)
      with stop run3(1,2) show ?thesis by blast
    next
      case False
      let ?s4 = "?s3\<lparr>trace := Slept ?pause # trace ?s3\<rparr>"
      have "monotonic_of os (trace ?s3) + ?pause \<le> monotonic_of os (trace ?s4)"
        using monotonic_slept [OF clock] by simp
      then have "?start + interval \<le> monotonic_of os (trace ?s4)" using t True by linarith
      moreover have "capture_turn shoot session interval n os s = Some (Inr (if ok then Suc n else n), ?s4)"
        using turn True False by (simp add: wait_stop_def bind_run observe_def return_def sleep_run)
      ultimately show ?thesis using run3(1,3) by blast
    qed
  qed
qed

text \<open>
  The loop of a session: while it runs, \<open>n\<close> frames took at least \<open>n\<close> intervals since
  its start; when it leaves, it has taken at most as many as fit into the duration.
\<close>

lemma capture_loop_run:
  assumes clock: "steady_monotonic os" and fps: "1 \<le> target_fps session"
    and shoot: "\<And>path. quiet os (shoot path)" "\<And>path. terminates os (shoot path)"
  shows "\<exists>n s'. capture_loop shoot session os s = Some (Inr n, s') \<and>
    int n \<le> max 0 (max_duration_s session) * target_fps session \<and> (\<exists>new. s' = s\<lparr>trace := new @ trace s\<rparr>)"
proof -
  define i where "i = (1 :: rat) / of_int (target_fps session)"
  define t0 where "t0 = monotonic_of os (trace s)"
  define deadline where "deadline = t0 + of_int (max_duration_s session)"
  have i: "0 < i" using fps by (simp add: i_def)
  let ?mono = "\<lambda>s. monotonic_of os (trace s)" and ?stop = "\<lambda>s. stop_set_of os (trace s) (capture_id session)"
  let ?fits = "\<lambda>n. int n \<le> max 0 (max_duration_s session) * target_fps session"
  define body where "body = (\<lambda>n. bind (observe (\<lambda>os h. stop_set_of os h (capture_id session))) (\<lambda>stopped.
       if stopped then return (Inr n)
       else bind time_monotonic (\<lambda>t.
         if t \<ge> deadline then return (Inr n)
         else bind (capture_turn (shoot (path_join (frame_dir session) (frame_name n))) session i n)
           (\<lambda>n'. return (Inl n')))))"
  define I where "I n s1 \<longleftrightarrow> ?fits n \<and> (?stop s1 \<or> t0 + of_nat n * i \<le> ?mono s1) \<and> (\<exists>new. s1 = s\<lparr>trace := new @ trace s\<rparr>)"
    for n and s1 :: sys
  define \<mu> where "\<mu> n s1 = (if ?stop s1 then 0 else Suc (nat \<lceil>(deadline - ?mono s1) / i\<rceil>))" for n :: nat and s1 :: sys
  have one_more: "?fits (Suc n)" if "t0 + of_nat n * i < deadline" for n
  proof -
    from that have "of_nat n * i < of_int (max_duration_s session)" by (simp add: deadline_def)
    then have "rat_of_nat n < of_int (max_duration_s session) * of_int (target_fps session)"
      using fps by (simp add: i_def field_simps)
    then have "rat_of_int (int n) < rat_of_int (max_duration_s session * target_fps session)" by simp
    then have "int n < max_duration_s session * target_fps session" by (simp only: of_int_less_iff)
    also have "\<dots> \<le> max 0 (max_duration_s session) * target_fps session"
      using fps by (intro mult_right_mono) auto
    finally show ?thesis by simp
  qed
  let ?s0 = "s\<lparr>trace := ReadMonotonic # trace s\<rparr>"
  have "\<exists>n s'. iterate body 0 os ?s0 = Some (Inr n, s') \<and> (?fits n \<and> (\<exists>new. s' = s\<lparr>trace := new @ trace s\<rparr>))"
  proof (rule iterate_total [where I = I and \<mu> = \<mu>])
    have "t0 \<le> ?mono ?s0" using monotonic_extends [OF clock, of "trace s" "[ReadMonotonic]"] by (simp add: t0_def)
    moreover have "\<exists>new. ?s0 = s\<lparr>trace := new @ trace s\<rparr>" by (rule exI [of _ "[ReadMonotonic]"]) simp
    ultimately show "I 0 ?s0" using fps by (simp add: I_def)
  next
    fix n s1 assume I: "I n s1"
    then obtain new where s1: "s1 = s\<lparr>trace := new @ trace s\<rparr>" and fits: "?fits n" by (auto simp: I_def)
    let ?s2 = "s1\<lparr>trace := ReadMonotonic # trace s1\<rparr>"
    have s2: "\<exists>new. ?s2 = s\<lparr>trace := new @ trace s\<rparr>" by (rule exI [of _ "ReadMonotonic # new"]) (simp add: s1)
    show "(\<exists>v s'. body n os s1 = Some (Inr (Inr v), s') \<and> (?fits v \<and> (\<exists>new. s' = s\<lparr>trace := new @ trace s\<rparr>))) \<or>
      (\<exists>y s'. body n os s1 = Some (Inr (Inl y), s') \<and> I y s' \<and> \<mu> y s' < \<mu> n s1)"
    proof (cases "?stop s1 \<or> deadline \<le> ?mono s1")
      case True
      then have "body n os s1 = Some (Inr (Inr n), if ?stop s1 then s1 else ?s2)"
        by (auto simp: body_def bind_run observe_def return_def time_monotonic_run)
      with fits s1 s2 show ?thesis by (cases "?stop s1") auto
    next
      case False
      from capture_turn_run [OF clock shoot] obtain n' s3 where
        turn: "capture_turn (shoot (path_join (frame_dir session) (frame_name n))) session i n os ?s2 = Some (Inr n', s3)"
          "n' \<le> Suc n" "\<exists>new. s3 = ?s2\<lparr>trace := new @ trace ?s2\<rparr>" "?stop s3 \<or> ?mono ?s2 + i \<le> ?mono s3"
        by meson
      have body: "body n os s1 = Some (Inr (Inl n'), s3)"
        using False turn(1) by (simp add: body_def bind_run observe_def return_def time_monotonic_run)
      have "?mono s1 \<le> ?mono ?s2" using monotonic_extends [OF clock, of "trace s1" "[ReadMonotonic]"] by simp
      with turn(4) have later: "?stop s3 \<or> ?mono s1 + i \<le> ?mono s3" by auto
      from I False have elapsed: "t0 + of_nat n * i \<le> ?mono s1" by (simp add: I_def)
      with False have "?fits (Suc n)" by (intro one_more) simp
      with turn(2) have "?fits n'" by linarith
      moreover have "\<exists>new. s3 = s\<lparr>trace := new @ trace s\<rparr>"
        using turn(3) by (auto simp: s1 intro: exI [of _ "_ @ ReadMonotonic # new"])
      moreover have "?stop s3 \<or> t0 + of_nat n' * i \<le> ?mono s3"
      proof -
        have "of_nat n' * i \<le> (of_nat n + 1) * i" using turn(2) i by (intro mult_right_mono) (auto simp flip: of_nat_Suc)
        with later elapsed show ?thesis by (auto simp: algebra_simps)
      qed
      ultimately have "I n' s3" by (simp add: I_def)
      moreover have "\<mu> n' s3 < \<mu> n s1"
        using later False nat_ceiling_less [OF i, of "?mono s1" "?mono s3" deadline] by (auto simp: \<mu>_def)
      ultimately show ?thesis using body by blast
    qed
  qed
  moreover have "capture_loop shoot session os s = iterate body 0 os ?s0"
    unfolding body_def i_def deadline_def t0_def
    by (simp add: capture_loop_def bind_run [of time_monotonic] time_monotonic_run Let_def)
  ultimately show ?thesis by auto
qed

section \<open>From start to end\<close>

text \<open>
  C16. A capture that is started was not running before, and gets a frame rate of 1 to 5 per second
  whatever was asked for.  Its thread, run from any later state with the DHU's screenshots, comes to an
  end without an exception, provided the monotonic clock moves on while the thread sleeps; it changes
  nothing in the manager, and the number of frames it has taken is at most the duration times the frame
  rate (so none if the duration is negative).
\<close>

theorem started_capture_is_bounded:
  assumes "steady_monotonic os" "capture_start name fps dur os s = Some (Inr i, s1)"
  shows "\<exists>session. captures s1 = dict_set name session (captures s) \<and> name \<notin> set (keys (captures s)) \<and>
    capture_id session = i \<and> 1 \<le> target_fps session \<and> target_fps session \<le> 5 \<and>
    max_duration_s session = (if dur = 0 then 30 else dur) \<and>
    (\<forall>pipe s2. \<exists>n s3. capture_loop (default_screenshot pipe) session os s2 = Some (Inr n, s3) \<and>
       int n \<le> max 0 (max_duration_s session) * target_fps session \<and> (\<exists>new. s3 = s2\<lparr>trace := new @ trace s2\<rparr>))"
proof -
  have new: "name \<notin> set (keys (captures s))"
    using assms(2) by (auto simp: capture_start_def Let_def bind_gets raise_def split: if_splits)
  have "\<exists>session. captures s1 = dict_set name session (captures s) \<and> capture_id session = i \<and>
    target_fps session = clamp_fps fps \<and> max_duration_s session = (if dur = 0 then default_max_duration else dur)"
    using assms(2) new
    by (auto simp: capture_start_def Let_def bind_run gets_def observe_def mkdtemp_def ask_def modify_def time_monotonic_run
        start_thread_def return_def split: sum.splits simp del: set_map)
  then obtain session where session: "captures s1 = dict_set name session (captures s)" "capture_id session = i"
    "target_fps session = clamp_fps fps" "max_duration_s session = (if dur = 0 then default_max_duration else dur)"
    by blast
  moreover have fps: "1 \<le> clamp_fps fps" "clamp_fps fps \<le> 5" by (simp_all add: clamp_fps_def max_fps_def)
  moreover have "\<exists>n s3. capture_loop (default_screenshot pipe) session os s2 = Some (Inr n, s3) \<and>
       int n \<le> max 0 (max_duration_s session) * target_fps session \<and> (\<exists>new. s3 = s2\<lparr>trace := new @ trace s2\<rparr>)" for pipe s2
    by (rule capture_loop_run [OF assms(1)])
      (simp_all add: session(3) fps quiet_default_screenshot term_default_screenshot [OF assms(1)])
  ultimately show ?thesis using new by (intro exI [of _ session]) (simp add: default_max_duration_def del: set_map)
qed

lemma started_capture_is_bounded_witness:
  "\<exists>i s1 session n s3. capture_start ''phone'' 9 2 sample_os sample_manager = Some (Inr i, s1) \<and>
     captures s1 = [(''phone'', session)] \<and> capture_loop (default_screenshot ''/tmp/p'') session sample_os s1 = Some (Inr n, s3) \<and> n \<le> 10"
proof -
  have clock: "steady_monotonic sample_os"
    using time_slept_grows by (simp add: steady_monotonic_def sample_os_def del: time_slept.simps) simp
  have "map_option fst (capture_start ''phone'' 9 2 sample_os sample_manager) = Some (Inr ''0123456789ab'')"
    by (simp add: capture_start_def prog_defs sample_os_def sample_manager_def create_manager_def Let_def)
  then obtain s1 where run: "capture_start ''phone'' 9 2 sample_os sample_manager = Some (Inr ''0123456789ab'', s1)" by auto
  have "captures sample_manager = []" by (simp add: sample_manager_def create_manager_def)
  with started_capture_is_bounded [OF clock run] obtain session where session: "captures s1 = [(''phone'', session)]"
    "target_fps session \<le> 5" "max_duration_s session = 2"
    "\<And>pipe s2. \<exists>n s3. capture_loop (default_screenshot pipe) session sample_os s2 = Some (Inr n, s3) \<and>
       int n \<le> max 0 (max_duration_s session) * target_fps session"
    by fastforce
  from session(4) [of "''/tmp/p''" s1] obtain n s3 where
    "capture_loop (default_screenshot ''/tmp/p'') session sample_os s1 = Some (Inr n, s3)" "int n \<le> 2 * target_fps session"
    by (auto simp: session(3))
  with run session(1,2) show ?thesis by (intro exI [of _ "''0123456789ab''"] exI [of _ s1] exI [of _ session] exI [of _ n] exI [of _ s3]) simp
qed

end
