(* ===== verification/Lifecycle_Observes.thy ===== *)
theory Lifecycle_Observes
  imports Lifecycle_Safety Capture_Bounds
begin

text \<open>
  What the manager finds out about its instances: the GPU mode a snapshot was saved with, and in each
  refresh round which instances have lost a process.
\<close>

section \<open>The GPU mode\<close>

lemma gpu_flag_found:
  assumes "\<not> printable a" "\<not> printable b" "\<not> printable c"
    and "''-gpu'' \<notin> set (string_runs [] before)" and "length mode \<ge> 2" "\<forall>x \<in> set (text_bytes mode). printable x"
  shows "gpu_flag (string_runs [] (before @ a # text_bytes ''-gpu'' @ b # text_bytes mode @ c # after)) = Some mode"
proof -
  have "\<forall>x \<in> set (text_bytes ''-gpu''). printable x" by (simp add: text_bytes_def printable_def code_def)
  then have "string_runs [] (text_bytes ''-gpu'' @ b # rest) = ''-gpu'' # string_runs [] rest" for rest
    using assms(2) by (simp add: string_runs_printable byte_char_text)
  moreover have "string_runs [] (text_bytes mode @ c # after) = mode # string_runs [] after"
    using assms(3,5,6) by (simp add: string_runs_printable byte_char_text)
  ultimately show ?thesis
    using assms(4) by (simp add: string_runs_cut [OF assms(1)] gpu_flag_skip)
qed


lemma read_bytes_run: "read_bytes p os s = Some (bytes_of os (trace s) p, s\<lparr>trace := ReadBytes p # trace s\<rparr>)"
  by (simp add: read_bytes_def ask_def)

lemma read_text_run: "read_text p os s = Some (text_of os (trace s) p, s\<lparr>trace := ReadText p # trace s\<rparr>)"
  by (simp add: read_text_def ask_def)

lemma gpu_of_config_found:
  assumes "\<forall>line \<in> set before. strip (fst (partition_at (CHR ''='') line)) \<noteq> ''hw.gpu.mode''"
    and "partition_at (CHR ''='') line = (key, sep, val)" "strip key = ''hw.gpu.mode''"
  shows "gpu_of_config (before @ line # after) = Some (strip val)"
  using assms by (induction before) (auto split: prod.splits)

definition the_avd_home :: "os \<Rightarrow> string" where
  "the_avd_home os = (case env_of os ''ANDROID_AVD_HOME'' of Some h \<Rightarrow> h | None \<Rightarrow> expanduser_of os ''~/.android/avd'')"

lemma avd_home_run: "avd_home os s = Some (Inr (the_avd_home os), s)"
  by (simp add: avd_home_def the_avd_home_def bind_run environ_get_def expanduser_def return_def split: option.split)

text \<open>
  The GPU mode of a snapshot is the string after the first \<open>-gpu\<close> among the printable runs of
  its protobuf, whatever bytes surround them, and only that file is read; when there is no such file, it is
  the value of the first \<open>hw.gpu.mode\<close> line of the AVD's configuration.
\<close>

theorem gpu_mode_resolved:
  "(\<not> printable a \<and> \<not> printable b \<and> \<not> printable c \<and>
    ''-gpu'' \<notin> set (string_runs [] before) \<and> length mode \<ge> 2 \<and> (\<forall>x \<in> set (text_bytes mode). printable x) \<and>
    bytes_of os (trace s) (snapshot_pb (the_avd_home os) avd snapshot) =
      Inr (before @ a # text_bytes ''-gpu'' @ b # text_bytes mode @ c # after) \<longrightarrow>
    resolve_gpu_mode avd snapshot os s =
      Some (Inr mode, s\<lparr>trace := ReadBytes (snapshot_pb (the_avd_home os) avd snapshot) # trace s\<rparr>)) \<and>
   (bytes_of os (trace s) (snapshot_pb (the_avd_home os) avd snapshot) = Inl FileNotFoundError \<and>
    text_of os (ReadBytes (snapshot_pb (the_avd_home os) avd snapshot) # trace s) (config_ini (the_avd_home os) avd) = Inr text \<and>
    text_lines text = lines @ line # below \<and>
    (\<forall>line \<in> set lines. strip (fst (partition_at (CHR ''='') line)) \<noteq> ''hw.gpu.mode'') \<and>
    partition_at (CHR ''='') line = (key, sep, val) \<and> strip key = ''hw.gpu.mode'' \<longrightarrow>
    resolve_gpu_mode avd snapshot os s = Some (Inr (strip val), s\<lparr>trace :=
      ReadText (config_ini (the_avd_home os) avd) # ReadBytes (snapshot_pb (the_avd_home os) avd snapshot) # trace s\<rparr>))"
proof (intro conjI impI; elim conjE)
  assume cut: "\<not> printable a" "\<not> printable b" "\<not> printable c" "''-gpu'' \<notin> set (string_runs [] before)" "length mode \<ge> 2"
      "\<forall>x \<in> set (text_bytes mode). printable x"
    and bytes: "bytes_of os (trace s) (snapshot_pb (the_avd_home os) avd snapshot) =
      Inr (before @ a # text_bytes ''-gpu'' @ b # text_bytes mode @ c # after)"
  have "mode \<noteq> []" using cut(5) by auto
  with gpu_flag_found [OF cut, of after] bytes
  show "resolve_gpu_mode avd snapshot os s =
      Some (Inr mode, s\<lparr>trace := ReadBytes (snapshot_pb (the_avd_home os) avd snapshot) # trace s\<rparr>)"
    by (simp add: resolve_gpu_mode_def read_gpu_from_snapshot_def bind_run avd_home_run catch_run read_bytes_run return_def)
next
  assume "bytes_of os (trace s) (snapshot_pb (the_avd_home os) avd snapshot) = Inl FileNotFoundError"
    "text_of os (ReadBytes (snapshot_pb (the_avd_home os) avd snapshot) # trace s) (config_ini (the_avd_home os) avd) = Inr text"
    "text_lines text = lines @ line # below"
    and line: "\<forall>line \<in> set lines. strip (fst (partition_at (CHR ''='') line)) \<noteq> ''hw.gpu.mode''"
      "partition_at (CHR ''='') line = (key, sep, val)" "strip key = ''hw.gpu.mode''"
  with gpu_of_config_found [OF line] show "resolve_gpu_mode avd snapshot os s = Some (Inr (strip val), s\<lparr>trace :=
      ReadText (config_ini (the_avd_home os) avd) # ReadBytes (snapshot_pb (the_avd_home os) avd snapshot) # trace s\<rparr>)"
    by (simp add: resolve_gpu_mode_def read_gpu_from_snapshot_def read_gpu_from_config_def bind_run avd_home_run catch_run
        read_bytes_run read_text_run return_def Let_def)
qed

lemma gpu_mode_resolved_witness:
  "\<exists>s'. resolve_gpu_mode ''a'' ''b'' (sample_os\<lparr>bytes_of := (\<lambda>h p. Inr (0 # text_bytes ''-gpu'' @ 4 # text_bytes ''host'' @ [0]))\<rparr>)
     sample_manager = Some (Inr ''host'', s')"
proof -
  let ?os = "sample_os\<lparr>bytes_of := (\<lambda>h p. Inr (0 # text_bytes ''-gpu'' @ 4 # text_bytes ''host'' @ [0]))\<rparr>"
  have "\<forall>x \<in> set (text_bytes ''host''). printable x" by (simp add: text_bytes_def printable_def code_def)
  then show ?thesis
    using gpu_mode_resolved [where a = 0 and b = 4 and c = 0 and before = "[]" and mode = "''host''" and os = ?os and s = sample_manager
        and avd = "''a''" and snapshot = "''b''" and after = "[]"]
    by (auto simp: printable_def)
qed

section \<open>Refresh rounds\<close>

text \<open>The states of the instances, by name, and the instances of which a process has exited.\<close>

definition states :: "sys \<Rightarrow> string \<Rightarrow> int option" where
  "states s n = map_option inst_state (dict_get (instances s) n)"

lemma states_trace [simp]: "states (s\<lparr>trace := t\<rparr>) = states s"
  by (simp add: states_def fun_eq_iff)

definition has_dead :: "(int \<Rightarrow> int option) \<Rightarrow> sys \<Rightarrow> string \<Rightarrow> bool" where
  "has_dead status s n \<longleftrightarrow> (\<exists>h. dict_get (tracked s) n = Some h \<and> (\<exists>p \<in> handle_pids h. status p \<noteq> None))"

lemma none_exited_run:
  assumes "\<And>h p. poll_of os h p = status p"
  shows "\<exists>new. none_exited hs os s = Some (Inr (\<forall>p. Some p \<in> set hs \<longrightarrow> status p = None), s\<lparr>trace := new @ trace s\<rparr>)"
proof (induction hs arbitrary: s)
  case (Cons h hs)
  show ?case
  proof (cases h)
    case None
    with Cons [of s] show ?thesis by simp
  next
    case (Some p)
    let ?s1 = "s\<lparr>trace := Polled p (status p) # trace s\<rparr>"
    from Cons [of ?s1] obtain new where
      "none_exited hs os ?s1 = Some (Inr (\<forall>p. Some p \<in> set hs \<longrightarrow> status p = None), ?s1\<lparr>trace := new @ trace ?s1\<rparr>)" by blast
    with Some assms show ?thesis
      by (cases "status p")
        (auto simp: bind_run proc_poll_run return_def intro: exI [of _ "new @ [Polled p (status p)]"] exI [of _ "[Polled p (status p)]"])
  qed
qed (auto simp: return_def intro: exI [of _ "[]"])

lemma check_health_run:
  assumes "\<And>h p. poll_of os h p = status p"
  shows "\<exists>new. check_health n os s = Some (Inr (\<not> has_dead status s n), s\<lparr>trace := new @ trace s\<rparr>)"
proof (cases "dict_get (tracked s) n")
  case None
  then show ?thesis by (auto simp: check_health_def bind_gets has_dead_def return_def intro: exI [of _ "[]"])
next
  case (Some h)
  from none_exited_run [OF assms, of "[h_emulator h, h_dhu h, h_keeper h, h_socat h]" s] obtain new where
    "none_exited [h_emulator h, h_dhu h, h_keeper h, h_socat h] os s =
       Some (Inr (\<forall>p. Some p \<in> set [h_emulator h, h_dhu h, h_keeper h, h_socat h] \<longrightarrow> status p = None), s\<lparr>trace := new @ trace s\<rparr>)"
    by blast
  moreover have "(\<forall>p. Some p \<in> set [h_emulator h, h_dhu h, h_keeper h, h_socat h] \<longrightarrow> status p = None) =
      (\<not> has_dead status s n)"
    using Some by (auto simp: has_dead_def handle_pids_def)
  ultimately show ?thesis using Some by (auto simp: check_health_def bind_gets)
qed

text \<open>Refreshing the screenshots keeps states and handles.\<close>

lemma states_update:
  assumes "\<And>r. inst_state (f r) = inst_state r"
  shows "states (s\<lparr>instances := snd (store_update n f (instances s))\<rparr>) = states s"
  using assms by (auto simp: states_def store_update_def dict_simps fun_eq_iff split: option.split)

lemma refresh_healthy:
  assumes "refresh_instance r os s = Some (q, s')" "\<not> has_dead status s (inst_name r)" "\<And>h p. poll_of os h p = status p"
  shows "q = Inr () \<and> states s' = states s \<and> tracked s' = tracked s"
proof -
  define P where "P t = (states t = states s \<and> tracked t = tracked s)" for t :: sys
  from check_health_run [OF assms(3), of "inst_name r" s] assms(2) obtain new where
    health: "check_health (inst_name r) os s = Some (Inr True, s\<lparr>trace := new @ trace s\<rparr>)" by auto
  define m where "m = bind (screenshot r) (\<lambda>dhu_png.
        bind (emulator_screenshot_to_bytes (serial_of (emulator_console_port r))) (\<lambda>emu_png.
        bind time_time (\<lambda>t.
        update_instance (inst_name r) (\<lambda>r. r\<lparr>last_screenshot_png := Some dhu_png,
          last_emulator_screenshot_png := Some emu_png, last_screenshot_at_ms := Some (to_ms t)\<rparr>))))"
  have still: "triple os P m (\<lambda>_. P)" if "quiet os m" for m :: "'a prog"
    using that by (rule triple_quiet) (simp add: P_def)
  have "triple os P m (\<lambda>_. P)"
    unfolding m_def
    by (rule triple_bind [where R = "\<lambda>_. P"], rule still, intro quiet_intros,
        rule triple_bind [where R = "\<lambda>_. P"], rule still, intro quiet_intros,
        rule triple_bind [where R = "\<lambda>_. P"], rule still, intro quiet_intros, rule triple_on_store)
      (simp_all add: P_def states_update)
  moreover from assms(1) health obtain x where "m os (s\<lparr>trace := new @ trace s\<rparr>) = Some (x, s')" "q = Inr ()"
    by (auto simp: refresh_instance_def bind_run ignoring_def catch_run return_def m_def [symmetric] split: option.splits sum.splits)
  moreover have "P (s\<lparr>trace := new @ trace s\<rparr>)" by (simp add: P_def)
  ultimately have "P s' \<and> q = Inr ()" by (blast dest: tripleD)
  then show ?thesis by (simp add: P_def)
qed

lemma refresh_dead:
  assumes "refresh_instance r os s = Some (q, s')" "has_dead status s (inst_name r)" "\<And>h p. poll_of os h p = status p"
    and "inst_name r \<in> set (keys (instances s))"
  shows "q = Inr () \<and> states s' = (states s)(inst_name r \<mapsto> ERROR) \<and> tracked s' = tracked s"
proof -
  from check_health_run [OF assms(3), of "inst_name r" s] assms(2) obtain new where
    health: "check_health (inst_name r) os s = Some (Inr False, s\<lparr>trace := new @ trace s\<rparr>)" by auto
  from assms(4) obtain p where "dict_get (instances s) (inst_name r) = Some p" by (metis dict_get_None_iff option.exhaust)
  with assms(1) health show ?thesis
    by (auto simp: refresh_instance_def bind_run ignoring_def catch_run on_store_def store_update_def return_def states_def
        dict_simps fun_eq_iff)
qed

lemma refresh_each:
  assumes poll: "\<And>h p. poll_of os h p = status p"
    and "for_each refresh_instance rs os s = Some (q, s')" "inst_name ` set rs \<subseteq> dom (states s)"
  shows "q = Inr () \<and> tracked s' = tracked s \<and>
    states s' = (\<lambda>n. if n \<in> inst_name ` set rs \<and> has_dead status s n then Some ERROR else states s n)"
  using assms(2,3)
proof (induction rs arbitrary: s)
  case (Cons r rs)
  from Cons.prems(1) obtain x s1 where r: "refresh_instance r os s = Some (x, s1)"
    and rest: "x = Inr () \<Longrightarrow> for_each refresh_instance rs os s1 = Some (q, s')" "\<And>e. x = Inl e \<Longrightarrow> q = Inl e"
    by (auto simp: bind_run split: option.splits sum.splits)
  have here: "inst_name r \<in> set (keys (instances s))"
    using Cons.prems(2) by (auto simp: states_def simp del: set_map intro: present)
  have s1: "x = Inr () \<and> tracked s1 = tracked s \<and>
      states s1 = (if has_dead status s (inst_name r) then (states s)(inst_name r \<mapsto> ERROR) else states s)"
    using refresh_healthy [OF r _ poll] refresh_dead [OF r _ poll here] by auto
  have "has_dead status s1 = has_dead status s" using s1 by (simp add: has_dead_def fun_eq_iff)
  moreover have "inst_name ` set rs \<subseteq> dom (states s1)" using s1 Cons.prems(2) by auto
  moreover have "for_each refresh_instance rs os s1 = Some (q, s')" using rest(1) s1 by simp
  ultimately have "q = Inr () \<and> tracked s' = tracked s1 \<and>
      states s' = (\<lambda>n. if n \<in> inst_name ` set rs \<and> has_dead status s n then Some ERROR else states s1 n)"
    using Cons.IH [of s1] by simp
  with s1 show ?case by (simp add: fun_eq_iff)
qed (auto simp: return_def)

text \<open>
  C15. A refresh round on a manager in a good state always ends, without an exception, and as long as no
  process exits while it runs, it marks as ERROR exactly the running instances of which a tracked process
  has exited: every other instance keeps its state, whatever becomes of the screenshots.
\<close>

theorem refresh_round_marks_dead:
  assumes "steady_clock os" "manager_ok s" "\<And>h p. poll_of os h p = status p"
  shows "\<exists>s'. refresh_round os s = Some (Inr (), s') \<and> manager_ok s' \<and> tracked s' = tracked s \<and>
    states s' = (\<lambda>n. if states s n = Some RUNNING \<and> has_dead status s n then Some ERROR else states s n)"
proof -
  from term_refresh [OF assms(1)] obtain q s' where run: "refresh_round os s = Some (q, s')" by (rule terminatesE)
  let ?s = "s\<lparr>trace := Slept 30 # trace s\<rparr>"
  have each: "for_each refresh_instance (get_running (instances s)) os ?s = Some (q, s')"
    using run by (simp add: refresh_round_def bind_run [of "sleep 30"] sleep_run bind_gets)
  have wf: "wf_dict (instances s)" and named: "\<And>n r. dict_get (instances s) n = Some r \<Longrightarrow> inst_name r = n"
    using assms(2) by (auto simp: manager_ok_def record_ok_def simp del: map_of_eq_Some_iff)
  have running: "n \<in> inst_name ` set (get_running (instances s)) \<longleftrightarrow> states s n = Some RUNNING" for n
  proof -
    have "(n, r) \<in> set (instances s) \<longleftrightarrow> dict_get (instances s) n = Some r" for n r
      using wf by (simp add: map_of_eq_Some_iff)
    then show ?thesis using named
      by (force simp: get_running_def list_all_records_def states_def image_iff simp del: map_of_eq_Some_iff)
  qed
  then have "inst_name ` set (get_running (instances s)) \<subseteq> dom (states ?s)" by (metis domI states_trace subsetI)
  from refresh_each [OF assms(3) each this] running have
    "q = Inr ()" "tracked s' = tracked s"
    "states s' = (\<lambda>n. if states s n = Some RUNNING \<and> has_dead status s n then Some ERROR else states s n)"
    by (auto simp: states_def has_dead_def fun_eq_iff)
  moreover have "manager_ok s'"
    using tripleD [OF refresh_keeps [unfolded keeps_def] _ run, of "(set (keys (instances s)), ports s)"] assms(2)
    by (simp add: inv_on_def)
  ultimately show ?thesis using run by blast
qed

lemma refresh_round_marks_dead_witness:
  "\<exists>s'. refresh_round (sample_os\<lparr>poll_of := (\<lambda>h p. if p = 102 then Some 1 else None)\<rparr>) sample_manager = Some (Inr (), s') \<and>
     states s' ''phone'' = Some ERROR"
proof -
  let ?os = "sample_os\<lparr>poll_of := (\<lambda>h p. if p = 102 then Some 1 else None)\<rparr>"
  let ?status = "\<lambda>p :: int. if p = 102 then Some (1 :: int) else None"
  have clock: "steady_clock ?os" using sample_steady by (simp add: steady_clock_def)
  have "states sample_manager ''phone'' = Some RUNNING" by (simp add: states_def sample_record_def)
  moreover have "has_dead ?status sample_manager ''phone''"
    by (simp add: has_dead_def sample_manager_def handle_pids_def)
  moreover obtain s' where "refresh_round ?os sample_manager = Some (Inr (), s')"
    "states s' = (\<lambda>n. if states sample_manager n = Some RUNNING \<and> has_dead ?status sample_manager n then Some ERROR
       else states sample_manager n)"
    using refresh_round_marks_dead [OF clock sample_manager_ok, of ?status] by auto
  ultimately show ?thesis by auto
qed

end
