(* ===== verification/Log_Collector.thy ===== *)
theory Log_Collector
  imports Sample_Os "HOL-Library.Sublist"
begin

text \<open>
  \<^verbatim>\<open>instance_manager/src/log_collector.py\<close>: the logs of an instance for the dashboard, read
  once (\<open>read_recent\<close>) or followed (\<open>tail\<close>).  A path names a file, by an inode, at a time; an
  open handle keeps the inode it was opened on, whatever the path names later.  A file is what text mode reads
  of it, one byte a character and a newline at each line end; positions count these.
\<close>

section \<open>Sources\<close>

fun strip_prompts :: "string \<Rightarrow> string" where
  "strip_prompts (c # d # rest) = (if c = CHR ''>'' \<and> d = CHR '' '' then strip_prompts rest else c # d # rest)"
| "strip_prompts s = s"

definition clean_dhu_line :: "string \<Rightarrow> string option" where
  "clean_dhu_line text =
     (let stripped = strip text; cleaned = strip_prompts stripped
      in if cleaned = ''>'' \<or> cleaned = [] then None else Some stripped)"

record log_entry =
  entry_source :: string
  entry_text :: string

definition get_sources :: "(string \<Rightarrow> bool) \<Rightarrow> string option \<Rightarrow> instance_record \<Rightarrow> (string, string) dict" where
  "get_sources exists service_log r =
     (case inst_log_path r of Some p \<Rightarrow> if p \<noteq> [] \<and> exists p then [(''dhu'', p)] else [] | None \<Rightarrow> []) @
     (if exists (emu_log_path (inst_name r)) then [(''emulator'', emu_log_path (inst_name r))] else []) @
     (case service_log of Some p \<Rightarrow> if p \<noteq> [] \<and> exists p then [(''service'', p)] else [] | None \<Rightarrow> [])"

text \<open>\<open>if sources and source_name not in sources: continue\<close>\<close>

definition wanted :: "string set option \<Rightarrow> string \<Rightarrow> bool" where
  "wanted sources src \<longleftrightarrow> (case sources of None \<Rightarrow> True | Some S \<Rightarrow> S = {} \<or> src \<in> S)"

text \<open>The entries of lines of a source, noise left out.\<close>

definition entries_of :: "string \<Rightarrow> string list \<Rightarrow> log_entry list" where
  "entries_of src lines =
     (if src = ''dhu''
      then concat (map (\<lambda>l. case clean_dhu_line l of None \<Rightarrow> [] | Some t \<Rightarrow> [\<lparr>entry_source = src, entry_text = t\<rparr>]) lines)
      else map (\<lambda>l. \<lparr>entry_source = src, entry_text = l\<rparr>) lines)"

section \<open>Reading recent lines\<close>

definition dhu_overread_factor :: nat where
  "dhu_overread_factor = 2"

text \<open>\<open>deque(f, maxlen=n)\<close>\<close>

definition last_n :: "nat \<Rightarrow> 'a list \<Rightarrow> 'a list" where
  "last_n n xs = drop (length xs - n) xs"

definition read_source :: "nat \<Rightarrow> string \<Rightarrow> string \<Rightarrow> log_entry list" where
  "read_source max_lines src text =
     (let maxlen = (if src = ''dhu'' then max_lines * dhu_overread_factor else max_lines)
      in slice_last (entries_of src (last_n maxlen (text_lines text))) (int max_lines))"

fun read_sources :: "(string \<Rightarrow> string result) \<Rightarrow> nat \<Rightarrow> string set option \<Rightarrow> (string, string) dict \<Rightarrow> log_entry list result" where
  "read_sources read_file max_lines sources [] = Inr []"
| "read_sources read_file max_lines sources ((src, path) # rest) =
     (case (if \<not> wanted sources src then Inr []
            else case read_file path of
              Inr text \<Rightarrow> Inr (read_source max_lines src text)
            | Inl e \<Rightarrow> if is_os_error e then Inr [] else Inl e) of
        Inl e \<Rightarrow> Inl e
      | Inr es \<Rightarrow> (case read_sources read_file max_lines sources rest of Inl e \<Rightarrow> Inl e | Inr later \<Rightarrow> Inr (es @ later)))"

definition read_recent ::
  "(string \<Rightarrow> bool) \<Rightarrow> (string \<Rightarrow> string result) \<Rightarrow> string option \<Rightarrow> instance_record \<Rightarrow> nat \<Rightarrow> string set option \<Rightarrow> log_entry list result" where
  "read_recent exists read_file service_log r max_lines sources =
     read_sources read_file max_lines sources (get_sources exists service_log r)"

section \<open>Following\<close>

text \<open>The files at a moment, and an open handle with its position.\<close>

record world =
  file_at :: "string \<Rightarrow> nat option"
  content :: "nat \<Rightarrow> string"

record log_handle =
  h_path :: string
  h_inode :: nat
  h_pos :: nat

definition open_at_end :: "world \<Rightarrow> string \<Rightarrow> log_handle option" where
  "open_at_end w path = map_option (\<lambda>i. \<lparr>h_path = path, h_inode = i, h_pos = length (content w i)\<rparr>) (file_at w path)"

text \<open>
  One source of a pass: back to the start if the position is beyond the size of the file the path names
  (an \<open>OSError\<close> when it names none is ignored), then the lines from the position on.
\<close>

definition follow :: "world \<Rightarrow> log_handle \<Rightarrow> string list \<times> log_handle" where
  "follow w h =
     (let text = content w (h_inode h);
          pos = (case file_at w (h_path h) of
              Some i \<Rightarrow> if h_pos h > length (content w i) then 0 else h_pos h
            | None \<Rightarrow> h_pos h)
      in (text_lines (drop pos text), h\<lparr>h_pos := max pos (length text)\<rparr>))"

fun tail_pass :: "world \<Rightarrow> (string, log_handle) dict \<Rightarrow> log_entry list \<times> (string, log_handle) dict" where
  "tail_pass w [] = ([], [])"
| "tail_pass w ((src, h) # rest) =
     (case follow w h of (lines, h') \<Rightarrow>
      case tail_pass w rest of (es, rest') \<Rightarrow> (entries_of src lines @ es, (src, h') # rest'))"

text \<open>Opening the sources at their ends.\<close>

fun open_sources :: "world \<Rightarrow> string set option \<Rightarrow> (string, string) dict \<Rightarrow> (string, log_handle) dict" where
  "open_sources w sources [] = []"
| "open_sources w sources ((src, path) # rest) =
     (if \<not> wanted sources src then open_sources w sources rest
      else case open_at_end w path of
        Some h \<Rightarrow> (src, h) # open_sources w sources rest
      | None \<Rightarrow> open_sources w sources rest)"

fun rescan :: "world \<Rightarrow> string set option \<Rightarrow> (string, string) dict \<Rightarrow> (string, log_handle) dict \<Rightarrow> (string, log_handle) dict" where
  "rescan w sources [] pos = pos"
| "rescan w sources ((src, path) # rest) pos =
     rescan w sources rest
       (if \<not> wanted sources src then pos
        else case dict_get pos src of
          None \<Rightarrow> (case open_at_end w path of Some h \<Rightarrow> dict_set src h pos | None \<Rightarrow> pos)
        | Some h \<Rightarrow>
            if h_path h \<noteq> path
            then (case open_at_end w path of Some h' \<Rightarrow> dict_set src h' pos | None \<Rightarrow> dict_pop src pos)
            else pos)"

definition source_rescan_interval :: seconds where
  "source_rescan_interval = 5"

text \<open>
  A turn of the loop of \<open>tail\<close>, in which it sees the files, the monotonic clock and the store's
  record; an idle turn yields \<open>None\<close>.  The second component is \<open>None\<close> when it ends.
\<close>

record turn =
  turn_world :: world
  turn_now :: seconds
  turn_record :: "instance_record option"

definition available :: "string option \<Rightarrow> world \<Rightarrow> instance_record \<Rightarrow> (string, string) dict" where
  "available service_log w r = get_sources (\<lambda>p. file_at w p \<noteq> None) service_log r"

definition tail_turn ::
  "string option \<Rightarrow> string set option \<Rightarrow> turn \<Rightarrow> (string, log_handle) dict \<times> seconds \<Rightarrow>
   log_entry option list \<times> ((string, log_handle) dict \<times> seconds) option" where
  "tail_turn service_log sources t = (\<lambda>(positions, last_rescan).
     case tail_pass (turn_world t) positions of (es, positions') \<Rightarrow>
     let out = (if es = [] then [None] else map Some es)
     in if turn_now t - last_rescan \<ge> source_rescan_interval
        then (case turn_record t of
            None \<Rightarrow> (out, None)
          | Some r \<Rightarrow> (out, Some (rescan (turn_world t) sources (available service_log (turn_world t) r) positions', turn_now t)))
        else (out, Some (positions', last_rescan)))"

fun tail_turns ::
  "string option \<Rightarrow> string set option \<Rightarrow> turn list \<Rightarrow> (string, log_handle) dict \<times> seconds \<Rightarrow>
   log_entry option list \<times> ((string, log_handle) dict \<times> seconds) option" where
  "tail_turns service_log sources [] st = ([], Some st)"
| "tail_turns service_log sources (t # ts) st =
     (case tail_turn service_log sources t st of
        (out, None) \<Rightarrow> (out, None)
      | (out, Some st') \<Rightarrow> (case tail_turns service_log sources ts st' of (later, fin) \<Rightarrow> (out @ later, fin)))"

definition tail_log ::
  "string option \<Rightarrow> string set option \<Rightarrow> turn \<Rightarrow> turn list \<Rightarrow> log_entry option list \<times> ((string, log_handle) dict \<times> seconds) option" where
  "tail_log service_log sources t0 ts =
     (case turn_record t0 of
        None \<Rightarrow> ([], None)
      | Some r \<Rightarrow> tail_turns service_log sources ts
          (open_sources (turn_world t0) sources (available service_log (turn_world t0) r), turn_now t0))"

section \<open>Recent lines\<close>

lemma entries_of_append: "entries_of src (xs @ ys) = entries_of src xs @ entries_of src ys"
  by (simp add: entries_of_def)

lemma entries_of_Nil [simp]: "entries_of src [] = []"
  by (simp add: entries_of_def)

lemma source_of_entries: "e \<in> set (entries_of src lines) \<Longrightarrow> entry_source e = src"
  by (auto simp: entries_of_def split: if_splits option.splits)

lemma last_n_append: "n \<le> length ys \<Longrightarrow> last_n n (xs @ ys) = last_n n ys"
  by (simp add: last_n_def)

lemma length_last_n: "length (last_n n xs) = min n (length xs)"
  by (simp add: last_n_def)

lemma slice_last_eq: "0 < n \<Longrightarrow> slice_last xs (int n) = last_n n xs"
  by (simp add: slice_last_def last_n_def)

lemma last_n_split: "take (length xs - n) xs @ last_n n xs = xs"
  by (simp add: last_n_def)

text \<open>Filtering the last \<open>m\<close> lines shows the same as filtering the whole log, if they hold enough.\<close>

lemma last_of_tail:
  assumes "n \<le> length (entries_of src (last_n m xs)) \<or> length xs \<le> m"
  shows "last_n n (entries_of src (last_n m xs)) = last_n n (entries_of src xs)"
proof (cases "length xs \<le> m")
  case False
  have "entries_of src xs = entries_of src (take (length xs - m) xs) @ entries_of src (last_n m xs)"
    by (simp only: entries_of_append [symmetric] last_n_split)
  with assms False show ?thesis by (simp add: last_n_append)
qed (simp add: last_n_def)

text \<open>The last \<open>2 n\<close> lines of a log hold \<open>n\<close> that are no noise, or are the whole log.\<close>

definition enough_lines :: "nat \<Rightarrow> string \<Rightarrow> string \<Rightarrow> bool" where
  "enough_lines n src text \<longleftrightarrow> src = ''dhu'' \<longrightarrow>
     n \<le> length (entries_of src (last_n (n * 2) (text_lines text))) \<or> length (text_lines text) \<le> n * 2"

lemma read_source_spec:
  assumes "0 < n" "enough_lines n src text"
  shows "read_source n src text = last_n n (entries_of src (text_lines text))"
proof (cases "src = ''dhu''")
  case True
  with assms show ?thesis
    by (simp add: read_source_def slice_last_eq dhu_overread_factor_def enough_lines_def last_of_tail Let_def)
next
  case False
  then show ?thesis using assms(1)
    by (simp add: read_source_def slice_last_eq entries_of_def last_n_def drop_map)
qed

lemma read_sources_spec:
  assumes "\<forall>(src, path) \<in> set ps. \<forall>e. read_file path = Inl e \<longrightarrow> is_os_error e"
  shows "read_sources read_file n sources ps = Inr (concat (map (\<lambda>(src, path).
      case read_file path of Inr text \<Rightarrow> if wanted sources src then read_source n src text else [] | Inl _ \<Rightarrow> []) ps))"
  using assms by (induction ps) (auto split: sum.splits)

text \<open>
  C25. The recent lines of a log are what one would get by reading the whole log, dropping its noise and
  keeping its last \<open>n\<close> lines: reading only the last lines (twice as many for the DHU) and trimming
  again changes nothing, as long as no more than half of the DHU's last \<open>2 n\<close> lines are noise.  The
  sources come in the order DHU, emulator, service, each only if its file exists and is wanted; a file that
  cannot be read is left out; and no source ever has more than \<open>n\<close> entries.
\<close>

theorem recent_lines:
  assumes "0 < n"
    and "\<forall>(src, path) \<in> set (get_sources exists service_log r). case read_file path of
      Inl e \<Rightarrow> is_os_error e | Inr text \<Rightarrow> enough_lines n src text"
  shows "read_recent exists read_file service_log r n sources = Inr (concat (map (\<lambda>(src, path).
      case read_file path of
        Inl _ \<Rightarrow> []
      | Inr text \<Rightarrow> if wanted sources src then last_n n (entries_of src (text_lines text)) else [])
      (get_sources exists service_log r)))"
proof -
  let ?ps = "get_sources exists service_log r"
  have "\<forall>(src, path) \<in> set ?ps. \<forall>e. read_file path = Inl e \<longrightarrow> is_os_error e"
    using assms(2) by (auto split: sum.splits)
  then have "read_recent exists read_file service_log r n sources = Inr (concat (map (\<lambda>(src, path).
      case read_file path of Inr text \<Rightarrow> if wanted sources src then read_source n src text else [] | Inl _ \<Rightarrow> []) ?ps))"
    by (simp add: read_recent_def read_sources_spec)
  also have "map (\<lambda>(src, path). case read_file path of
        Inr text \<Rightarrow> if wanted sources src then read_source n src text else [] | Inl _ \<Rightarrow> []) ?ps =
      map (\<lambda>(src, path). case read_file path of
        Inl _ \<Rightarrow> [] | Inr text \<Rightarrow> if wanted sources src then last_n n (entries_of src (text_lines text)) else []) ?ps"
    using assms by (intro map_cong refl) (auto simp: read_source_spec split: sum.splits)
  finally show ?thesis .
qed


text \<open>The sources of the sample instance when only its DHU log exists.\<close>

lemma sample_sources: "get_sources (\<lambda>p. p = ''/tmp/dhu_phone.log'') None sample_record = [(''dhu'', ''/tmp/dhu_phone.log'')]"
  by (simp add: get_sources_def sample_record_def new_record_def emu_log_path_def)

definition sample_log :: string where
  "sample_log = ''> '' @ [newline] @ ''hi'' @ [newline] @ ''> x'' @ [newline]"

definition whole_lines :: "string \<Rightarrow> bool" where
  "whole_lines s \<longleftrightarrow> s = [] \<or> last s = newline"

lemma sample_log_lines:
  "text_lines sample_log = [''> '', ''hi'', ''> x'']"
  "entries_of ''dhu'' [''> '', ''hi'', ''> x''] =
    [\<lparr>entry_source = ''dhu'', entry_text = ''hi''\<rparr>, \<lparr>entry_source = ''dhu'', entry_text = ''> x''\<rparr>]"
  "entries_of ''dhu'' [''hi'', ''> x''] =
    [\<lparr>entry_source = ''dhu'', entry_text = ''hi''\<rparr>, \<lparr>entry_source = ''dhu'', entry_text = ''> x''\<rparr>]"
  "length sample_log = 10" "whole_lines sample_log" "prefix (''> '' @ [newline]) sample_log"
  by code_simp+

theorem recent_lines_witness:
  "read_recent (\<lambda>p. p = ''/tmp/dhu_phone.log'') (\<lambda>p. Inr sample_log) None sample_record 1 None =
    Inr [\<lparr>entry_source = ''dhu'', entry_text = ''> x''\<rparr>]"
proof -
  have "enough_lines 1 ''dhu'' sample_log"
    by (simp add: enough_lines_def last_n_def sample_log_lines)
  then show ?thesis
    using recent_lines [of 1 "\<lambda>p. p = ''/tmp/dhu_phone.log''" None sample_record "\<lambda>p. Inr sample_log" None]
    by (simp add: sample_sources sample_log_lines wanted_def last_n_def)
qed

section \<open>Following logs that grow\<close>

lemma text_lines_Nil [simp]: "text_lines [] = []"
  by (simp add: text_lines.simps)

lemma text_lines_append: "whole_lines xs \<Longrightarrow> text_lines (xs @ ys) = text_lines xs @ text_lines ys"
proof (induction xs rule: text_lines.induct)
  case (1 xs)
  let ?l = "takeWhile (\<lambda>c. c \<noteq> newline) xs"
  show ?case
  proof (cases "xs = []")
    case False
    with "1.prems" have "newline \<in> set xs" by (metis last_in_set whole_lines_def)
    obtain rest where xs: "xs = ?l @ newline # rest"
    proof (cases "dropWhile (\<lambda>c. c \<noteq> newline) xs")
      case (Cons c rest)
      then have "c = newline" by (simp add: dropWhile_eq_Cons_conv)
      with Cons that show ?thesis by (metis takeWhile_dropWhile_id)
    qed (use \<open>newline \<in> set xs\<close> in auto)
    have l: "takeWhile (\<lambda>c. c \<noteq> newline) (xs @ ys) = ?l"
      using \<open>newline \<in> set xs\<close> by (simp add: takeWhile_append1)
    have rest: "drop (Suc (length ?l)) xs = rest" "drop (Suc (length ?l)) (xs @ ys) = rest @ ys"
      by (subst (2) xs, simp)+
    have "whole_lines rest" using "1.prems" False xs by (metis last_ConsR last_appendR list.distinct(1) whole_lines_def)
    with "1.IH" [OF False] rest show ?thesis
      using False l by (simp add: text_lines.simps [of "xs @ ys"] text_lines.simps [of xs])
  qed simp
qed

text \<open>Every file the later moment shows is one of the earlier, with whole lines appended.\<close>

definition appends :: "world \<Rightarrow> world \<Rightarrow> bool" where
  "appends w w' \<longleftrightarrow> file_at w' = file_at w \<and>
     (\<forall>p i. file_at w p = Some i \<longrightarrow>
        prefix (content w i) (content w' i) \<and> whole_lines (content w i) \<and> whole_lines (content w' i))"

definition appended :: "world \<Rightarrow> world \<Rightarrow> string set option \<Rightarrow> string \<times> string \<Rightarrow> log_entry list" where
  "appended w w' sources = (\<lambda>(src, path). if wanted sources src
     then case file_at w path of
         Some i \<Rightarrow> entries_of src (text_lines (drop (length (content w i)) (content w' i)))
       | None \<Rightarrow> []
     else [])"

lemma appended_trans:
  assumes "appends w w'" "appends w' w''"
  shows "appended w w'' sources sp = appended w w' sources sp @ appended w' w'' sources sp"
proof -
  obtain src path where sp: "sp = (src, path)" by force
  show ?thesis
  proof (cases "file_at w path")
    case (Some i)
    with assms obtain a b where ab: "content w' i = content w i @ a" "content w'' i = content w' i @ b"
        "whole_lines (content w i)" "whole_lines (content w' i)" "file_at w' path = Some i"
      unfolding appends_def prefix_def by metis
    then have "whole_lines a" by (cases "a = []") (auto simp: whole_lines_def)
    with Some ab show ?thesis by (simp add: appended_def sp text_lines_append entries_of_append)
  qed (use assms in \<open>simp add: appended_def sp appends_def\<close>)
qed

lemma follow_growth:
  assumes "appends w w'" "open_at_end w path = Some h"
  shows "\<exists>i. file_at w path = Some i \<and> open_at_end w' path = Some (snd (follow w' h)) \<and>
    fst (follow w' h) = text_lines (drop (length (content w i)) (content w' i))"
proof -
  from assms(2) obtain i where i: "file_at w path = Some i" "h = \<lparr>h_path = path, h_inode = i, h_pos = length (content w i)\<rparr>"
    by (auto simp: open_at_end_def)
  with assms(1) have "file_at w' path = Some i" "prefix (content w i) (content w' i)" by (auto simp: appends_def)
  then have "length (content w i) \<le> length (content w' i)" by (simp add: prefix_length_le)
  with i \<open>file_at w' path = Some i\<close> show ?thesis by (simp add: follow_def open_at_end_def Let_def)
qed

lemma tail_pass_growth:
  assumes "appends w w'"
  shows "tail_pass w' (open_sources w sources ps) = (concat (map (appended w w' sources) ps), open_sources w' sources ps)"
proof (induction ps)
  case (Cons p ps)
  obtain src path where p: "p = (src, path)" by force
  show ?case
  proof (cases "open_at_end w path")
    case None
    with assms have "file_at w path = None" "open_at_end w' path = None" by (auto simp: open_at_end_def appends_def)
    with None Cons p show ?thesis by (simp add: appended_def)
  next
    case (Some h)
    from follow_growth [OF assms this] Some Cons p show ?thesis
      by (auto simp: appended_def split: prod.splits)
  qed
qed simp

lemma rescan_same:
  assumes "\<forall>(src, path) \<in> set ps. wanted sources src \<longrightarrow> (\<exists>h. dict_get pos src = Some h \<and> h_path h = path)"
  shows "rescan w sources ps pos = pos"
  using assms by (induction ps) auto

lemma open_sources_get:
  assumes "wf_dict ps" "(src, path) \<in> set ps" "wanted sources src" "file_at w path \<noteq> None"
  shows "\<exists>h. dict_get (open_sources w sources ps) src = Some h \<and> h_path h = path"
  using assms
proof (induction ps)
  case (Cons p ps)
  obtain src' path' where p: "p = (src', path')" by force
  show ?case
  proof (cases "src = src'")
    case True
    with Cons.prems p have "path = path'" by (auto simp: image_iff)
    with True Cons.prems p show ?thesis by (auto simp: open_at_end_def)
  next
    case False
    with Cons p have "\<exists>h. dict_get (open_sources w sources ps) src = Some h \<and> h_path h = path" by auto
    with False p show ?thesis by (auto split: option.splits)
  qed
qed simp

lemma wf_available: "wf_dict (available service_log w r)"
  by (simp add: available_def get_sources_def split: option.splits)

lemma available_exists: "(src, path) \<in> set (available service_log w r) \<Longrightarrow> file_at w path \<noteq> None"
  by (auto simp: available_def get_sources_def split: option.splits if_splits)

lemma rescan_open:
  "rescan w sources (available service_log w r) (open_sources w sources (available service_log w r)) =
     open_sources w sources (available service_log w r)"
  by (intro rescan_same ballI) (auto intro!: open_sources_get [OF wf_available] dest: available_exists)

text \<open>The entries of a source among those yielded.\<close>

definition yielded :: "string \<Rightarrow> log_entry option list \<Rightarrow> log_entry list" where
  "yielded src out = filter (\<lambda>e. entry_source e = src) (concat (map (\<lambda>x. case x of None \<Rightarrow> [] | Some e \<Rightarrow> [e]) out))"

lemma yielded_append: "yielded src (xs @ ys) = yielded src xs @ yielded src ys"
  by (simp add: yielded_def)

lemma yielded_Some: "yielded src (if es = [] then [None] else map Some es) = filter (\<lambda>e. entry_source e = src) es"
  by (simp add: yielded_def comp_def)

lemma appended_same: "file_at w p = Some i \<Longrightarrow> appended w w sources (src, p) = []"
  by (simp add: appended_def)

lemma filter_entries: "filter (\<lambda>e. entry_source e = src) (entries_of s lines) = (if s = src then entries_of s lines else [])"
  using source_of_entries [of _ s lines] by (auto simp: filter_empty_conv intro!: filter_True)

lemma filter_appended:
  assumes "wf_dict ps"
  shows "filter (\<lambda>e. entry_source e = src) (concat (map (appended w w' sources) ps)) =
    (case dict_get ps src of None \<Rightarrow> [] | Some path \<Rightarrow> appended w w' sources (src, path))"
proof -
  have one: "filter (\<lambda>e. entry_source e = src) (appended w w' sources (s, path)) =
      (if s = src then appended w w' sources (s, path) else [])" for s path
    unfolding appended_def prod.case
    by (cases "wanted sources s"; cases "file_at w path") (simp_all only: filter_entries if_True if_False option.case filter.simps if_cancel)
  have none: "filter (\<lambda>e. entry_source e = src) (concat (map (appended w w' sources) qs)) = []"
    if "src \<notin> set (keys qs)" for qs
    using that by (induction qs) (auto simp: one)
  show ?thesis using assms
  proof (induction ps)
    case (Cons p ps)
    obtain s path where p: "p = (s, path)" by force
    show ?case
    proof (cases "s = src")
      case True
      with Cons.prems p have "src \<notin> set (keys ps)" by simp
      from none [OF this] True p show ?thesis by (simp add: one)
    qed (use Cons p in \<open>simp add: one\<close>)
  qed simp
qed

abbreviation total_appended :: "world \<Rightarrow> world \<Rightarrow> string set option \<Rightarrow> (string, string) dict \<Rightarrow> string \<Rightarrow> log_entry list" where
  "total_appended w w' sources ps src \<equiv>
     case dict_get ps src of None \<Rightarrow> [] | Some path \<Rightarrow> appended w w' sources (src, path)"

lemma tail_turn_growth:
  fixes service_log :: "string option"
  assumes "appends w (turn_world t)" "turn_record t = Some r"
  defines "ps \<equiv> available service_log w r"
  obtains out l where
    "tail_turn service_log sources t (open_sources w sources ps, last_rescan) =
       (out, Some (open_sources (turn_world t) sources ps, l))"
    "\<And>src. yielded src out = total_appended w (turn_world t) sources ps src"
proof -
  have ps: "ps = available service_log (turn_world t) r"
    using assms(1) by (simp add: ps_def available_def appends_def)
  let ?new = "concat (map (appended w (turn_world t) sources) ps)"
  let ?out = "if ?new = [] then [None] else map Some ?new"
  have "\<exists>l. tail_turn service_log sources t (open_sources w sources ps, last_rescan) =
      (?out, Some (open_sources (turn_world t) sources ps, l))"
    using assms(2) ps rescan_open [of "turn_world t" sources service_log r]
    by (simp add: tail_turn_def tail_pass_growth [OF assms(1)] Let_def)
  moreover have "wf_dict ps" by (simp add: ps_def wf_available)
  ultimately show ?thesis using that by (metis yielded_Some filter_appended)
qed

lemma tail_turns_growth:
  assumes "sorted_wrt appends (w # map turn_world ts)" "\<forall>t \<in> set ts. turn_record t = Some r"
    and "v = last (w # map turn_world ts)"
  shows "\<exists>out fin. tail_turns service_log sources ts
      (open_sources w sources (available service_log w r), last_rescan) = (out, Some fin) \<and>
    (\<forall>src. yielded src out = total_appended w v sources (available service_log w r) src)"
  using assms
proof (induction ts arbitrary: w last_rescan)
  case Nil
  then show ?case
    by (auto simp: yielded_def appended_same split: option.splits dest!: dict_get_in available_exists)
next
  case (Cons t ts)
  let ?w = "turn_world t"
  let ?ps = "available service_log w r"
  have g: "appends w ?w" and r: "turn_record t = Some r" and v: "v = last (?w # map turn_world ts)"
    using Cons.prems by simp_all
  have same: "available service_log ?w r = ?ps"
    using g by (simp add: available_def appends_def)
  have "appends ?w v \<or> v = ?w" using Cons.prems(1) v by (cases ts rule: rev_cases) auto
  then have total: "total_appended w v sources ?ps src =
      total_appended w ?w sources ?ps src @ total_appended ?w v sources ?ps src" for src
  proof
    assume "appends ?w v"
    from appended_trans [OF g this] show ?thesis by (simp split: option.splits)
  next
    assume "v = ?w"
    then show ?thesis
      by (auto simp: appended_same same [symmetric] split: option.splits dest!: dict_get_in available_exists)
  qed
  obtain out l where turn: "tail_turn service_log sources t (open_sources w sources ?ps, last_rescan) =
      (out, Some (open_sources ?w sources ?ps, l))"
    and out: "\<And>src. yielded src out = total_appended w ?w sources ?ps src"
    using tail_turn_growth [OF g r, of service_log sources last_rescan] by blast
  obtain later fin where "tail_turns service_log sources ts (open_sources ?w sources ?ps, l) = (later, Some fin)"
    and later: "\<forall>src. yielded src later = total_appended ?w v sources ?ps src"
    using Cons.IH [of ?w l] Cons.prems v same by auto
  with turn have "tail_turns service_log sources (t # ts) (open_sources w sources ?ps, last_rescan) = (out @ later, Some fin)"
    by simp
  moreover have "yielded src (out @ later) = total_appended w v sources ?ps src" for src
    using out later total by (simp add: yielded_append)
  ultimately show ?case by blast
qed

lemma tail_log_growth:
  assumes "sorted_wrt appends (map turn_world (t0 # ts))" "\<forall>t \<in> set (t0 # ts). turn_record t = Some r"
  shows "\<exists>out fin. tail_log service_log sources t0 ts = (out, Some fin) \<and>
    (\<forall>src. yielded src out =
      (case dict_get (available service_log (turn_world t0) r) src of
         None \<Rightarrow> []
       | Some path \<Rightarrow> appended (turn_world t0) (turn_world (last (t0 # ts))) sources (src, path)))"
proof -
  have v: "turn_world (last (t0 # ts)) = last (turn_world t0 # map turn_world ts)"
    using last_map [of "t0 # ts" turn_world] by simp
  have "tail_log service_log sources t0 ts = tail_turns service_log sources ts
      (open_sources (turn_world t0) sources (available service_log (turn_world t0) r), turn_now t0)"
    using assms(2) by (simp add: tail_log_def)
  with tail_turns_growth [OF _ _ v, of r service_log sources "turn_now t0"] assms show ?thesis
    by (metis list.map(2) list.set_intros(2))
qed

text \<open>
  C17. Following the logs of an instance delivers every line once.  While the files grow by whole lines and
  the record stays, the loop never ends, and from its start to its last turn the entries it yields for
  a source are exactly those of the lines appended to its file in the meantime, in order: for a source
  that is not wanted or has no file, none.  Neither the turns the lines are read in nor the rescans matter.
\<close>

theorem tail_delivers_appended:
  assumes "sorted_wrt appends (map turn_world (t0 # ts))" "\<forall>t \<in> set (t0 # ts). turn_record t = Some r"
  shows "\<exists>out fin. tail_log service_log sources t0 ts = (out, Some fin) \<and>
    (\<forall>src. yielded src out =
      (case dict_get (available service_log (turn_world t0) r) src of
         None \<Rightarrow> []
       | Some path \<Rightarrow> appended (turn_world t0) (turn_world (last (t0 # ts))) sources (src, path)))"
  using assms by (rule tail_log_growth)

text \<open>Moments at which only the DHU's log of the sample instance exists.\<close>

definition sample_turn :: "nat \<Rightarrow> (nat \<Rightarrow> string) \<Rightarrow> seconds \<Rightarrow> turn" where
  "sample_turn i text now = \<lparr>turn_world = \<lparr>file_at = (\<lambda>p. if p = ''/tmp/dhu_phone.log'' then Some i else None),
     content = text\<rparr>, turn_now = now, turn_record = Some sample_record\<rparr>"

lemma sample_turn_simps [simp]:
  "file_at (turn_world (sample_turn i text now)) p = (if p = ''/tmp/dhu_phone.log'' then Some i else None)"
  "content (turn_world (sample_turn i text now)) = text"
  "turn_record (sample_turn i text now) = Some sample_record"
  by (simp_all add: sample_turn_def)

lemma sample_available: "available None (turn_world (sample_turn i text now)) sample_record = [(''dhu'', ''/tmp/dhu_phone.log'')]"
  by (simp add: available_def get_sources_def sample_record_def new_record_def emu_log_path_def)

lemma sample_appends: "appends (turn_world (sample_turn i t n)) (turn_world (sample_turn i t' n')) \<longleftrightarrow>
  prefix (t i) (t' i) \<and> whole_lines (t i) \<and> whole_lines (t' i)"
  by (auto simp: appends_def)

theorem tail_delivers_appended_witness:
  "\<exists>out fin. tail_log None None (sample_turn 1 (\<lambda>_. []) 0)
      [sample_turn 1 (\<lambda>_. ''> '' @ [newline]) 1, sample_turn 1 (\<lambda>_. sample_log) 6] = (out, Some fin) \<and>
    yielded ''dhu'' out = [\<lparr>entry_source = ''dhu'', entry_text = ''hi''\<rparr>, \<lparr>entry_source = ''dhu'', entry_text = ''> x''\<rparr>]"
proof -
  let ?t0 = "sample_turn 1 (\<lambda>_. []) 0"
  let ?ts = "[sample_turn 1 (\<lambda>_. ''> '' @ [newline]) 1, sample_turn 1 (\<lambda>_. sample_log) 6]"
  have "sorted_wrt appends (map turn_world (?t0 # ?ts))"
    by (simp add: sample_appends sample_log_lines [simplified]) (simp add: whole_lines_def)
  then obtain out fin where "tail_log None None ?t0 ?ts = (out, Some fin)"
    and "\<forall>src. yielded src out = (case dict_get (available None (turn_world ?t0) sample_record) src of
         None \<Rightarrow> [] | Some path \<Rightarrow> appended (turn_world ?t0) (turn_world (last (?t0 # ?ts))) None (src, path))"
    using tail_delivers_appended [of ?t0 ?ts sample_record None None] by auto
  then have "tail_log None None ?t0 ?ts = (out, Some fin)" "yielded ''dhu'' out = entries_of ''dhu'' (text_lines sample_log)"
    by (simp_all add: sample_available appended_def wanted_def)
  then show ?thesis by (simp only: sample_log_lines) blast
qed

section \<open>A log that is replaced\<close>

lemma follow_replaced:
  assumes "h_pos h = length old" "content w (h_inode h) = old" "file_at w (h_path h) = Some j"
  shows "follow w h = (if length (content w j) < length old then text_lines old else [], h)"
  using assms by (simp add: follow_def)

text \<open>
  C18. After the DHU has been restarted its log is no longer followed: \<open>restart_dhu\<close> removes the file
  and lets the new DHU create another one at the same path, but the handle keeps the old file, and the
  rescan only compares paths.  So at every turn, as long as the new log is shorter than the old one was,
  the \<^emph>\<open>whole old log\<close> is yielded again, afterwards nothing, and no line of the new log ever.
\<close>

theorem replaced_log_is_not_followed:
  assumes "h_pos h = length old"
    and "\<forall>t \<in> set ts. content (turn_world t) (h_inode h) = old \<and> file_at (turn_world t) (h_path h) = Some new \<and>
      turn_record t = Some r"
    and "inst_log_path r = Some (h_path h)" "h_path h \<noteq> []"
  shows "\<exists>out l. tail_turns service_log (Some {''dhu''}) ts ([(''dhu'', h)], last_rescan) = (out, Some ([(''dhu'', h)], l)) \<and>
    yielded ''dhu'' out = concat (map (\<lambda>t.
      if length (content (turn_world t) new) < length old then entries_of ''dhu'' (text_lines old) else []) ts)"
  using assms(2)
proof (induction ts arbitrary: last_rescan)
  case (Cons t ts)
  let ?w = "turn_world t"
  let ?es = "if length (content ?w new) < length old then entries_of ''dhu'' (text_lines old) else []"
  have t: "content ?w (h_inode h) = old" "file_at ?w (h_path h) = Some new" "turn_record t = Some r" using Cons.prems by simp_all
  have pass: "tail_pass ?w [(''dhu'', h)] = (?es, [(''dhu'', h)])"
    using follow_replaced [OF assms(1) t(1,2)] by simp
  have "rescan ?w (Some {''dhu''}) (available service_log ?w r) [(''dhu'', h)] = [(''dhu'', h)]"
    using assms(3,4) t(2) by (intro rescan_same) (auto simp: available_def get_sources_def wanted_def split: option.splits)
  with pass t(3) obtain l where "tail_turn service_log (Some {''dhu''}) t ([(''dhu'', h)], last_rescan) =
      (if ?es = [] then [None] else map Some ?es, Some ([(''dhu'', h)], l))"
    by (cases "source_rescan_interval \<le> turn_now t - last_rescan") (auto simp: tail_turn_def Let_def)
  moreover obtain out l' where
    "tail_turns service_log (Some {''dhu''}) ts ([(''dhu'', h)], l) = (out, Some ([(''dhu'', h)], l'))"
    "yielded ''dhu'' out = concat (map (\<lambda>t. if length (content (turn_world t) new) < length old
       then entries_of ''dhu'' (text_lines old) else []) ts)"
    using Cons.IH [of l] Cons.prems by auto
  moreover have "filter (\<lambda>e. entry_source e = ''dhu'') ?es = ?es"
    by (auto intro!: filter_True dest: source_of_entries)
  ultimately show ?case by (auto simp: yielded_append yielded_Some)
qed (simp add: yielded_def)

theorem replaced_log_is_not_followed_witness:
  "\<exists>out l. tail_turns None (Some {''dhu''})
      [sample_turn 2 (\<lambda>i. if i = 1 then sample_log else []) 1, sample_turn 2 (\<lambda>i. if i = 1 then sample_log else ''> new line'' @ [newline]) 9]
      ([(''dhu'', \<lparr>h_path = ''/tmp/dhu_phone.log'', h_inode = 1, h_pos = 10\<rparr>)], 0) =
      (out, Some ([(''dhu'', \<lparr>h_path = ''/tmp/dhu_phone.log'', h_inode = 1, h_pos = 10\<rparr>)], l)) \<and>
    yielded ''dhu'' out = [\<lparr>entry_source = ''dhu'', entry_text = ''hi''\<rparr>, \<lparr>entry_source = ''dhu'', entry_text = ''> x''\<rparr>]"
  using replaced_log_is_not_followed [where h = "\<lparr>h_path = ''/tmp/dhu_phone.log'', h_inode = 1, h_pos = 10\<rparr>"
      and old = sample_log and new = 2 and r = sample_record and service_log = None and last_rescan = 0
      and ts = "[sample_turn 2 (\<lambda>i. if i = 1 then sample_log else []) 1, sample_turn 2 (\<lambda>i. if i = 1 then sample_log else ''> new line'' @ [newline]) 9]"]
  by (simp add: sample_log_lines sample_record_def new_record_def del: tail_turns.simps)

end
