(* ===== verification/Service_Names.thy ===== *)
theory Service_Names
  imports Sample_Os
begin

text \<open>
  Which names the store of a manager holds: only those a \<open>CreateInstance\<close> asked for and the pattern for
  names accepted, each over a record of that name.  What reads the store, such as the dashboard, may rely on it.
\<close>

definition well_named :: "instance_store \<Rightarrow> bool" where
  "well_named st \<longleftrightarrow> wf_dict st \<and> list_all (\<lambda>(k, r). inst_name r = k \<and> safe_name k) st"

lemma manager_well_named:
  assumes "manager_ok s" "\<forall>k \<in> set (keys (instances s)). safe_name k"
  shows "well_named (instances s)"
proof -
  have "inst_name r = k \<and> safe_name k" if "(k, r) \<in> set (instances s)" for k r
  proof -
    from assms(1) that have "dict_get (instances s) k = Some r" by (simp add: manager_ok_def dict_get_iff)
    with assms(1) have "inst_name r = k" by (auto simp: manager_ok_def record_ok_def)
    moreover have "k \<in> set (keys (instances s))" using that by force
    ultimately show ?thesis using assms(2) by blast
  qed
  with assms(1) show ?thesis by (auto simp: well_named_def list_all_iff manager_ok_def)
qed

lemma rpc_names:
  assumes "kill_raises_os_error os" "manager_ok s" "rpc os req s = Some (a, s')" "k \<in> set (keys (instances s'))"
  shows "k \<in> set (keys (instances s)) \<or> safe_name k \<and> (\<exists>avd snapshot head. req = CreateReq k avd snapshot head)"
proof (cases req)
  case (CreateReq name avd snapshot head)
  show ?thesis
  proof (cases "create_refusal s name avd snapshot")
    case None
    then have "safe_name name" by (auto simp: create_refusal_def Let_def split: if_splits)
    with create_admitted [OF assms(1,2) None, of head a s'] assms(3,4) CreateReq show ?thesis
      by (auto simp: added_def same_manager_def)
  next
    case (Some cd)
    obtain c d where cd: "cd = (c, d)" by (cases cd)
    from assms(3) have "s' = s\<lparr>rpc_status := Some (c, d)\<rparr>"
      by (simp add: rpc_def CreateReq CreateInstance_steps refusal_status Some cd)
    with assms(4) show ?thesis by simp
  qed
next
  case (DestroyReq name)
  show ?thesis
  proof (cases "dict_get (instances s) name")
    case None
    with missing_refused [of name s os] assms(3,4) DestroyReq show ?thesis
      by (simp add: dict_get_None_iff del: set_map)
  next
    case (Some r)
    from DestroyInstance_effect [OF assms(2) Some assms(3) [unfolded DestroyReq]] obtain new i where
      "s' = s\<lparr>instances := dict_pop name (instances s), tracked := dict_pop name (tracked s),
       ports := (ports s)\<lparr>used_slots := used_slots (ports s) - {i}\<rparr>, rpc_status := None, trace := new @ trace s\<rparr>"
      by metis
    with assms(4) show ?thesis by auto
  qed
qed (use assms keeps_handlers [of req os "(set (keys (instances s)), ports s)"] in
    \<open>auto simp: rpc_def keeps_def inv_on_def dest!: tripleD [where s = "s\<lparr>rpc_status := None\<rparr>"]
      split: option.splits simp del: set_map\<close>)

lemma step_names:
  assumes "kill_raises_os_error os" "manager_ok s" "step os ev s = Some (a, s')" "k \<in> set (keys (instances s'))"
  shows "k \<in> set (keys (instances s)) \<or> safe_name k \<and> (\<exists>avd snapshot head. ev = Request (CreateReq k avd snapshot head))"
proof (cases ev)
  case (Request req)
  with assms(3) obtain b where "rpc os req s = Some (b, s')" by (auto simp: step_def)
  from rpc_names [OF assms(1,2) this assms(4)] Request show ?thesis by blast
next
  case RefreshRound
  with assms(3) obtain r where run: "refresh_round os s = Some (r, s')" by (auto simp: step_def)
  have "inv_on (set (keys (instances s)), ports s) s" using assms(2) by (simp add: inv_on_def)
  from tripleD [OF refresh_keeps [unfolded keeps_def] this run] assms(4) show ?thesis by (simp add: inv_on_def)
qed

lemma steps_names:
  assumes "steady_clock os" "kill_raises_os_error os" "manager_ok s" "steps os evs s = Some (as, s')" "k \<in> set (keys (instances s'))"
  shows "k \<in> set (keys (instances s)) \<or>
    safe_name k \<and> (\<exists>avd snapshot head. Request (CreateReq k avd snapshot head) \<in> set evs)"
  using assms(3,4)
proof (induction evs arbitrary: s as)
  case Nil
  with assms(5) show ?case by simp
next
  case (Cons ev evs)
  from step_ok [OF assms(1,2) Cons.prems(1), of ev] obtain a s1 where a: "step os ev s = Some (a, s1)" "manager_ok s1" by blast
  with Cons.prems(2) obtain bs where "steps os evs s1 = Some (bs, s')" by (auto split: option.splits)
  from Cons.IH [OF a(2) this] consider "k \<in> set (keys (instances s1))"
    | "safe_name k \<and> (\<exists>avd snapshot head. Request (CreateReq k avd snapshot head) \<in> set evs)" by blast
  then show ?case
  proof cases
    case 1
    from step_names [OF assms(2) Cons.prems(1) a(1) this] show ?thesis by (metis list.set_intros(1))
  next
    case 2
    then show ?thesis by auto
  qed
qed

text \<open>So the store of a manager that has only served requests, from its start on, is well named.\<close>

lemma served_well_named:
  assumes "steady_clock os" "kill_raises_os_error os" "steps os evs (create_manager n) = Some (as, s)"
  shows "well_named (instances s)"
proof (rule manager_well_named)
  from steps_ok [OF assms(1,2) fresh_manager_ok, of evs n] assms(3) show "manager_ok s" by auto
  show "\<forall>k \<in> set (keys (instances s)). safe_name k"
    using steps_names [OF assms(1,2) fresh_manager_ok assms(3)] by (auto simp: create_manager_def)
qed

end
