(* ===== verification/Web_Server.thy ===== *)
theory Web_Server
  imports Log_Collector Service_Names Json
begin

text \<open>
  \<^verbatim>\<open>instance_manager/src/web_server.py\<close>: the dashboard of the instance manager.  A request
  is the path of its target, parsed, and the parsed query; an answer is the status or the body.  The stream
  of a log page is what \<open>Log_Collector.tail_log\<close> yields, written as server-sent events.
\<close>

section \<open>Names, colours, escaping\<close>

definition state_names :: "(int, string) dict" where
  "state_names = [(0, ''UNSPECIFIED''), (1, ''CREATING''), (2, ''RUNNING''), (3, ''ERROR''), (4, ''DESTROYING'')]"

definition state_colors :: "(int, string) dict" where
  "state_colors = [(1, ''#f0ad4e''), (2, ''#5cb85c''), (3, ''#d9534f''), (4, ''#999'')]"

definition get_or :: "('k, 'v) dict \<Rightarrow> 'k \<Rightarrow> 'v \<Rightarrow> 'v" where
  "get_or d k v = (case dict_get d k of Some x \<Rightarrow> x | None \<Rightarrow> v)"

text \<open>\<open>html.escape\<close>\<close>

definition escape_char :: "char \<Rightarrow> string" where
  "escape_char c =
     (if c = CHR ''&'' then ''&amp;''
      else if c = CHR ''<'' then ''&lt;''
      else if c = CHR ''>'' then ''&gt;''
      else if c = CHR 0x22 then ''&quot;''
      else if c = CHR 0x27 then ''&#x27;''
      else [c])"

definition html_escape :: "string \<Rightarrow> string" where
  "html_escape s = concat (map escape_char s)"

section \<open>Routes\<close>

text \<open>
  The four patterns: a fixed beginning, a name, taken greedily, and an end, at which \<open>$\<close> also matches
  before a final newline.
\<close>

definition match_name :: "string \<Rightarrow> string \<Rightarrow> (string \<times> string) option" where
  "match_name start s =
     (let rest = drop (length start) s; name = takeWhile is_name_char rest
      in if take (length start) s = start \<and> name \<noteq> [] \<and> is_alnum (hd name)
         then Some (name, drop (length name) rest) else None)"

definition ends :: "string \<Rightarrow> string \<Rightarrow> bool" where
  "ends ending s \<longleftrightarrow> s = ending \<or> s = ending @ [newline]"

definition instance_screenshot_re :: "string \<Rightarrow> (string \<times> string) option" where
  "instance_screenshot_re path =
     (case match_name ''/instances/'' path of
        None \<Rightarrow> None
      | Some (name, rest) \<Rightarrow>
          if ends ''/dhu-screenshot'' rest then Some (name, ''dhu-screenshot'')
          else if ends ''/emu-screenshot'' rest then Some (name, ''emu-screenshot'') else None)"

definition named_re :: "string \<Rightarrow> string \<Rightarrow> string \<Rightarrow> string option" where
  "named_re start ending path =
     (case match_name start path of
        None \<Rightarrow> None
      | Some (name, rest) \<Rightarrow> if ends ending rest then Some name else None)"

definition api_logs_re :: "string \<Rightarrow> string option" where "api_logs_re = named_re ''/api/logs/'' []"
definition logs_stream_re :: "string \<Rightarrow> string option" where "logs_stream_re = named_re ''/logs/'' ''/stream''"
definition logs_page_re :: "string \<Rightarrow> string option" where "logs_page_re = named_re ''/logs/'' []"

datatype route =
    Dashboard
  | Screenshot string string
  | ApiInstances
  | ApiLogs string
  | LogStream string
  | LogPage string
  | NoRoute

definition route_of :: "string \<Rightarrow> route" where
  "route_of path =
     (if path = ''/'' then Dashboard
      else case instance_screenshot_re path of
        Some (name, kind) \<Rightarrow> Screenshot name (if kind = ''emu-screenshot'' then ''emu'' else ''dhu'')
      | None \<Rightarrow>
      if path = ''/api/instances'' then ApiInstances
      else case api_logs_re path of
        Some name \<Rightarrow> ApiLogs name
      | None \<Rightarrow>
      case logs_stream_re path of
        Some name \<Rightarrow> LogStream name
      | None \<Rightarrow>
      case logs_page_re path of
        Some name \<Rightarrow> LogPage name
      | None \<Rightarrow> NoRoute)"

section \<open>The dashboard\<close>

definition uptime :: "int \<Rightarrow> string" where
  "uptime elapsed_s = show_int (elapsed_s div 3600) @ ''h '' @ show_int ((elapsed_s mod 3600) div 60) @ ''m '' @
     show_int (elapsed_s mod 60) @ ''s''"

definition shot_link :: "bytes option \<Rightarrow> string \<Rightarrow> string \<Rightarrow> string \<Rightarrow> string \<Rightarrow> string" where
  "shot_link png name target width alt =
     (if png = None \<or> png = Some [] then []
      else ''<a href=\"/instances/'' @ name @ ''/'' @ target @ ''\">'' @
           ''<img src=\"/instances/'' @ name @ ''/'' @ target @ ''\" '' @
           ''width=\"'' @ width @ ''\" alt=\"'' @ alt @ ''\"></a>'')"

definition dashboard_row :: "int \<Rightarrow> instance_record \<Rightarrow> string" where
  "dashboard_row now_ms inst =
     (let state_name = get_or state_names (inst_state inst) ''UNKNOWN'';
          color = get_or state_colors (inst_state inst) ''#999'';
          safe_name = html_escape (inst_name inst);
          safe_avd = html_escape (avd_name inst);
          elapsed_s = (now_ms - created_at_ms inst) div 1000
      in ''<tr>'' @
         ''<td>'' @ safe_name @ ''</td>'' @
         ''<td style=\"color:'' @ color @ '';font-weight:bold\">'' @ state_name @ ''</td>'' @
         ''<td>'' @ show_int (emulator_console_port inst) @ ''</td>'' @
         ''<td>'' @ show_int (adb_port inst) @ ''</td>'' @
         ''<td>'' @ show_int (aa_forward_port inst) @ ''</td>'' @
         ''<td>'' @ uptime elapsed_s @ ''</td>'' @
         ''<td>'' @ (if headful inst then ''yes'' else ''no'') @ ''</td>'' @
         ''<td>'' @ safe_avd @ ''</td>'' @
         ''<td>'' @ shot_link (last_screenshot_png inst) safe_name ''dhu-screenshot'' ''160'' ''DHU'' @ ''</td>'' @
         ''<td>'' @ shot_link (last_emulator_screenshot_png inst) safe_name ''emu-screenshot'' ''90'' ''Phone'' @ ''</td>'' @
         ''<td><a href=\"/logs/'' @ safe_name @ ''\">logs</a></td>'' @
         ''</tr>'' @ [newline])"

definition page_head :: string where
  "page_head = ''<!DOCTYPE html><html><head>'' @
     ''<meta charset=\"utf-8\">'' @
     ''<meta http-equiv=\"refresh\" content=\"5\">'' @
     ''<title>VanPilot Instance Manager</title>'' @
     ''<style>body{font-family:monospace;margin:20px}'' @
     ''table{border-collapse:collapse;width:100%}'' @
     ''th,td{border:1px solid #ddd;padding:8px;text-align:left}'' @
     ''th{background:#333;color:#fff}'' @
     ''a{color:#4fc3f7}</style>'' @
     ''</head><body>'' @
     ''<h1>VanPilot Instance Manager</h1>'' @
     ''<table><tr><th>Name</th><th>State</th>'' @
     ''<th>Console</th><th>ADB</th><th>AA Fwd</th>'' @
     ''<th>Uptime</th><th>Headful</th><th>AVD</th>'' @
     ''<th>DHU</th><th>Phone</th><th>Logs</th></tr>''"

definition dashboard_page :: "int \<Rightarrow> instance_record list \<Rightarrow> string" where
  "dashboard_page now_ms insts = page_head @ concat (map (dashboard_row now_ms) insts) @ ''</table></body></html>''"

section \<open>The log page\<close>

text \<open>The template, with its holes filled.\<close>

definition log_viewer_lines :: "string \<Rightarrow> string list" where
  "log_viewer_lines name =
    [''<!DOCTYPE html><html><head>'',
     ''<meta charset=\"utf-8\">'',
     ''<title>Logs: '' @ name @ ''</title>'',
     ''<style>'',
     ''body{font-family:monospace;margin:20px;background:#1e1e1e;color:#d4d4d4}'',
     ''h1{color:#fff}'',
     ''a{color:#4fc3f7}'',
     ''.controls{margin:10px 0}'',
     ''.controls label{margin-right:15px;color:#ccc;cursor:pointer}'',
     ''#log-output{background:#0d0d0d;border:1px solid #333;padding:10px;'',
     ''  height:70vh;overflow-y:auto;white-space:pre-wrap;word-wrap:break-word}'',
     ''.source-dhu{color:#4ec9b0}'',
     ''.source-emulator{color:#ce9178}'',
     ''.source-service{color:#569cd6}'',
     ''</style></head><body>'',
     ''<h1><a href=\"/\">&larr;</a> Logs: '' @ name @ ''</h1>'',
     ''<div class=\"controls\">'',
     ''<label><input type=\"checkbox\" class=\"src-filter\" data-src=\"dhu\" checked> DHU</label>'',
     ''<label><input type=\"checkbox\" class=\"src-filter\" data-src=\"emulator\" checked> Emulator</label>'',
     ''<label><input type=\"checkbox\" class=\"src-filter\" data-src=\"service\" checked> Service</label>'',
     ''<label><input type=\"checkbox\" id=\"auto-scroll\" checked> Auto-scroll</label>'',
     ''</div>'',
     ''<div id=\"log-output\"></div>'',
     ''<script>'',
     ''var output=document.getElementById('log-output');'',
     ''var autoScroll=document.getElementById('auto-scroll');'',
     ''var filters=document.querySelectorAll('.src-filter');'',
     ''function appendEntry(e){'',
     ''  var d=document.createElement('div');'',
     ''  d.className='log-line source-'+e.source;'',
     ''  d.dataset.source=e.source;'',
     ''  d.textContent='['+e.source.toUpperCase()+'] '+e.text;'',
     ''  output.appendChild(d);'',
     ''  applyFilter(d);'',
     ''  if(autoScroll.checked) output.scrollTop=output.scrollHeight;'',
     ''}'',
     ''function applyFilter(el){'',
     ''  var src=el.dataset.source;'',
     ''  var cb=document.querySelector('.src-filter[data-src=\"'+src+'\"]');'',
     ''  el.style.display=(!cb||cb.checked)?'' @ [CHR 0x27, CHR 0x27] @ '':'none';'',
     ''}'',
     ''fetch('/api/logs/'' @ name @ [CHR 0x27] @ '')'',
     ''  .then(function(r){return r.json()})'',
     ''  .then(function(entries){'',
     ''    entries.forEach(appendEntry);'',
     ''    output.scrollTop=output.scrollHeight;'',
     ''  });'',
     ''var evtSource=new EventSource('/logs/'' @ name @ ''/stream');'',
     ''evtSource.onmessage=function(event){appendEntry(JSON.parse(event.data))};'',
     ''filters.forEach(function(cb){'',
     ''  cb.addEventListener('change',function(){'',
     ''    document.querySelectorAll('.log-line').forEach(applyFilter);'',
     ''  });'',
     ''});'',
     ''</script></body></html>'']"

definition log_viewer_html :: "string \<Rightarrow> string" where
  "log_viewer_html name = concat (map (\<lambda>l. l @ [newline]) (log_viewer_lines name))"

section \<open>Requests\<close>

text \<open>\<open>s.split(sep)\<close> for a one-character separator.\<close>

fun split_char :: "char \<Rightarrow> string \<Rightarrow> string list" where
  "split_char sep [] = [[]]"
| "split_char sep (c # s) =
     (if c = sep then [] # split_char sep s
      else case split_char sep s of [] \<Rightarrow> [[c]] | w # ws \<Rightarrow> (c # w) # ws)"

type_synonym params = "(string, string list) dict"

definition source_filter :: "params \<Rightarrow> string set option" where
  "source_filter params =
     (case dict_get params ''sources'' of Some (v # _) \<Rightarrow> Some (set (split_char (CHR '','') v)) | _ \<Rightarrow> None)"

text \<open>
  What a handler sees: the store and the log collector (its service log) it is bound to, the files, the time.
  Without a collector it makes one without a service log.
\<close>

record site =
  site_store :: "instance_store option"
  site_collector :: "string option option"
  site_exists :: "string \<Rightarrow> bool"
  site_read :: "string \<Rightarrow> string result"
  site_time :: seconds

datatype http =
    SendError nat
  | Html string
  | Json_body json
  | Png_image bytes
  | Events string "string set option"

definition stored :: "site \<Rightarrow> instance_record list" where
  "stored w = (case site_store w of None \<Rightarrow> [] | Some st \<Rightarrow> list_all_records st)"

definition service_log_of :: "site \<Rightarrow> string option" where
  "service_log_of w = (case site_collector w of None \<Rightarrow> None | Some p \<Rightarrow> p)"

text \<open>\<open>if not self.store\<close>, \<open>record = self.store.get(name)\<close>, \<open>if record is None\<close>\<close>

definition with_record :: "site \<Rightarrow> string \<Rightarrow> (instance_record \<Rightarrow> http result) \<Rightarrow> http result" where
  "with_record w name f =
     (case site_store w of
        None \<Rightarrow> Inr (SendError 404)
      | Some st \<Rightarrow> (case store_get st name of None \<Rightarrow> Inr (SendError 404) | Some r \<Rightarrow> f r))"

definition serve_dashboard :: "site \<Rightarrow> http result" where
  "serve_dashboard w = Inr (Html (dashboard_page (to_ms (site_time w)) (stored w)))"

definition serve_screenshot :: "site \<Rightarrow> string \<Rightarrow> string \<Rightarrow> http result" where
  "serve_screenshot w name kind = with_record w name (\<lambda>r.
     case (if kind = ''emu'' then last_emulator_screenshot_png r else last_screenshot_png r) of
       None \<Rightarrow> Inr (SendError 404)
     | Some png \<Rightarrow> if png = [] then Inr (SendError 404) else Inr (Png_image png))"

definition instance_json :: "instance_record \<Rightarrow> json" where
  "instance_json inst = JObj
     [(''name'', JStr (inst_name inst)),
      (''state'', JStr (get_or state_names (inst_state inst) ''UNKNOWN'')),
      (''emulator_console_port'', JInt (emulator_console_port inst)),
      (''adb_port'', JInt (adb_port inst)),
      (''aa_forward_port'', JInt (aa_forward_port inst)),
      (''headful'', JBool (headful inst)),
      (''avd_name'', JStr (avd_name inst)),
      (''created_at_ms'', JInt (created_at_ms inst))]"

definition serve_api_instances :: "site \<Rightarrow> http result" where
  "serve_api_instances w = Inr (Json_body (JList (map instance_json (stored w))))"

definition entry_json :: "log_entry \<Rightarrow> json" where
  "entry_json e = JObj [(''source'', JStr (entry_source e)), (''text'', JStr (entry_text e))]"

definition max_lines_per_source :: nat where
  "max_lines_per_source = 200"

definition serve_api_logs :: "site \<Rightarrow> string \<Rightarrow> params \<Rightarrow> http result" where
  "serve_api_logs w name params = with_record w name (\<lambda>r.
     case read_recent (site_exists w) (site_read w) (service_log_of w) r max_lines_per_source (source_filter params) of
       Inl e \<Rightarrow> Inl e
     | Inr entries \<Rightarrow> Inr (Json_body (JList (map entry_json entries))))"

definition serve_log_stream :: "site \<Rightarrow> string \<Rightarrow> params \<Rightarrow> http result" where
  "serve_log_stream w name params = with_record w name (\<lambda>r. Inr (Events name (source_filter params)))"

definition serve_log_viewer :: "site \<Rightarrow> string \<Rightarrow> http result" where
  "serve_log_viewer w name = with_record w name (\<lambda>r. Inr (Html (log_viewer_html (html_escape name))))"

definition do_GET :: "site \<Rightarrow> string \<Rightarrow> params \<Rightarrow> http result" where
  "do_GET w path query =
     (case route_of path of
        Dashboard \<Rightarrow> serve_dashboard w
      | Screenshot name kind \<Rightarrow> serve_screenshot w name kind
      | ApiInstances \<Rightarrow> serve_api_instances w
      | ApiLogs name \<Rightarrow> serve_api_logs w name query
      | LogStream name \<Rightarrow> serve_log_stream w name query
      | LogPage name \<Rightarrow> serve_log_viewer w name
      | NoRoute \<Rightarrow> Inr (SendError 404))"

section \<open>The event stream\<close>

definition sse_data :: "(rat \<Rightarrow> string) \<Rightarrow> log_entry \<Rightarrow> string" where
  "sse_data rf e = ''data: '' @ dumps rf (entry_json e) @ [newline, newline]"

definition keepalive :: string where
  "keepalive = '': keepalive'' @ [newline, newline]"

text \<open>
  The loop over \<open>tail\<close>: each item with the clock at its check and after its write; the \<open>i\<close>-th write
  fails with \<open>fails i\<close>.  The result is what has been written and the exception that leaves the handler.
\<close>

fun stream_events ::
  "(rat \<Rightarrow> string) \<Rightarrow> (nat \<Rightarrow> exn option) \<Rightarrow> (log_entry option \<times> seconds \<times> seconds) list \<Rightarrow> nat \<Rightarrow> seconds \<Rightarrow>
   string list \<times> exn option" where
  "stream_events rf fails [] i last_event = ([], None)"
| "stream_events rf fails ((entry, check, after) # rest) i last_event =
     (case (case entry of
          None \<Rightarrow> if check - last_event \<ge> 15 then Some keepalive else None
        | Some e \<Rightarrow> Some (sse_data rf e)) of
        None \<Rightarrow> stream_events rf fails rest i last_event
      | Some c \<Rightarrow> (case fails i of
            Some x \<Rightarrow> ([], if is_os_error x then None else Some x)
          | None \<Rightarrow> (case stream_events rf fails rest (Suc i) after of (cs, x) \<Rightarrow> (c # cs, x))))"

section \<open>Links\<close>

text \<open>
  The values that follow a mark in a page: up to the next quote \<open>q\<close>, within the line.
\<close>

fun values_after :: "char \<Rightarrow> string \<Rightarrow> string \<Rightarrow> string list" where
  "values_after q mark [] = []"
| "values_after q mark (c # s) =
     (if take (length mark) (c # s) = mark
      then [takeWhile (\<lambda>d. d \<noteq> q \<and> d \<noteq> newline) (drop (length mark) (c # s))] else []) @
     values_after q mark s"

lemma take_append_neq:
  assumes "q \<in> set mark" "q \<notin> set xs" "c \<notin> set mark"
  shows "take (length mark) (xs @ c # ys) \<noteq> mark"
proof
  assume m: "take (length mark) (xs @ c # ys) = mark"
  have "length mark \<le> length xs \<or> c \<in> set (take (length mark) (xs @ c # ys))"
    by (cases "length mark \<le> length xs") (auto simp: not_le take_Cons' )
  with m assms show False
    by (metis in_set_takeD take_append take_all append_Nil2 diff_is_0_eq take0)
qed

text \<open>Text that holds no quote has no value.\<close>

lemma values_skip:
  assumes "q \<in> set mark" "q \<notin> set xs" "c \<notin> set mark"
  shows "values_after q mark (xs @ c # ys) = values_after q mark (c # ys)"
  using assms(2)
proof (induction xs)
  case (Cons x xs)
  from take_append_neq [OF assms(1) Cons.prems assms(3), of ys] Cons show ?case by simp
qed simp

text \<open>A page can be searched line by line.\<close>

lemma take_line:
  assumes "newline \<notin> set mark"
  shows "take (length mark) (l @ newline # rest) = mark \<longleftrightarrow> take (length mark) l = mark"
proof (cases "length mark \<le> length l")
  case False
  then have "newline \<in> set (take (length mark) (l @ newline # rest))" by (auto simp: not_le take_Cons')
  moreover have "length (take (length mark) l) \<noteq> length mark" using False by simp
  ultimately show ?thesis using assms by metis
qed simp

lemma values_line:
  assumes "newline \<notin> set mark" "mark \<noteq> []"
  shows "values_after q mark (l @ newline # rest) = values_after q mark l @ values_after q mark rest"
proof (induction l)
  case Nil
  with take_line [OF assms(1), of "[]" rest] assms(2) show ?case by simp
next
  case (Cons x l)
  have "takeWhile (\<lambda>d. d \<noteq> q \<and> d \<noteq> newline) (drop (length mark) ((x # l) @ newline # rest)) =
      takeWhile (\<lambda>d. d \<noteq> q \<and> d \<noteq> newline) (drop (length mark) (x # l))" if "take (length mark) (x # l) = mark"
  proof -
    have "length mark \<le> length (x # l)" using arg_cong [OF that, of length] by simp
    then have "drop (length mark) ((x # l) @ newline # rest) = drop (length mark) (x # l) @ newline # rest"
      by (simp only: drop_append diff_is_0_eq' drop0)
    then show ?thesis by (simp only: takeWhile_tail simp_thms)
  qed
  with Cons take_line [OF assms(1), of "x # l" rest] show ?case by simp
qed

lemma values_lines:
  assumes "newline \<notin> set mark" "mark \<noteq> []"
  shows "values_after q mark (concat (map (\<lambda>l. l @ [newline]) ls)) = concat (map (values_after q mark) ls)"
  by (induction ls) (simp_all add: values_line [OF assms])

definition plain_name :: "string \<Rightarrow> bool" where
  "plain_name s \<longleftrightarrow> s \<noteq> [] \<and> is_alnum (hd s) \<and> list_all is_name_char s"

lemma plain_nameI: "safe_name s \<Longrightarrow> newline \<notin> set s \<Longrightarrow> plain_name s"
proof (cases s)
  case (Cons c cs)
  assume s: "safe_name s" "newline \<notin> set s"
  have "dropWhile is_name_char cs = []"
  proof (cases "dropWhile is_name_char cs")
    case inner: (Cons d rest)
    with s(1) Cons have "d = newline" by (simp add: safe_name_def)
    with inner s(2) Cons show ?thesis by (metis set_dropWhileD list.set_intros)
  qed
  with s(1) Cons show ?thesis by (simp add: safe_name_def plain_name_def list_all_iff is_name_char_def)
qed (simp add: safe_name_def)

lemma plain_chars:
  assumes "plain_name s"
  shows "CHR 0x22 \<notin> set s" "CHR 0x27 \<notin> set s" "newline \<notin> set s" "CHR ''/'' \<notin> set s"
proof -
  have "\<not> is_name_char (CHR 0x22)" "\<not> is_name_char (CHR 0x27)" "\<not> is_name_char newline" "\<not> is_name_char (CHR ''/'')"
    by (simp_all add: is_name_char_def is_alnum_def is_digit_def code_def)
  with assms show "CHR 0x22 \<notin> set s" "CHR 0x27 \<notin> set s" "newline \<notin> set s" "CHR ''/'' \<notin> set s"
    by (auto simp: plain_name_def list_all_iff)
qed

lemma escape_plain: "plain_name s \<Longrightarrow> html_escape s = s"
proof -
  have "is_name_char c \<Longrightarrow> escape_char c = [c]" for c
    by (auto simp: escape_char_def is_name_char_def is_alnum_def is_digit_def code_def)
  then have "list_all is_name_char s \<Longrightarrow> html_escape s = s" for s
    by (induction s) (simp_all add: html_escape_def)
  then show "plain_name s \<Longrightarrow> html_escape s = s" by (simp add: plain_name_def)
qed

lemma escape_quotes: "CHR 0x22 \<notin> set (html_escape s)" "CHR 0x27 \<notin> set (html_escape s)"
  by (auto simp: html_escape_def escape_char_def split: if_splits)

section \<open>Routes of names\<close>

lemma match_plain:
  assumes "plain_name name" "rest = [] \<or> \<not> is_name_char (hd rest)"
  shows "match_name start (start @ name @ rest) = Some (name, rest)"
proof -
  have "takeWhile is_name_char rest = []" using assms(2) by (cases rest) auto
  then show ?thesis
    using assms(1) by (simp add: match_name_def plain_name_def list_all_iff takeWhile_append2 Let_def)
qed

lemma not_name_slash [simp]: "\<not> is_name_char (CHR ''/'')"
  by (simp add: is_name_char_def is_alnum_def is_digit_def code_def)

lemma match_name_short: "take (length start) s \<noteq> start \<Longrightarrow> match_name start s = None"
  by (simp add: match_name_def Let_def)

lemmas route_defs = route_of_def instance_screenshot_re_def api_logs_re_def logs_stream_re_def logs_page_re_def named_re_def

lemma routes:
  assumes "plain_name name"
  shows "route_of (''/instances/'' @ name @ ''/dhu-screenshot'') = Screenshot name ''dhu''"
    and "route_of (''/instances/'' @ name @ ''/emu-screenshot'') = Screenshot name ''emu''"
    and "route_of (''/api/logs/'' @ name) = ApiLogs name"
    and "route_of (''/logs/'' @ name @ ''/stream'') = LogStream name"
    and "route_of (''/logs/'' @ name) = LogPage name"
  using match_plain [OF assms, of "''/dhu-screenshot''" "''/instances/''"]
    match_plain [OF assms, of "''/emu-screenshot''" "''/instances/''"]
    match_plain [OF assms, of "[]" "''/api/logs/''"]
    match_plain [OF assms, of "[]" "''/logs/''"]
    match_plain [OF assms, of "''/stream''" "''/logs/''"]
  by (simp_all add: route_defs match_name_short ends_def)

section \<open>The links of the dashboard\<close>

abbreviation hrefs :: "string \<Rightarrow> string list" where
  "hrefs \<equiv> values_after (CHR 0x22) ''href=\"''"

lemma hrefs_skip:
  "CHR 0x22 \<notin> set xs \<Longrightarrow> hrefs (xs @ CHR ''<'' # ys) = hrefs (CHR ''<'' # ys)"
  "CHR 0x22 \<notin> set xs \<Longrightarrow> hrefs (xs @ CHR '';'' # ys) = hrefs (CHR '';'' # ys)"
  "CHR 0x22 \<notin> set xs \<Longrightarrow> hrefs (xs @ CHR ''/'' # ys) = hrefs (CHR ''/'' # ys)"
  by (rule values_skip; simp)+

text \<open>Neither does the end of a value begin one, if the mark has a character before its quote that the value lacks.\<close>

lemma set_takeWhile_take: "set (takeWhile P (take n xs)) \<subseteq> set (takeWhile P xs)"
  by (induction xs arbitrary: n) (auto simp: take_Cons' split: if_splits)

lemma values_skip_quote:
  assumes "q \<notin> set xs" "e \<in> set m" "e \<notin> set xs" "e \<noteq> q" "q \<notin> set m"
  shows "values_after q (m @ [q]) (xs @ q # ys) = values_after q (m @ [q]) (q # ys)"
  using assms(1,3)
proof (induction xs)
  case (Cons x xs)
  have "take (length (m @ [q])) (x # xs @ q # ys) \<noteq> m @ [q]"
  proof
    assume t: "take (length (m @ [q])) (x # xs @ q # ys) = m @ [q]"
    have "m = takeWhile (\<lambda>c. c \<noteq> q) (take (length (m @ [q])) (x # xs @ q # ys))"
      unfolding t using assms(5) by (subst takeWhile_append2) auto
    then have "set m \<subseteq> set (takeWhile (\<lambda>c. c \<noteq> q) (x # xs @ q # ys))"
      using set_takeWhile_take by metis
    also have "takeWhile (\<lambda>c. c \<noteq> q) (x # xs @ q # ys) = x # xs"
      using Cons.prems by (auto simp: takeWhile_tail takeWhile_eq_all_conv)
    finally show False using assms(2) Cons.prems by auto
  qed
  with Cons show ?case by simp
qed simp

lemma hrefs_skip_quote: "CHR 0x22 \<notin> set xs \<Longrightarrow> CHR ''='' \<notin> set xs \<Longrightarrow> hrefs (xs @ CHR 0x22 # ys) = hrefs (CHR 0x22 # ys)"
  using values_skip_quote [of "CHR 0x22" xs "CHR ''=''" "''href=''" ys] by simp

lemma plain_no_equals: "plain_name s \<Longrightarrow> CHR ''='' \<notin> set s"
  by (auto simp: plain_name_def list_all_iff is_name_char_def is_alnum_def is_digit_def code_def)

lemma value_of_name:
  assumes "plain_name name"
  shows "takeWhile (\<lambda>d. d \<noteq> CHR 0x22 \<and> d \<noteq> newline) (name @ ys) = name @ takeWhile (\<lambda>d. d \<noteq> CHR 0x22 \<and> d \<noteq> newline) ys"
  using plain_chars [OF assms] by (subst takeWhile_append2) auto

text \<open>The links of the values of a record, and of the whole row.\<close>

lemma show_int_no_quote [simp]: "CHR 0x22 \<notin> set (show_int i)"
proof -
  have "\<not> is_digit (CHR 0x22)" by (simp add: is_digit_def code_def)
  then have "CHR 0x22 \<notin> set (show_nat n)" for n using show_nat_digits [of n] by auto
  then show ?thesis by (simp add: show_int_def)
qed

lemma hrefs_shot_link:
  assumes "plain_name name" "width = ''160'' \<and> alt = ''DHU'' \<or> width = ''90'' \<and> alt = ''Phone''"
    "target = ''dhu-screenshot'' \<or> target = ''emu-screenshot''"
  shows "hrefs (shot_link png name target width alt @ CHR ''<'' # rest) =
    (if png = None \<or> png = Some [] then [] else [''/instances/'' @ name @ ''/'' @ target]) @ hrefs (CHR ''<'' # rest)"
  using assms
  by (auto simp: shot_link_def hrefs_skip hrefs_skip_quote plain_chars plain_no_equals value_of_name)

lemma state_no_quote [simp]: "CHR 0x22 \<notin> set (get_or state_names i ''UNKNOWN'')" "CHR 0x22 \<notin> set (get_or state_colors i ''#999'')"
  by (simp_all add: get_or_def state_names_def state_colors_def)

lemma uptime_no_quote [simp]: "CHR 0x22 \<notin> set (uptime t)"
  by (simp add: uptime_def)

definition links_of :: "instance_record \<Rightarrow> string list" where
  "links_of r =
     (if last_screenshot_png r = None \<or> last_screenshot_png r = Some [] then []
      else [''/instances/'' @ inst_name r @ ''/dhu-screenshot'']) @
     (if last_emulator_screenshot_png r = None \<or> last_emulator_screenshot_png r = Some [] then []
      else [''/instances/'' @ inst_name r @ ''/emu-screenshot'']) @
     [''/logs/'' @ inst_name r]"

lemma hrefs_row:
  assumes "plain_name (inst_name r)"
  shows "hrefs (dashboard_row now r @ rest) = links_of r @ hrefs rest"
proof -
  let ?tail = "''</td><td><a href=\"/logs/'' @ inst_name r @ ''\">logs</a></td></tr>'' @ newline # rest"
  have "hrefs (dashboard_row now r @ rest) = hrefs (''<td>'' @ shot_link (last_screenshot_png r) (inst_name r) ''dhu-screenshot'' ''160'' ''DHU'' @
     ''</td><td>'' @ shot_link (last_emulator_screenshot_png r) (inst_name r) ''emu-screenshot'' ''90'' ''Phone'' @ ?tail)"
    unfolding dashboard_row_def Let_def
    by (simp add: escape_plain [OF assms] escape_quotes hrefs_skip plain_chars [OF assms] if_distrib [of "\<lambda>s. s @ _"])
  also have "\<dots> = links_of r @ hrefs rest"
    by (simp add: hrefs_shot_link [OF assms] hrefs_skip hrefs_skip_quote plain_chars [OF assms] plain_no_equals [OF assms]
      value_of_name [OF assms] links_of_def)
  finally show ?thesis .
qed

lemma hrefs_rows:
  assumes "\<forall>r \<in> set rs. plain_name (inst_name r)"
  shows "hrefs (concat (map (dashboard_row now) rs) @ rest) = concat (map links_of rs) @ hrefs rest"
  using assms by (induction rs) (simp_all add: hrefs_row)

lemma hrefs_page_head: "hrefs (page_head @ rest) = hrefs rest"
  unfolding page_head_def by simp

lemma dashboard_hrefs:
  assumes "\<forall>r \<in> set rs. plain_name (inst_name r)"
  shows "hrefs (dashboard_page now rs) = concat (map links_of rs)"
  using hrefs_rows [OF assms, of now "''</table></body></html>''"]
  by (simp add: dashboard_page_def hrefs_page_head)

text \<open>The records are stored under their names, which the patterns match, unless a name has a line break.\<close>

definition unbroken :: "instance_store \<Rightarrow> bool" where
  "unbroken st \<longleftrightarrow> (\<forall>k \<in> set (keys st). newline \<notin> set k)"

lemma well_namedD:
  assumes "well_named st" "unbroken st" "r \<in> set (list_all_records st)"
  shows "plain_name (inst_name r)" "store_get st (inst_name r) = Some r"
proof -
  from assms obtain k where k: "(k, r) \<in> set st" "wf_dict st" by (auto simp: well_named_def list_all_records_def)
  with assms(1,2) have "inst_name r = k" "safe_name k" "newline \<notin> set k"
    by (auto simp: well_named_def unbroken_def list_all_iff)
  with k show "plain_name (inst_name r)" "store_get st (inst_name r) = Some r"
    by (auto simp: store_get_def intro: plain_nameI)
qed

lemma do_GET_links:
  assumes "well_named st" "unbroken st" "site_store w = Some st" "r \<in> set (list_all_records st)"
  shows "map (\<lambda>l. do_GET w l q) (links_of r) =
     (case last_screenshot_png r of None \<Rightarrow> [] | Some png \<Rightarrow> if png = [] then [] else [Inr (Png_image png)]) @
     (case last_emulator_screenshot_png r of None \<Rightarrow> [] | Some png \<Rightarrow> if png = [] then [] else [Inr (Png_image png)]) @
     [Inr (Html (log_viewer_html (inst_name r)))]"
  using well_namedD [OF assms(1,2,4)] assms(3)
  by (auto simp: links_of_def do_GET_def routes [simplified] serve_screenshot_def serve_log_viewer_def with_record_def escape_plain
      split: option.split)

lemma match_name_chars: "match_name start s = Some (name, rest) \<Longrightarrow> newline \<notin> set name"
proof -
  assume "match_name start s = Some (name, rest)"
  then have "name = takeWhile is_name_char (drop (length start) s)" by (auto simp: match_name_def Let_def split: if_splits)
  moreover have "\<not> is_name_char newline" by (simp add: is_name_char_def is_alnum_def is_digit_def code_def)
  ultimately show ?thesis using set_takeWhileD by metis
qed

text \<open>The instance an address is about.\<close>

definition instance_at :: "string \<Rightarrow> string option" where
  "instance_at path = (case route_of path of
       Screenshot name _ \<Rightarrow> Some name | ApiLogs name \<Rightarrow> Some name | LogStream name \<Rightarrow> Some name | LogPage name \<Rightarrow> Some name
     | _ \<Rightarrow> None)"

lemma instance_at_unbroken: "instance_at path = Some name \<Longrightarrow> newline \<notin> set name"
  by (auto simp: instance_at_def route_defs dest!: match_name_chars split: if_splits option.splits prod.splits)

text \<open>
  C19. The dashboard works for the instances of a manager (their names are ones that \<open>CreateInstance\<close>
  accepts, by \<open>served_well_named\<close>), as long as no name ends in a line break: its page holds, for every instance and in the order of the
  store, links that the server itself resolves to that very instance, that is to its DHU screenshot and its
  phone screenshot where there is one (never to a link that is broken) and to its log page; and it holds no other
  links, whatever the AVDs are called.  The pattern for names also accepts one that ends in a line break; such
  an instance cannot be reached: the server takes no address at all for one about it, so there is neither a screenshot
  nor a log page of it.
\<close>

theorem dashboard_links_resolve:
  assumes "site_store w = Some st" "well_named st"
  shows "(unbroken st \<longrightarrow> (\<exists>page. do_GET w ''/'' q = Inr (Html page) \<and>
      map (\<lambda>link. do_GET w link q) (hrefs page) = concat (map (\<lambda>r.
        (case last_screenshot_png r of None \<Rightarrow> [] | Some png \<Rightarrow> if png = [] then [] else [Inr (Png_image png)]) @
        (case last_emulator_screenshot_png r of None \<Rightarrow> [] | Some png \<Rightarrow> if png = [] then [] else [Inr (Png_image png)]) @
        [Inr (Html (log_viewer_html (inst_name r)))]) (list_all_records st)))) \<and>
    (\<forall>name path. newline \<in> set name \<longrightarrow> instance_at path \<noteq> Some name)"
proof (intro conjI impI)
  assume unbroken: "unbroken st"
  let ?page = "dashboard_page (to_ms (site_time w)) (list_all_records st)"
  have "do_GET w ''/'' q = Inr (Html ?page)"
    using assms(1) by (simp add: do_GET_def route_of_def serve_dashboard_def stored_def)
  moreover have "hrefs ?page = concat (map links_of (list_all_records st))"
    using well_namedD [OF assms(2) unbroken] by (intro dashboard_hrefs) blast
  ultimately show "\<exists>page. do_GET w ''/'' q = Inr (Html page) \<and>
      map (\<lambda>link. do_GET w link q) (hrefs page) = concat (map (\<lambda>r.
        (case last_screenshot_png r of None \<Rightarrow> [] | Some png \<Rightarrow> if png = [] then [] else [Inr (Png_image png)]) @
        (case last_emulator_screenshot_png r of None \<Rightarrow> [] | Some png \<Rightarrow> if png = [] then [] else [Inr (Png_image png)]) @
        [Inr (Html (log_viewer_html (inst_name r)))]) (list_all_records st))"
    using do_GET_links [OF assms(2) unbroken assms(1)] by (auto simp: map_concat comp_def intro!: arg_cong [where f = concat] map_cong)
qed (use instance_at_unbroken in blast)

section \<open>The log page\<close>

lemma plain_no_paren: "plain_name s \<Longrightarrow> CHR ''('' \<notin> set s"
  by (auto simp: plain_name_def list_all_iff is_name_char_def is_alnum_def is_digit_def code_def)

lemma js_value_of_name:
  assumes "plain_name name"
  shows "takeWhile (\<lambda>d. d \<noteq> CHR 0x27 \<and> d \<noteq> newline) (name @ ys) = name @ takeWhile (\<lambda>d. d \<noteq> CHR 0x27 \<and> d \<noteq> newline) ys"
  using plain_chars [OF assms] by (subst takeWhile_append2) auto

text \<open>The addresses a page passes to a JavaScript function.\<close>

abbreviation addresses :: "string \<Rightarrow> string \<Rightarrow> string list" where
  "addresses f \<equiv> values_after (CHR 0x27) (f @ ''('' @ [CHR 0x27])"

lemma addresses_skip:
  assumes "plain_name name" "f = ''fetch'' \<or> f = ''EventSource''"
  shows "addresses f (name @ CHR ''<'' # ys) = addresses f (CHR ''<'' # ys)"
    "addresses f (name @ CHR ''/'' # ys) = addresses f (CHR ''/'' # ys)"
    "addresses f (name @ CHR 0x27 # ys) = addresses f (CHR 0x27 # ys)"
proof -
  have f: "CHR ''<'' \<notin> set (f @ ''('' @ [CHR 0x27])" "CHR ''/'' \<notin> set (f @ ''('' @ [CHR 0x27])" "CHR 0x27 \<notin> set (f @ ''('')"
    using assms(2) by auto
  show "addresses f (name @ CHR ''<'' # ys) = addresses f (CHR ''<'' # ys)"
    "addresses f (name @ CHR ''/'' # ys) = addresses f (CHR ''/'' # ys)"
    using f plain_chars [OF assms(1)] by (intro values_skip; simp)+
  show "addresses f (name @ CHR 0x27 # ys) = addresses f (CHR 0x27 # ys)"
    using f plain_chars [OF assms(1)] plain_no_paren [OF assms(1)]
      values_skip_quote [of "CHR 0x27" name "CHR ''(''" "f @ ''(''" ys] by simp
qed

lemma log_viewer_addresses:
  assumes "plain_name name"
  shows "addresses ''fetch'' (log_viewer_html name) = [''/api/logs/'' @ name]"
    and "addresses ''EventSource'' (log_viewer_html name) = [''/logs/'' @ name @ ''/stream'']"
proof -
  show "addresses ''fetch'' (log_viewer_html name) = [''/api/logs/'' @ name]"
    unfolding log_viewer_html_def
    by (subst values_lines, simp, simp)
      (simp add: log_viewer_lines_def js_value_of_name [OF assms] addresses_skip [OF assms, of "''fetch''", simplified])
  show "addresses ''EventSource'' (log_viewer_html name) = [''/logs/'' @ name @ ''/stream'']"
    unfolding log_viewer_html_def
    by (subst values_lines, simp, simp)
      (simp add: log_viewer_lines_def js_value_of_name [OF assms] addresses_skip [OF assms, of "''EventSource''", simplified])
qed

text \<open>
  A log page works: the page served for a stored instance fetches one address and listens to one other,
  and the server answers the first with the recent entries of that instance's logs, the second with the
  stream of its new ones.
\<close>

theorem log_page_resolves:
  assumes "site_store w = Some st" "well_named st" "unbroken st" "store_get st name = Some r"
  shows "\<exists>page. do_GET w (''/logs/'' @ name) q = Inr (Html page) \<and>
    map (\<lambda>a. do_GET w a q) (addresses ''fetch'' page) =
      [case read_recent (site_exists w) (site_read w) (service_log_of w) r 200 (source_filter q) of
         Inl e \<Rightarrow> Inl e
       | Inr entries \<Rightarrow> Inr (Json_body (JList (map entry_json entries)))] \<and>
    map (\<lambda>a. do_GET w a q) (addresses ''EventSource'' page) = [Inr (Events name (source_filter q))]"
proof -
  have "(name, r) \<in> set st" using assms(4) by (simp add: store_get_def dict_get_in)
  with assms(2) have "r \<in> set (list_all_records st)" "inst_name r = name"
    by (force simp: list_all_records_def, auto simp: well_named_def list_all_iff)
  with well_namedD [OF assms(2,3)] have name: "plain_name name" by blast
  then have "do_GET w (''/logs/'' @ name) q = Inr (Html (log_viewer_html name))"
    using assms(1,4) by (simp add: do_GET_def routes [simplified] serve_log_viewer_def with_record_def escape_plain)
  with name assms(1,4) show ?thesis
    by (simp add: log_viewer_addresses [OF name, simplified] do_GET_def routes [simplified] serve_api_logs_def serve_log_stream_def with_record_def
        max_lines_per_source_def)
qed

section \<open>What a browser receives\<close>

text \<open>
  How an \<open>EventSource\<close> reads the lines of a stream: a line is a field and its value, less one leading
  blank; data is gathered until an empty line; comments have an empty field.
\<close>

fun received :: "string list \<Rightarrow> string list \<Rightarrow> string list" where
  "received data [] = []"
| "received data (l # ls) =
     (if l = [] then (if data = [] then received [] ls else join [newline] data # received [] ls)
      else case partition_at (CHR '':'') l of (field, _, val) \<Rightarrow>
        received (if field = ''data'' then data @ [if val \<noteq> [] \<and> hd val = CHR '' '' then tl val else val] else data) ls)"

lemma dumps_entry_one_line: "one_line (dumps rf (entry_json e))"
  by (simp add: entry_json_def dumps_string_one_line is_line_end_def code_def)

lemma text_lines_line: "newline \<notin> set l \<Longrightarrow> text_lines (l @ newline # rest) = l # text_lines rest"
proof -
  assume "newline \<notin> set l"
  then have "takeWhile (\<lambda>c. c \<noteq> newline) (l @ newline # rest) = l"
    by (simp add: takeWhile_tail takeWhile_eq_all_conv) auto
  then show ?thesis by (simp add: text_lines.simps [of "l @ newline # rest"])
qed

lemma receive_data:
  "received [] (text_lines (sse_data rf e @ rest)) = dumps rf (entry_json e) # received [] (text_lines rest)"
proof -
  have "newline \<notin> set (dumps rf (entry_json e))"
    using dumps_entry_one_line [of rf e] by (auto simp: one_line_def is_line_end_def code_def)
  then have "text_lines (sse_data rf e @ rest) = (''data: '' @ dumps rf (entry_json e)) # [] # text_lines rest"
    using text_lines_line [of "''data: '' @ dumps rf (entry_json e)" "newline # rest"] text_lines_line [of "[]" rest]
    by (simp add: sse_data_def)
  then show ?thesis by (simp add: partition_at_def)
qed

lemma receive_keepalive: "received [] (text_lines (keepalive @ rest)) = received [] (text_lines rest)"
  using text_lines_line [of "'': keepalive''" "newline # rest"] text_lines_line [of "[]" rest]
  by (simp add: keepalive_def partition_at_def)

definition sent_entries :: "log_entry option list \<Rightarrow> log_entry list" where
  "sent_entries out = concat (map (\<lambda>x. case x of None \<Rightarrow> [] | Some e \<Rightarrow> [e]) out)"

lemma receive_stream:
  "received [] (text_lines (concat (fst (stream_events rf (\<lambda>_. None) items i last_event)))) =
     map (\<lambda>e. dumps rf (entry_json e)) (sent_entries (map fst items))"
  by (induction rf "\<lambda>_::nat. None :: exn option" items i last_event rule: stream_events.induct)
    (auto simp: sent_entries_def receive_data receive_keepalive split: option.splits prod.splits)

text \<open>
  A browser on a log page sees every new line: while the logs grow by whole lines and the connection
  holds, the events it receives are the JSON of entries, one event each whatever characters the line has,
  and for every source these are exactly the entries of the lines appended to its file, in order.  The
  keep-alive comments sent into a silence are no events.
\<close>

theorem log_stream_delivers:
  assumes "sorted_wrt appends (map turn_world (t0 # ts))" "\<forall>t \<in> set (t0 # ts). turn_record t = Some r"
    and "map fst items = fst (tail_log service_log sources t0 ts)"
  shows "\<exists>entries.
    received [] (text_lines (concat (fst (stream_events rf (\<lambda>_. None) items 0 last_event)))) =
      map (\<lambda>e. dumps rf (entry_json e)) entries \<and>
    (\<forall>src. filter (\<lambda>e. entry_source e = src) entries =
      (case dict_get (available service_log (turn_world t0) r) src of
         None \<Rightarrow> []
       | Some path \<Rightarrow> appended (turn_world t0) (turn_world (last (t0 # ts))) sources (src, path)))"
proof -
  obtain out fin where "tail_log service_log sources t0 ts = (out, Some fin)"
    and "\<forall>src. yielded src out = (case dict_get (available service_log (turn_world t0) r) src of
         None \<Rightarrow> []
       | Some path \<Rightarrow> appended (turn_world t0) (turn_world (last (t0 # ts))) sources (src, path))"
    using tail_log_growth [OF assms(1,2)] by blast
  with assms(3) receive_stream [of rf items 0 last_event] show ?thesis
    by (intro exI [of _ "sent_entries out"]) (simp add: yielded_def sent_entries_def)
qed

section \<open>The sample instance in the dashboard\<close>

definition sample_site :: site where
  "sample_site = \<lparr>site_store = Some [(''phone'', sample_record\<lparr>last_screenshot_png := Some [137, 80]\<rparr>)],
     site_collector = None, site_exists = (\<lambda>p. False), site_read = (\<lambda>p. Inl OSError), site_time = 3600\<rparr>"

lemma sample_well_named: "well_named [(''phone'', sample_record\<lparr>last_screenshot_png := Some [137, 80]\<rparr>)]"
  by (simp add: well_named_def sample_record_def new_record_def safe_name_def is_name_char_def is_alnum_def is_digit_def code_def)

lemma sample_unbroken: "unbroken [(''phone'', r)]"
  by (simp add: unbroken_def)


theorem dashboard_links_resolve_witness:
  "\<exists>page. do_GET sample_site ''/'' [] = Inr (Html page) \<and>
    map (\<lambda>link. do_GET sample_site link []) (hrefs page) =
      [Inr (Png_image [137, 80]), Inr (Html (log_viewer_html ''phone''))]"
  using dashboard_links_resolve [OF _ sample_well_named, of sample_site "[]"] sample_unbroken
  by (simp add: sample_site_def list_all_records_def) (simp add: sample_record_def new_record_def)

theorem log_page_resolves_witness:
  "\<exists>page. do_GET sample_site ''/logs/phone'' [] = Inr (Html page) \<and>
    map (\<lambda>a. do_GET sample_site a []) (addresses ''fetch'' page) = [Inr (Json_body (JList []))] \<and>
    map (\<lambda>a. do_GET sample_site a []) (addresses ''EventSource'' page) = [Inr (Events ''phone'' None)]"
proof -
  let ?r = "sample_record\<lparr>last_screenshot_png := Some [137, 80]\<rparr>"
  have "read_recent (site_exists sample_site) (site_read sample_site) (service_log_of sample_site) ?r 200 (source_filter []) = Inr []"
    by (simp add: sample_site_def service_log_of_def read_recent_def get_sources_def sample_record_def new_record_def)
  moreover have "source_filter [] = None" by (simp add: source_filter_def)
  ultimately show ?thesis
    using log_page_resolves [OF _ sample_well_named sample_unbroken, where w = sample_site and name = "''phone''" and r = ?r and q = "[]"]
    by (simp add: store_get_def sample_site_def [THEN arg_cong [where f = site_store]])
qed

theorem log_stream_delivers_witness:
  "\<exists>entries.
    received [] (text_lines (concat (fst (stream_events (\<lambda>x. []) (\<lambda>_. None)
        (map (\<lambda>x. (x, 1, 1)) (fst (tail_log None None (sample_turn 1 (\<lambda>_. []) 0)
          [sample_turn 1 (\<lambda>_. ''> '' @ [newline]) 1, sample_turn 1 (\<lambda>_. sample_log) 6]))) 0 0)))) =
      map (\<lambda>e. dumps (\<lambda>x. []) (entry_json e)) entries \<and>
    filter (\<lambda>e. entry_source e = ''dhu'') entries =
      [\<lparr>entry_source = ''dhu'', entry_text = ''hi''\<rparr>, \<lparr>entry_source = ''dhu'', entry_text = ''> x''\<rparr>]"
proof -
  let ?t0 = "sample_turn 1 (\<lambda>_. []) 0"
  let ?ts = "[sample_turn 1 (\<lambda>_. ''> '' @ [newline]) 1, sample_turn 1 (\<lambda>_. sample_log) 6]"
  let ?items = "map (\<lambda>x. (x, 1, 1)) (fst (tail_log None None ?t0 ?ts))"
  have "sorted_wrt appends (map turn_world (?t0 # ?ts))"
    by (simp add: sample_appends sample_log_lines [simplified]) (simp add: whole_lines_def)
  moreover have "map fst ?items = fst (tail_log None None ?t0 ?ts)" by (simp add: comp_def)
  ultimately obtain entries where
    "received [] (text_lines (concat (fst (stream_events (\<lambda>x. []) (\<lambda>_. None) ?items 0 0)))) =
       map (\<lambda>e. dumps (\<lambda>x. []) (entry_json e)) entries"
    and "\<forall>src. filter (\<lambda>e. entry_source e = src) entries =
      (case dict_get (available None (turn_world ?t0) sample_record) src of
         None \<Rightarrow> [] | Some path \<Rightarrow> appended (turn_world ?t0) (turn_world (last (?t0 # ?ts))) None (src, path))"
    using log_stream_delivers [of ?t0 ?ts sample_record ?items None None "\<lambda>x. []" 0] by auto
  then show ?thesis
    by (intro exI [of _ entries]) (simp add: sample_available appended_def wanted_def sample_log_lines)
qed

end
