(* ===== verification/Golden_Capture.thy ===== *)
theory Golden_Capture
  imports Sample_Os "HOL-Library.Sublist"
begin

text \<open>
  Two scripts of the goldens that drive an emulator through adb, as programs of \<open>Sys\<close> that use nothing
  of the manager's state: \<^verbatim>\<open>goldens/capture_emulator.py\<close>, which takes a golden screenshot, and
  \<^verbatim>\<open>goldens/video_capture.py\<close>, which records the screen while a golden test runs.  What they
  print is left out.
\<close>

section \<open>Commands and devices\<close>

definition boot_deadline :: int where "boot_deadline = 300"
definition app_settle_time :: seconds where "app_settle_time = 10"
definition default_host :: string where "default_host = ''localhost''"
definition default_port :: int where "default_port = 5555"

definition run_cmd :: "string list \<Rightarrow> seconds \<Rightarrow> completed prog" where
  "run_cmd cmd timeout =
     bind (run_within (Some timeout) cmd) (\<lambda>r. if returncode r \<noteq> 0 then raise CalledProcessError else return r)"

text \<open>\<open>str.split()\<close>, with the current word reversed.\<close>

fun words_from :: "string \<Rightarrow> string \<Rightarrow> string list" where
  "words_from w [] = (if w = [] then [] else [rev w])"
| "words_from w (c # cs) =
     (if is_space c then (if w = [] then [] else [rev w]) @ words_from [] cs else words_from (c # w) cs)"

definition is_device_line :: "string list \<Rightarrow> bool" where
  "is_device_line parts \<longleftrightarrow>
     length parts \<ge> 2 \<and> prefix ''emulator-'' (parts ! 0) \<and> parts ! 1 = ''device''"

fun first_emulator :: "string list \<Rightarrow> string option" where
  "first_emulator [] = None"
| "first_emulator (line # rest) =
     (let parts = words_from [] line
      in if is_device_line parts then Some (parts ! 0) else first_emulator rest)"

definition find_native_emulator :: "seconds \<Rightarrow> string option prog" where
  "find_native_emulator timeout =
     catch (bind (run_cmd [''adb'', ''devices''] timeout) (\<lambda>r. return (first_emulator (splitlines (stdout r)))))
       (\<lambda>e. if e = CalledProcessError \<or> e = TimeoutExpired \<or> e = FileNotFoundError then return None else raise e)"

definition tcp_address :: "string option \<Rightarrow> int option \<Rightarrow> string" where
  "tcp_address host port =
     (case host of Some h \<Rightarrow> if h = [] then default_host else h | None \<Rightarrow> default_host) @ '':'' @
     show_int (case port of Some p \<Rightarrow> if p = 0 then default_port else p | None \<Rightarrow> default_port)"

text \<open>A serial found is not empty: it begins with \<open>emulator-\<close>.\<close>

definition resolve_device :: "string option \<Rightarrow> int option \<Rightarrow> bool \<Rightarrow> string prog" where
  "resolve_device host port native =
     bind (if native then find_native_emulator 10 else return None) (\<lambda>found. case found of
       Some serial \<Rightarrow> return serial
     | None \<Rightarrow>
        (let addr = tcp_address host port
         in andthen (run_cmd [''adb'', ''connect'', addr] 30) (return addr)))"

section \<open>Capturing a golden\<close>

definition getprop_cmd :: "string \<Rightarrow> string list" where
  "getprop_cmd serial = [''adb'', ''-s'', serial, ''shell'', ''getprop'', ''sys.boot_completed'']"

definition boot_poll :: "string \<Rightarrow> unit option prog" where
  "boot_poll serial =
     bind (catch (bind (run_cmd (getprop_cmd serial) 10) (\<lambda>r. return (strip (stdout r) = ''1'')))
         (\<lambda>e. if e = CalledProcessError \<or> e = TimeoutExpired then return False else raise e))
       (\<lambda>booted. if booted then return (Some ()) else andthen (sleep 5) (return None))"

definition wait_until_booted :: "string \<Rightarrow> int \<Rightarrow> unit prog" where
  "wait_until_booted serial timeout =
     bind (until_deadline (of_int timeout) (boot_poll serial)) (\<lambda>r. case r of
       Some _ \<Rightarrow> return ()
     | None \<Rightarrow> raise (TimeoutError (''Emulator did not boot within '' @ show_int timeout @ ''s'')))"

definition install_cmd :: "string \<Rightarrow> string \<Rightarrow> string list" where
  "install_cmd serial apk_path = [''adb'', ''-s'', serial, ''install'', ''-r'', apk_path]"

definition install_on :: "string \<Rightarrow> string \<Rightarrow> unit prog" where
  "install_on serial apk_path = andthen (run_cmd (install_cmd serial apk_path) 120) (return ())"

definition remote_path :: string where
  "remote_path = ''/sdcard/golden_screenshot.png''"

definition screencap_cmd :: "string \<Rightarrow> string list" where
  "screencap_cmd serial = [''adb'', ''-s'', serial, ''shell'', ''screencap'', ''-p'', remote_path]"

definition pull_cmd :: "string \<Rightarrow> string \<Rightarrow> string \<Rightarrow> string list" where
  "pull_cmd serial remote path = [''adb'', ''-s'', serial, ''pull'', remote, path]"

definition rm_cmd :: "string \<Rightarrow> string list" where
  "rm_cmd serial = [''adb'', ''-s'', serial, ''shell'', ''rm'', remote_path]"

definition capture_screencap :: "string \<Rightarrow> string \<Rightarrow> string prog" where
  "capture_screencap serial output_path =
     andthen (run_cmd (screencap_cmd serial) 60)
     (andthen (run_cmd (pull_cmd serial remote_path output_path) 60)
     (andthen (run_cmd (rm_cmd serial) 60)
     (andthen (getsize output_path) (return output_path))))"

definition launch_cmd :: "string \<Rightarrow> string list" where
  "launch_cmd serial =
     [''adb'', ''-s'', serial, ''shell'', ''am'', ''start'', ''-n'', ''com.vanpilot.auto/.VanPilotCarAppService'']"

definition launch_app :: "string \<Rightarrow> unit prog" where
  "launch_app serial = ignoring (\<lambda>e. e = CalledProcessError) (andthen (run_cmd (launch_cmd serial) 15) (return ()))"

definition capture_golden ::
  "string option \<Rightarrow> int option \<Rightarrow> bool \<Rightarrow> string option \<Rightarrow> string \<Rightarrow> string \<Rightarrow> string prog" where
  "capture_golden host port native apk_path output_dir name =
     andthen (makedirs output_dir)
     (let output_path = path_join output_dir (name @ ''.png'')
      in bind (resolve_device host port native) (\<lambda>serial.
      andthen (wait_until_booted serial boot_deadline)
      (andthen (case apk_path of
          Some apk \<Rightarrow> when_that (apk \<noteq> [])
            (andthen (install_on serial apk) (andthen (launch_app serial) (sleep app_settle_time)))
        | None \<Rightarrow> return ())
      (andthen (capture_screencap serial output_path) (return output_path)))))"

text \<open>\<open>main\<close>, its arguments parsed: the exit status.\<close>

definition capture_main ::
  "string \<Rightarrow> int \<Rightarrow> bool \<Rightarrow> string option \<Rightarrow> string \<Rightarrow> string \<Rightarrow> int prog" where
  "capture_main host port native apk_path output_dir name =
     catch (andthen (capture_golden (Some host) (Some port) native apk_path output_dir name) (return 0)) (\<lambda>_. return 1)"

section \<open>Recording a video\<close>

record video_config =
  enabled :: bool
  duration_seconds :: int
  video_dir :: "string option"
  adb_host :: string
  adb_port :: int
  adb_serial :: "string option"

text \<open>The arguments in turn; \<open>int\<close> of a text that is no number leaves the setting as it was.\<close>

fun scan_args :: "string list \<Rightarrow> bool \<times> int \<Rightarrow> bool \<times> int" where
  "scan_args [] (on, duration) = (on, duration)"
| "scan_args (arg # args) (on, duration) =
     scan_args args
       (if arg = ''--record-video'' then (True, duration)
        else if prefix ''--record-video-duration='' arg
        then (case parse_int (drop (length ''--record-video-duration='') arg) of
            Some n \<Rightarrow> (True, n)
          | None \<Rightarrow> (on, duration))
        else (on, duration))"

definition from_args :: "string list \<Rightarrow> video_config prog" where
  "from_args args =
     (case scan_args args (False, 5) of (on, duration) \<Rightarrow>
      bind (environ_get ''TEST_UNDECLARED_OUTPUTS_DIR'') (\<lambda>dir.
      return \<lparr>enabled = on, duration_seconds = duration, video_dir = dir,
        adb_host = ''localhost'', adb_port = 5555, adb_serial = None\<rparr>))"

text \<open>The object; the process is its pid.\<close>

record video_capture =
  video_config_of :: video_config
  video_process :: "int option"
  video_remote :: string
  recording :: bool

definition video_init :: "video_config \<Rightarrow> video_capture" where
  "video_init config = \<lparr>video_config_of = config, video_process = None, video_remote = [], recording = False\<rparr>"

definition adb_target :: "video_config \<Rightarrow> string" where
  "adb_target c =
     (case adb_serial c of
        Some serial \<Rightarrow> if serial = [] then adb_host c @ '':'' @ show_int (adb_port c) else serial
      | None \<Rightarrow> adb_host c @ '':'' @ show_int (adb_port c))"

definition remote_video_path :: string where
  "remote_video_path = ''/sdcard/golden_video.mp4''"

definition screenrecord_cmd :: "video_config \<Rightarrow> string list" where
  "screenrecord_cmd c =
     [''adb'', ''-s'', adb_target c, ''shell'', ''screenrecord'', ''--time-limit'', show_int (duration_seconds c),
      remote_video_path]"

text \<open>
  A method of the object is a program that gives its result or exception together with the object it
  leaves behind.
\<close>

type_synonym 'a video_method = "video_capture \<Rightarrow> ('a result \<times> video_capture) prog"

definition video_start :: "unit video_method" where
  "video_start v =
     (if \<not> enabled (video_config_of v) \<or> recording v then return (Inr (), v)
      else
        (let v = v\<lparr>video_remote := remote_video_path\<rparr>
         in bind (attempt (popen (screenrecord_cmd (video_config_of v)))) (\<lambda>r. case r of
              Inr pid \<Rightarrow> return (Inr (), v\<lparr>video_process := Some pid, recording := True\<rparr>)
            | Inl e \<Rightarrow>
                if e = FileNotFoundError then return (Inr (), v\<lparr>recording := False\<rparr>) else return (Inl e, v))))"

text \<open>The steps of \<open>stop\<close>: ending the process, the directory, pulling the file, removing it on the device.\<close>

definition end_recording :: "int \<Rightarrow> unit prog" where
  "end_recording pid =
     andthen (proc_interrupt pid)
     (catch (andthen (proc_wait pid 10) (return ()))
        (\<lambda>e. if e = TimeoutExpired then andthen (proc_kill pid) (andthen (proc_wait pid 5) (return ())) else raise e))"

definition make_video_dir :: "video_config \<Rightarrow> string prog" where
  "make_video_dir c =
     andthen (sleep 1)
     (bind (case video_dir c of
          Some dir \<Rightarrow> if dir = [] then mkdtemp ''vanpilot_video_'' else return dir
        | None \<Rightarrow> mkdtemp ''vanpilot_video_'') (\<lambda>dir.
      andthen (makedirs dir) (return dir)))"

definition pull_video :: "string \<Rightarrow> string \<Rightarrow> string \<Rightarrow> bool prog" where
  "pull_video target remote local_path =
     catch (andthen (run_cmd (pull_cmd target remote local_path) 30) (return True))
       (\<lambda>e. if e = CalledProcessError \<or> e = TimeoutExpired \<or> e = FileNotFoundError then return False else raise e)"

definition rm_video_cmd :: "string \<Rightarrow> string \<Rightarrow> string list" where
  "rm_video_cmd target remote = [''adb'', ''-s'', target, ''shell'', ''rm'', ''-f'', remote]"

definition remove_video :: "string \<Rightarrow> string \<Rightarrow> unit prog" where
  "remove_video target remote =
     ignoring (\<lambda>e. e = CalledProcessError \<or> e = TimeoutExpired \<or> is_os_error e)
       (andthen (run_within (Some 10) (rm_video_cmd target remote)) (return ()))"

definition fetch_video :: "string \<Rightarrow> string option video_method" where
  "fetch_video local_path v =
     (let target = adb_target (video_config_of v)
      in bind (attempt (pull_video target (video_remote v) local_path)) (\<lambda>pulled.
      bind (attempt (remove_video target (video_remote v))) (\<lambda>removed. case removed of
        Inl e \<Rightarrow> return (Inl e, v)
      | Inr _ \<Rightarrow>
          (let v = v\<lparr>video_process := None\<rparr>
           in case pulled of
             Inl e \<Rightarrow> return (Inl e, v)
           | Inr ok \<Rightarrow>
               if \<not> ok then return (Inr None, v)
               else bind (path_exists local_path) (\<lambda>there.
                 return (Inr (if there then Some local_path else None), v))))))"

definition video_stop :: "string \<Rightarrow> string option video_method" where
  "video_stop name v =
     (case video_process v of
        None \<Rightarrow> return (Inr None, v)
      | Some pid \<Rightarrow>
          if \<not> enabled (video_config_of v) \<or> \<not> recording v then return (Inr None, v)
          else bind (attempt (end_recording pid)) (\<lambda>ended. case ended of
            Inl e \<Rightarrow> return (Inl e, v)
          | Inr _ \<Rightarrow>
              (let v = v\<lparr>recording := False\<rparr>
               in bind (attempt (make_video_dir (video_config_of v))) (\<lambda>made. case made of
                 Inl e \<Rightarrow> return (Inl e, v)
               | Inr dir \<Rightarrow> fetch_video (path_join dir (name @ ''.mp4'')) v))))"

section \<open>What a captured golden rests on\<close>

text \<open>A call that was answered as the script wants it, and a part of a trace all of whose calls were.\<close>

fun succeeded :: "os \<Rightarrow> sys_call \<Rightarrow> sys_call list \<Rightarrow> bool" where
  "succeeded os (Ran argv t) h = (case run_of os h argv t of Inl _ \<Rightarrow> False | Inr c \<Rightarrow> returncode c = 0)"
| "succeeded os (AskedSize p) h = (case size_of os h p of Inl _ \<Rightarrow> False | Inr _ \<Rightarrow> True)"
| "succeeded os _ h = True"

fun all_succeeded :: "os \<Rightarrow> sys_call list \<Rightarrow> sys_call list \<Rightarrow> bool" where
  "all_succeeded os [] h = True"
| "all_succeeded os (c # cs) h = (succeeded os c (cs @ h) \<and> all_succeeded os cs h)"

text \<open>The serial is an emulator adb listed as a device, or the address adb has connected to.\<close>

definition device_found :: "os \<Rightarrow> bool \<Rightarrow> string \<Rightarrow> string \<Rightarrow> sys_call list \<Rightarrow> bool" where
  "device_found os native addr serial h \<longleftrightarrow>
     (\<exists>new old c. h = new @ Ran [''adb'', ''devices''] (Some 10) # old \<and> native \<and>
        run_of os old [''adb'', ''devices''] (Some 10) = Inr c \<and>
        first_emulator (splitlines (stdout c)) = Some serial) \<or>
     (\<exists>new old. h = new @ Ran [''adb'', ''connect'', addr] (Some 30) # old \<and> serial = addr \<and>
        succeeded os (Ran [''adb'', ''connect'', addr] (Some 30)) old)"

definition booted :: "os \<Rightarrow> string \<Rightarrow> sys_call list \<Rightarrow> bool" where
  "booted os serial h \<longleftrightarrow> (\<exists>c. run_of os h (getprop_cmd serial) (Some 10) = Inr c \<and> returncode c = 0 \<and> strip (stdout c) = ''1'')"

lemma run_cmd_ok [simp]:
  "run_cmd cmd t os s = Some (Inr c, s') \<longleftrightarrow>
     run_of os (trace s) cmd (Some t) = Inr c \<and> returncode c = 0 \<and> s' = s\<lparr>trace := Ran cmd (Some t) # trace s\<rparr>"
  by (auto simp: run_cmd_def bind_Some run_within_def ask_def return_def raise_def split: if_splits)

lemma quiet_golden [quiet_intros]:
  "quiet os (run_cmd cmd t)" "quiet os (find_native_emulator t)" "quiet os (boot_poll serial)"
  unfolding run_cmd_def find_native_emulator_def boot_poll_def by (intro quiet_intros)+

lemma term_golden [term_intros]:
  "terminates os (run_cmd cmd t)" "terminates os (find_native_emulator t)" "terminates os (boot_poll serial)"
  unfolding run_cmd_def find_native_emulator_def boot_poll_def by (intro term_intros)+

lemma slow_boot_poll: "steady_clock os \<Longrightarrow> slow os 5 (boot_poll serial)"
  unfolding boot_poll_def by (intro slow_bind slow_if slow_sleep slow_intros quiet_intros)

lemma term_wait_until_booted: "steady_clock os \<Longrightarrow> terminates os (wait_until_booted serial timeout)"
  unfolding wait_until_booted_def
  by (intro term_intros term_until_deadline [where d = 5] slow_boot_poll) simp_all

lemma term_capture_golden:
  "steady_clock os \<Longrightarrow> terminates os (capture_golden host port native apk dir name)"
  unfolding capture_golden_def resolve_device_def Let_def install_on_def launch_app_def capture_screencap_def
  by (intro term_intros term_wait_until_booted)

lemma until_deadline_Some:
  assumes run: "until_deadline timeout body os s = Some (Inr (Some v), s')" and quiet: "quiet os body"
  obtains s1 new where "body os s1 = Some (Inr (Some v), s')" "s1 = s\<lparr>trace := new @ trace s\<rparr>"
proof -
  let ?I = "\<lambda>s1. \<exists>new. s1 = s\<lparr>trace := new @ trace s\<rparr>"
  let ?t = "clock_of os (trace s) + timeout"
  from run have loop: "again (deadline_step ?t body) os (s\<lparr>trace := ReadClock # trace s\<rparr>) = Some (Inr (Some v), s')"
    by (simp add: until_deadline_def bind_run time_time_def ask_def)
  have start: "?I (s\<lparr>trace := ReadClock # trace s\<rparr>)" by (intro exI [of _ "[ReadClock]"]) simp
  have clock: "?I (s1\<lparr>trace := ReadClock # trace s1\<rparr>)" if "?I s1" for s1
    using that by (elim exE) (simp, metis append_Cons)
  have body: "?I s2" if "?I s1" "body os s1 = Some (q, s2)" for s1 q s2
    using that(1) quietD [OF quiet that(2)] by (elim exE) (auto simp: append_assoc [symmetric] simp del: append_assoc)
  define Q where "Q r t \<longleftrightarrow> (\<forall>w. r = Inr (Some w) \<longrightarrow> (\<exists>s1. body os s1 = Some (Inr (Some w), t) \<and> ?I s1))"
    for r :: "'a option result" and t
  have "Q (Inr (Some v)) s'"
  proof (rule again_Some [OF loop, where I = ?I and Q = Q])
    show "?I (s\<lparr>trace := ReadClock # trace s\<rparr>)" by (rule start)
  next
    fix s1 e s2
    show "Q (Inl e) s2" by (simp add: Q_def)
  next
    fix s1 w s2 assume I: "?I s1" and "deadline_step ?t body os s1 = Some (Inr (Some w), s2)"
    then have "w = None \<or> body os (s1\<lparr>trace := ReadClock # trace s1\<rparr>) = Some (Inr w, s2)"
      by (auto simp: deadline_step_def bind_Some time_time_def ask_def return_def split: if_splits option.splits)
    with clock [OF I] show "Q (Inr w) s2" unfolding Q_def by blast
  next
    fix s1 s2 assume I: "?I s1" and "deadline_step ?t body os s1 = Some (Inr None, s2)"
    then have "\<exists>q. body os (s1\<lparr>trace := ReadClock # trace s1\<rparr>) = Some (q, s2)"
      by (auto simp: deadline_step_def bind_Some time_time_def ask_def return_def split: if_splits option.splits)
    with body [OF clock [OF I]] show "?I s2" by blast
  qed
  then show thesis using that unfolding Q_def by blast
qed

lemma device_found_later: "device_found os native addr serial h \<Longrightarrow> device_found os native addr serial (new @ h)"
  unfolding device_found_def by (metis append_assoc)

lemma resolve_device_ok:
  assumes "resolve_device host port native os s = Some (Inr serial, s')"
  shows "device_found os native (tcp_address host port) serial (trace s')"
proof -
  have listed: "device_found os True addr serial (trace t)"
    if "find_native_emulator 10 os s = Some (Inr (Some serial), t)" for addr t
    using that unfolding find_native_emulator_def catch_Some bind_Some device_found_def
    by (fastforce simp: return_def raise_def split: if_splits)
  have connected: "device_found os native addr addr (trace t)"
    if "run_cmd [''adb'', ''connect'', addr] 30 os s1 = Some (Inr c, t)" for addr s1 c t
    using that unfolding device_found_def
    by (intro disjI2 exI [where x = "[]"] exI [where x = "trace s1"]) auto
  from assms obtain found t where
      find: "(if native then find_native_emulator 10 else return None) os s = Some (Inr found, t)"
    and rest: "(case found of Some serial \<Rightarrow> return serial
        | None \<Rightarrow> (let addr = tcp_address host port in andthen (run_cmd [''adb'', ''connect'', addr] 30) (return addr))) os t
      = Some (Inr serial, s')"
    unfolding resolve_device_def bind_Some by blast
  show ?thesis
  proof (cases found)
    case None
    with rest show ?thesis by (auto simp: bind_Some return_def Let_def intro: connected [simplified])
  next
    case (Some x)
    with find rest show ?thesis by (auto simp: return_def listed split: if_splits)
  qed
qed

lemma wait_until_booted_ok:
  assumes "wait_until_booted serial timeout os s = Some (Inr (), s')"
  obtains new where "trace s' = Ran (getprop_cmd serial) (Some 10) # new @ trace s" "booted os serial (new @ trace s)"
proof -
  from assms have "until_deadline (of_int timeout) (boot_poll serial) os s = Some (Inr (Some ()), s')"
    by (auto simp: wait_until_booted_def bind_Some return_def raise_def split: option.splits)
  then obtain s1 new where poll: "boot_poll serial os s1 = Some (Inr (Some ()), s')" "s1 = s\<lparr>trace := new @ trace s\<rparr>"
    by (rule until_deadline_Some) (rule quiet_golden)
  from poll(1) have "booted os serial (trace s1)" "trace s' = Ran (getprop_cmd serial) (Some 10) # trace s1"
    by (auto simp: boot_poll_def catch_Some bind_Some return_def raise_def booted_def sleep_def ask_def split: if_splits)
  with poll(2) that show thesis by simp
qed

definition screencap_calls :: "string \<Rightarrow> string \<Rightarrow> sys_call list" where
  "screencap_calls serial path =
     [AskedSize path, Ran (rm_cmd serial) (Some 60), Ran (pull_cmd serial remote_path path) (Some 60),
      Ran (screencap_cmd serial) (Some 60)]"

definition app_calls :: "string \<Rightarrow> string option \<Rightarrow> sys_call list" where
  "app_calls serial apk =
     (case apk of None \<Rightarrow> []
      | Some a \<Rightarrow> if a = [] then []
          else [Slept 10, Ran (launch_cmd serial) (Some 15), Ran (install_cmd serial a) (Some 120)])"

lemma capture_screencap_ok:
  "capture_screencap serial path os s = Some (Inr p, s') \<Longrightarrow>
     p = path \<and> trace s' = screencap_calls serial path @ trace s \<and> all_succeeded os (screencap_calls serial path) (trace s)"
  by (auto simp: capture_screencap_def screencap_calls_def bind_Some getsize_def ask_def return_def)

lemma install_on_ok:
  "install_on serial a os s = Some (Inr (), s') \<longleftrightarrow>
     succeeded os (Ran (install_cmd serial a) (Some 120)) (trace s) \<and>
     s' = s\<lparr>trace := Ran (install_cmd serial a) (Some 120) # trace s\<rparr>"
  by (auto simp: install_on_def bind_Some return_def split: sum.splits)

lemma launch_app_ok:
  "launch_app serial os s = Some (Inr (), s') \<Longrightarrow> s' = s\<lparr>trace := Ran (launch_cmd serial) (Some 15) # trace s\<rparr>"
  by (auto simp: launch_app_def ignoring_def catch_Some bind_Some return_def raise_def run_cmd_def run_within_def ask_def
      split: if_splits)

lemma app_calls_ok:
  assumes "(case apk of Some a \<Rightarrow> when_that (a \<noteq> [])
       (andthen (install_on serial a) (andthen (launch_app serial) (sleep app_settle_time))) | None \<Rightarrow> return ()) os s = Some (Inr (), s')"
  shows "trace s' = app_calls serial apk @ trace s" "a \<in> set_option apk \<Longrightarrow> a \<noteq> [] \<Longrightarrow>
     succeeded os (Ran (install_cmd serial a) (Some 120)) (trace s)"
  using assms
  by (auto simp: app_calls_def bind_Some return_def install_on_ok sleep_def ask_def app_settle_time_def
      dest!: launch_app_ok split: option.splits if_splits)

text \<open>C24. Capturing a golden returns, on a clock that moves on. When it succeeds, the path is the one asked for, the
  device is an emulator adb listed (only with \<open>native\<close>) or the address it connected to, the device had said that it is
  booted, the app was installed and left ten seconds to settle before the screenshot when an APK is given, and
  the screenshot was taken, pulled, removed from the device and measured, in this order and with nothing else
  in between.\<close>

theorem captured_golden_is_sound:
  assumes "steady_clock os"
  shows "\<exists>r s'. capture_golden host port native apk dir name os s = Some (r, s') \<and>
    (\<forall>path. r = Inr path \<longrightarrow> path = path_join dir (name @ ''.png'') \<and>
      (\<exists>serial h. let ready = Ran (getprop_cmd serial) (Some 10) # h; running = app_calls serial apk @ ready
        in trace s' = screencap_calls serial path @ running \<and> all_succeeded os (screencap_calls serial path) running \<and>
           (\<forall>a. apk = Some a \<and> a \<noteq> [] \<longrightarrow> succeeded os (Ran (install_cmd serial a) (Some 120)) ready) \<and>
           booted os serial h \<and> device_found os native (tcp_address host port) serial h))"
proof -
  from term_capture_golden [OF assms] obtain r s'
    where run: "capture_golden host port native apk dir name os s = Some (r, s')" by (rule terminatesE)
  show ?thesis
  proof (intro exI [of _ r] exI [of _ s'] conjI allI impI, rule run)
    fix path assume "r = Inr path"
    with run obtain s1 serial s2 s3 s4 p where
        device: "resolve_device host port native os s1 = Some (Inr serial, s2)"
      and boot: "wait_until_booted serial boot_deadline os s2 = Some (Inr (), s3)"
      and app: "(case apk of Some a \<Rightarrow> when_that (a \<noteq> [])
       (andthen (install_on serial a) (andthen (launch_app serial) (sleep app_settle_time))) | None \<Rightarrow> return ()) os s3 = Some (Inr (), s4)"
      and shot: "capture_screencap serial (path_join dir (name @ ''.png'')) os s4 = Some (Inr p, s')"
      and path: "path = path_join dir (name @ ''.png'')"
      unfolding capture_golden_def Let_def bind_Some by (auto simp: return_def)
    from boot obtain new where booted: "trace s3 = Ran (getprop_cmd serial) (Some 10) # new @ trace s2"
      "booted os serial (new @ trace s2)" by (rule wait_until_booted_ok)
    show "path = path_join dir (name @ ''.png'')" by (rule path)
    show "\<exists>serial h. let ready = Ran (getprop_cmd serial) (Some 10) # h; running = app_calls serial apk @ ready
        in trace s' = screencap_calls serial path @ running \<and> all_succeeded os (screencap_calls serial path) running \<and>
           (\<forall>a. apk = Some a \<and> a \<noteq> [] \<longrightarrow> succeeded os (Ran (install_cmd serial a) (Some 120)) ready) \<and>
           booted os serial h \<and> device_found os native (tcp_address host port) serial h"
      unfolding Let_def
    proof (intro exI conjI allI impI)
      show "trace s' = screencap_calls serial path @ app_calls serial apk @ Ran (getprop_cmd serial) (Some 10) # new @ trace s2"
        and "all_succeeded os (screencap_calls serial path) (app_calls serial apk @ Ran (getprop_cmd serial) (Some 10) # new @ trace s2)"
        using capture_screencap_ok [OF shot] app_calls_ok(1) [OF app] path booted(1) by simp_all
      show "succeeded os (Ran (install_cmd serial a) (Some 120)) (Ran (getprop_cmd serial) (Some 10) # new @ trace s2)"
        if "apk = Some a \<and> a \<noteq> []" for a
        using app_calls_ok(2) [OF app, of a] that booted(1) by (metis option.set_intros)
      show "booted os serial (new @ trace s2)" by (rule booted(2))
      show "device_found os native (tcp_address host port) serial (new @ trace s2)"
        by (rule device_found_later [OF resolve_device_ok [OF device]])
    qed
  qed
qed

lemma sample_boots:
  "wait_until_booted serial boot_deadline sample_os s =
     Some (Inr (), s\<lparr>trace := Ran (getprop_cmd serial) (Some 10) # ReadClock # ReadClock # trace s\<rparr>)"
proof -
  have poll: "boot_poll serial sample_os s1 = Some (Inr (Some ()), s1\<lparr>trace := Ran (getprop_cmd serial) (Some 10) # trace s1\<rparr>)" for s1
    by (simp add: boot_poll_def run_cmd_def catch_run bind_run run_within_def ask_def return_def sample_os_def strip_def
        is_space_def code_def)
  show ?thesis
    by (simp add: wait_until_booted_def until_deadline_def bind_run time_time_def ask_def again.simps deadline_step_def
        poll return_def boot_deadline_def) (simp add: sample_os_def)
qed

lemma sample_captures:
  "\<exists>s'. capture_golden (Some ''localhost'') None False (Some ''app.apk'') ''out'' ''home'' sample_os sample_manager =
     Some (Inr ''out/home.png'', s')"
proof -
  have cmd: "run_cmd cmd t sample_os s = Some (Inr \<lparr>returncode = 0, stdout = ''1'', stderr = []\<rparr>, s\<lparr>trace := Ran cmd (Some t) # trace s\<rparr>)"
    for cmd t s by (simp add: sample_os_def)
  have files: "makedirs p sample_os s = Some (Inr (), s\<lparr>trace := MadeDirs p # trace s\<rparr>)"
    "getsize p sample_os s = Some (Inr 3, s\<lparr>trace := AskedSize p # trace s\<rparr>)" for p s
    by (simp_all add: makedirs_def getsize_def ask_def sample_os_def)
  show ?thesis
    by (simp add: capture_golden_def resolve_device_def Let_def bind_run sample_boots cmd files install_on_def launch_app_def
        ignoring_def catch_run capture_screencap_def return_def path_join_def sleep_def ask_def)
qed

theorem captured_golden_is_sound_witness:
  "\<exists>s' serial h. capture_golden (Some ''localhost'') None False (Some ''app.apk'') ''out'' ''home'' sample_os sample_manager =
       Some (Inr ''out/home.png'', s') \<and>
     trace s' = screencap_calls serial ''out/home.png'' @ app_calls serial (Some ''app.apk'') @
       Ran (getprop_cmd serial) (Some 10) # h \<and> booted sample_os serial h"
proof -
  from sample_captures obtain s1 where
    "capture_golden (Some ''localhost'') None False (Some ''app.apk'') ''out'' ''home'' sample_os sample_manager =
       Some (Inr ''out/home.png'', s1)" by blast
  with captured_golden_is_sound [OF sample_steady, where host = "Some ''localhost''" and port = None and native = False
      and apk = "Some ''app.apk''" and dir = "''out''" and name = "''home''" and s = sample_manager]
  show ?thesis unfolding Let_def by (auto simp: path_join_def)
qed

section \<open>What a recording does\<close>

text \<open>The life of a recording: started, and stopped when the start has not raised.\<close>

definition video_session :: "video_config \<Rightarrow> string \<Rightarrow> (string option result \<times> video_capture) prog" where
  "video_session config name =
     bind (video_start (video_init config)) (\<lambda>(r, v). case r of
       Inl e \<Rightarrow> return (Inl e, v)
     | Inr _ \<Rightarrow> video_stop name v)"

definition pull_call :: "video_config \<Rightarrow> string \<Rightarrow> sys_call" where
  "pull_call config path = Ran (pull_cmd (adb_target config) remote_video_path path) (Some 30)"

definition rm_call :: "video_config \<Rightarrow> sys_call" where
  "rm_call config = Ran (rm_video_cmd (adb_target config) remote_video_path) (Some 10)"

lemma end_recording_run:
  "\<exists>r s' new. end_recording pid os s = Some (r, s') \<and>
     trace s' = new @ Interrupted pid (interrupt_of os (trace s) pid) # trace s"
  by (auto simp: end_recording_def prog_defs split: sum.splits)

lemma make_video_dir_run:
  "\<exists>r s' new. make_video_dir c os s = Some (r, s') \<and> trace s' = new @ trace s \<and>
     (\<forall>dir. r = Inr dir \<longrightarrow> new \<noteq> [] \<and> hd new = MadeDirs dir \<and> (\<forall>d. video_dir c = Some d \<and> d \<noteq> [] \<longrightarrow> dir = d))"
  by (auto simp: make_video_dir_def prog_defs split: sum.splits option.splits)

lemma pull_video_run:
  "\<exists>r. pull_video target remote path os s = Some (r, s\<lparr>trace := Ran (pull_cmd target remote path) (Some 30) # trace s\<rparr>) \<and>
     (\<forall>ok. r = Inr ok \<longrightarrow> ok = succeeded os (Ran (pull_cmd target remote path) (Some 30)) (trace s))"
  by (auto simp: pull_video_def run_cmd_def prog_defs split: sum.splits)

lemma remove_video_run:
  "\<exists>r. remove_video target remote os s = Some (r, s\<lparr>trace := Ran (rm_video_cmd target remote) (Some 10) # trace s\<rparr>)"
  by (auto simp: remove_video_def prog_defs split: sum.splits)

lemma fetch_video_run:
  assumes remote: "video_remote v = remote_video_path"
  defines "config \<equiv> video_config_of v"
  shows "\<exists>r v' s' new. fetch_video path v os s = Some (Inr (r, v'), s') \<and> trace s' = new @ trace s \<and>
     recording v' = recording v \<and>
     (\<forall>x. r = Inr x \<longrightarrow> (let pulled = succeeded os (pull_call config path) (trace s); h = rm_call config # pull_call config path # trace s
        in video_process v' = None \<and> trace s' = (if pulled then [AskedExists path] else []) @ h \<and>
           x = (if pulled \<and> exists_of os h path then Some path else None)))"
proof -
  let ?s1 = "s\<lparr>trace := pull_call config path # trace s\<rparr>"
  let ?s2 = "?s1\<lparr>trace := rm_call config # trace ?s1\<rparr>"
  from pull_video_run [of "adb_target config" "video_remote v" path os s] obtain r where
      pull: "pull_video (adb_target config) (video_remote v) path os s = Some (r, ?s1)"
    and ok: "\<And>ok. r = Inr ok \<Longrightarrow> ok = succeeded os (pull_call config path) (trace s)"
    unfolding pull_call_def remote by blast
  from remove_video_run [of "adb_target config" "video_remote v" os ?s1] obtain q where
      rm: "remove_video (adb_target config) (video_remote v) os ?s1 = Some (q, ?s2)"
    unfolding rm_call_def remote by blast
  have run: "fetch_video path v os s = (case q of Inl e \<Rightarrow> return (Inl e, v) | Inr _ \<Rightarrow>
      (let v = v\<lparr>video_process := None\<rparr> in case r of Inl e \<Rightarrow> return (Inl e, v) | Inr ok \<Rightarrow>
        if \<not> ok then return (Inr None, v)
        else bind (path_exists path) (\<lambda>there. return (Inr (if there then Some path else None), v)))) os ?s2"
    unfolding fetch_video_def Let_def config_def [symmetric] bind_run attempt_def pull rm by (simp add: rm)
  show ?thesis
    unfolding run using ok
    by (cases q; cases r) (auto simp: return_def Let_def bind_run path_exists_def ask_def)
qed

lemma video_stop_run:
  assumes active: "video_process v = Some pid" "recording v" "enabled (video_config_of v)"
    and remote: "video_remote v = remote_video_path"
  defines "config \<equiv> video_config_of v"
  shows "\<exists>r v' s' new. video_stop name v os s = Some (Inr (r, v'), s') \<and>
     trace s' = new @ Interrupted pid (interrupt_of os (trace s) pid) # trace s \<and>
     (recording v' \<longrightarrow> (\<exists>e. r = Inl e) \<and> v' = v) \<and>
     (\<forall>x. r = Inr x \<longrightarrow> \<not> recording v' \<and> video_process v' = None \<and>
       (\<exists>dir h. let path = path_join dir (name @ ''.mp4''); saved = MadeDirs dir # h;
            pulled = succeeded os (pull_call config path) saved; removed = rm_call config # pull_call config path # saved
          in (\<forall>d. video_dir config = Some d \<and> d \<noteq> [] \<longrightarrow> dir = d) \<and>
             trace s' = (if pulled then [AskedExists path] else []) @ removed \<and>
             x = (if pulled \<and> exists_of os removed path then Some path else None)))"
proof -
  let ?int = "Interrupted pid (interrupt_of os (trace s) pid)"
  from end_recording_run [of pid os s] obtain q s1 n1 where
      ended: "end_recording pid os s = Some (q, s1)" "trace s1 = n1 @ ?int # trace s" by blast
  from make_video_dir_run [of config os s1] obtain d s2 n2 where
      made: "make_video_dir config os s1 = Some (d, s2)" "trace s2 = n2 @ trace s1"
    and dir: "\<And>dir. d = Inr dir \<Longrightarrow> n2 \<noteq> [] \<and> hd n2 = MadeDirs dir \<and> (\<forall>d. video_dir config = Some d \<and> d \<noteq> [] \<longrightarrow> dir = d)"
    by blast
  let ?v = "v\<lparr>recording := False\<rparr>"
  have run: "video_stop name v os s = (case q of Inl e \<Rightarrow> Some (Inr (Inl e, v), s1)
     | Inr _ \<Rightarrow> (case d of Inl e \<Rightarrow> Some (Inr (Inl e, ?v), s2) | Inr dir \<Rightarrow> fetch_video (path_join dir (name @ ''.mp4'')) ?v os s2))"
    using active ended(1) made(1)
    by (simp add: video_stop_def bind_run attempt_def Let_def config_def return_def split: sum.splits)
  show ?thesis
  proof (cases q)
    case (Inl e)
    with run ended(2) show ?thesis by simp
  next
    case q: (Inr u)
    show ?thesis
    proof (cases d)
      case (Inl e)
      with run q ended(2) made(2) show ?thesis by simp
    next
      case (Inr dir')
      from fetch_video_run [where v = ?v and path = "path_join dir' (name @ ''.mp4'')" and os = os and s = s2] remote
      obtain r v' s' n3 where fetched: "fetch_video (path_join dir' (name @ ''.mp4'')) ?v os s2 = Some (Inr (r, v'), s')"
          "trace s' = n3 @ trace s2" "\<not> recording v'"
        and result: "\<And>x. r = Inr x \<Longrightarrow> (let path = path_join dir' (name @ ''.mp4''); pulled = succeeded os (pull_call config path) (trace s2);
             h = rm_call config # pull_call config path # trace s2
           in video_process v' = None \<and> trace s' = (if pulled then [AskedExists path] else []) @ h \<and>
              x = (if pulled \<and> exists_of os h path then Some path else None))"
        by (fastforce simp: Let_def config_def)
      from dir [OF Inr] obtain n4 where n2: "n2 = MadeDirs dir' # n4"
        and named: "\<forall>d. video_dir config = Some d \<and> d \<noteq> [] \<longrightarrow> dir' = d" by (cases n2) auto
      have "trace s2 = MadeDirs dir' # n4 @ trace s1" using made(2) n2 by simp
      note result = result [unfolded this Let_def]
      have "trace s' = (n3 @ n2 @ n1) @ ?int # trace s" using fetched(2) made(2) ended(2) by simp
      moreover have "video_stop name v os s = Some (Inr (r, v'), s')" using run q Inr fetched(1) by simp
      ultimately show ?thesis
        using fetched(3) result named unfolding Let_def
        by (intro exI [of _ r] exI [of _ v'] exI [of _ s'] exI [of _ "n3 @ n2 @ n1"] conjI allI impI
            exI [of _ dir'] exI [of _ "n4 @ trace s1"]) simp_all
    qed
  qed
qed

text \<open>A recording that is started and stopped. Switched off, it does nothing at all; without adb it makes one call and
  stops with nothing. Otherwise the first call after the start interrupts the process that was started; a stop that
  raises may leave the recording going, for that process, and a stop that returns has forgotten the process, has pulled the
  video into the configured directory and has then removed it from the device, whether it could be pulled or
  not, and returns its path exactly when it was pulled and is there.\<close>

theorem recording_is_saved_and_removed:
  shows "\<exists>r v s'. video_session config name os s = Some (Inr (r, v), s') \<and>
    (case popen_of os (trace s) (screenrecord_cmd config) of
       Inl e \<Rightarrow> enabled config \<longrightarrow> \<not> recording v \<and> r = (if e = FileNotFoundError then Inr None else Inl e) \<and>
         trace s' = Spawned (screenrecord_cmd config) (Inl e) # trace s
     | Inr pid \<Rightarrow> enabled config \<longrightarrow>
        (let h = Spawned (screenrecord_cmd config) (Inr pid) # trace s
         in (\<exists>new. trace s' = new @ Interrupted pid (interrupt_of os h pid) # h) \<and>
            (recording v \<longrightarrow> (\<exists>e. r = Inl e) \<and> video_process v = Some pid) \<and>
            (\<forall>x. r = Inr x \<longrightarrow> \<not> recording v \<and> video_process v = None \<and>
              (\<exists>dir h. let path = path_join dir (name @ ''.mp4''); saved = MadeDirs dir # h;
                   pulled = succeeded os (pull_call config path) saved;
                   removed = rm_call config # pull_call config path # saved
                 in (\<forall>d. video_dir config = Some d \<and> d \<noteq> [] \<longrightarrow> dir = d) \<and>
                    trace s' = (if pulled then [AskedExists path] else []) @ removed \<and>
                    x = (if pulled \<and> exists_of os removed path then Some path else None))))) \<and>
    (\<not> enabled config \<longrightarrow> r = Inr None \<and> s' = s)"
proof (cases "enabled config")
  case False
  then show ?thesis
    by (auto simp: video_session_def video_start_def video_init_def video_stop_def bind_run return_def split: sum.splits)
next
  case True
  let ?cmd = "screenrecord_cmd config"
  show ?thesis
  proof (cases "popen_of os (trace s) ?cmd")
    case (Inl e)
    with True show ?thesis
      by (auto simp: video_session_def video_start_def video_init_def video_stop_def Let_def bind_run return_def attempt_def
          popen_def ask_def)
  next
    case (Inr pid)
    let ?s1 = "s\<lparr>trace := Spawned ?cmd (Inr pid) # trace s\<rparr>"
    let ?v = "(video_init config)\<lparr>video_remote := remote_video_path, video_process := Some pid, recording := True\<rparr>"
    have "video_start (video_init config) os s = Some (Inr (Inr (), ?v), ?s1)"
      using True Inr
      by (simp add: video_start_def video_init_def Let_def bind_run return_def attempt_def popen_def ask_def)
    then have run: "video_session config name os s = video_stop name ?v os ?s1"
      by (simp add: video_session_def bind_run)
    have v: "video_process ?v = Some pid" "recording ?v" "enabled (video_config_of ?v)"
        "video_remote ?v = remote_video_path" and config: "video_config_of ?v = config"
      using True by (simp_all add: video_init_def)
    from video_stop_run [OF v, of name os ?s1, unfolded config] obtain r v' s' new where
        stop: "video_stop name ?v os ?s1 = Some (Inr (r, v'), s')"
      and first: "trace s' = new @ Interrupted pid (interrupt_of os (trace ?s1) pid) # trace ?s1"
      and going: "recording v' \<longrightarrow> (\<exists>e. r = Inl e) \<and> v' = ?v"
      and saved: "\<forall>x. r = Inr x \<longrightarrow> \<not> recording v' \<and> video_process v' = None \<and>
       (\<exists>dir h. let path = path_join dir (name @ ''.mp4''); saved = MadeDirs dir # h;
            pulled = succeeded os (pull_call config path) saved; removed = rm_call config # pull_call config path # saved
          in (\<forall>d. video_dir config = Some d \<and> d \<noteq> [] \<longrightarrow> dir = d) \<and>
             trace s' = (if pulled then [AskedExists path] else []) @ removed \<and>
             x = (if pulled \<and> exists_of os removed path then Some path else None))"
      by blast
    have "recording v' \<longrightarrow> (\<exists>e. r = Inl e) \<and> video_process v' = Some pid" using going v(1) by auto
    moreover have "\<exists>new. trace s' = new @ Interrupted pid (interrupt_of os (Spawned ?cmd (Inr pid) # trace s) pid) #
        Spawned ?cmd (Inr pid) # trace s"
      using first by auto
    ultimately show ?thesis
      unfolding run Inr sum.case Let_def [of "Spawned ?cmd (Inr pid) # trace s"]
      using stop saved True by blast
  qed
qed

definition sample_config :: video_config where
  "sample_config = \<lparr>enabled = True, duration_seconds = 5, video_dir = Some ''/tmp/out'', adb_host = ''localhost'',
     adb_port = 5555, adb_serial = Some ''emulator-5554''\<rparr>"

lemma sample_recording:
  "\<exists>v s'. video_session sample_config ''golden'' sample_os sample_manager =
     Some (Inr (Inr (Some (path_join ''/tmp/out'' ''golden.mp4'')), v), s')"
proof -
  have answers: "run_of sample_os h argv t = Inr \<lparr>returncode = 0, stdout = ''1'', stderr = []\<rparr>"
    "popen_of sample_os h argv = Inr (100 + int (length h))" "interrupt_of sample_os h pid = Inr ()"
    "wait_of sample_os h pid d = Inr 0" "makedirs_of sample_os h p = Inr ()" "exists_of sample_os h p = True"
    for h argv t pid d p by (simp_all add: sample_os_def)
  show ?thesis
    by (simp add: video_session_def video_start_def video_init_def video_stop_def fetch_video_def Let_def sample_config_def
        end_recording_def make_video_dir_def pull_video_def run_cmd_def remove_video_def prog_defs answers)
qed

theorem recording_is_saved_and_removed_witness:
  "\<exists>v s' dir h. video_session sample_config ''golden'' sample_os sample_manager =
       Some (Inr (Inr (Some ''/tmp/out/golden.mp4''), v), s') \<and> \<not> recording v \<and> video_process v = None \<and>
     trace s' = AskedExists ''/tmp/out/golden.mp4'' # rm_call sample_config #
       pull_call sample_config ''/tmp/out/golden.mp4'' # MadeDirs dir # h"
proof -
  have pid: "popen_of sample_os h argv = Inr (100 + int (length h))" for h argv by (simp add: sample_os_def)
  have ok: "succeeded sample_os (pull_call c p) h" for c p h by (simp add: sample_os_def pull_call_def)
  have path: "path_join ''/tmp/out'' ''golden.mp4'' = ''/tmp/out/golden.mp4''" by (simp add: path_join_def)
  from sample_recording obtain v s' where
    run: "video_session sample_config ''golden'' sample_os sample_manager = Some (Inr (Inr (Some ''/tmp/out/golden.mp4''), v), s')"
    unfolding path by blast
  have "enabled sample_config" by (simp add: sample_config_def)
  with recording_is_saved_and_removed [of sample_config "''golden''" sample_os sample_manager]
  show ?thesis unfolding run pid sum.case Let_def by (auto simp: ok split: if_splits)
qed

end
