(* ===== verification/Client.thy ===== *)
theory Client
  imports Request_Replies
begin

text \<open>
  \<^verbatim>\<open>instance_manager/src/client.py\<close>: the command line client.  A command, its arguments
  parsed, prints, reads and writes files of its own machine and makes one call; the service behind the stub
  is a parameter, bound to the model of the service further below, directly and over a network that may lose
  a call or its answer or be too slow for the deadline the client sets.  Texts with a dash beyond the character
  range are constructors of \<open>printed\<close>.
\<close>

section \<open>A client's session\<close>

datatype rpc_error = Status status_code details | Unhandled exn | Transport string string

datatype printed =
    Line string
  | Raw string
  | Error_line rpc_error
  | Saved_line nat string

datatype ending = Exits int | Raises exn | Rpc_error rpc_error

record machine =
  file_read :: "string \<Rightarrow> bytes result"
  file_write :: "string \<Rightarrow> exn option"

record 's session =
  out :: "printed list"
  err :: "printed list"
  files :: "(string \<times> bytes) list"
  remote :: 's

type_synonym ('s, 'a) action = "'s session \<Rightarrow> ((ending + 'a) \<times> 's session) option"
type_synonym 's stub = "string \<Rightarrow> request \<Rightarrow> int \<Rightarrow> 's \<Rightarrow> ((rpc_error + response) \<times> 's) option"

definition pure :: "'a \<Rightarrow> ('s, 'a) action" where
  "pure x = (\<lambda>st. Some (Inr x, st))"

definition stop_with :: "ending \<Rightarrow> ('s, 'a) action" where
  "stop_with e = (\<lambda>st. Some (Inl e, st))"

definition chain :: "('s, 'a) action \<Rightarrow> ('a \<Rightarrow> ('s, 'b) action) \<Rightarrow> ('s, 'b) action" where
  "chain m f = (\<lambda>st. case m st of
       None \<Rightarrow> None
     | Some (Inl e, st') \<Rightarrow> Some (Inl e, st')
     | Some (Inr x, st') \<Rightarrow> f x st')"

abbreviation seq :: "('s, unit) action \<Rightarrow> ('s, 'b) action \<Rightarrow> ('s, 'b) action" where
  "seq m n \<equiv> chain m (\<lambda>_. n)"

definition say :: "printed \<Rightarrow> ('s, unit) action" where
  "say p = (\<lambda>st. Some (Inr (), st\<lparr>out := out st @ [p]\<rparr>))"

definition complain :: "printed \<Rightarrow> ('s, unit) action" where
  "complain p = (\<lambda>st. Some (Inr (), st\<lparr>err := err st @ [p]\<rparr>))"

abbreviation say_line :: "string \<Rightarrow> ('s, unit) action" where
  "say_line s \<equiv> say (Line s)"

text \<open>\<open>with open(path, "rb") as f: f.read()\<close> and \<open>with open(path, "wb") as f: f.write(data)\<close>\<close>

definition read_bytes_of :: "machine \<Rightarrow> string \<Rightarrow> ('s, bytes) action" where
  "read_bytes_of m path = (case file_read m path of Inl e \<Rightarrow> stop_with (Raises e) | Inr b \<Rightarrow> pure b)"

definition save :: "machine \<Rightarrow> string \<Rightarrow> bytes \<Rightarrow> ('s, unit) action" where
  "save m path data = (case file_write m path of
       Some e \<Rightarrow> stop_with (Raises e)
     | None \<Rightarrow> (\<lambda>st. Some (Inr (), st\<lparr>files := files st @ [(path, data)]\<rparr>)))"

definition call :: "'s stub \<Rightarrow> string \<Rightarrow> request \<Rightarrow> int \<Rightarrow> ('s, response) action" where
  "call send path req timeout = (\<lambda>st. case send path req timeout (remote st) of
       None \<Rightarrow> None
     | Some (Inl e, s') \<Rightarrow> Some (Inl (Rpc_error e), st\<lparr>remote := s'\<rparr>)
     | Some (Inr x, s') \<Rightarrow> Some (Inr x, st\<lparr>remote := s'\<rparr>))"

section \<open>Stubs\<close>

definition service_name :: string where
  "service_name = ''/vanpilot.v1.InstanceManagerService''"

definition stub_methods :: "(string, string) dict" where
  "stub_methods =
     [(''create'', ''CreateInstance''), (''destroy'', ''DestroyInstance''), (''list'', ''ListInstances''),
      (''get'', ''GetInstance''), (''screenshot'', ''ScreenshotInstance''), (''restart_dhu'', ''RestartDhu''),
      (''dhu_command'', ''DhuCommand''), (''install_apk'', ''InstallApk''), (''adb_shell'', ''AdbShell''),
      (''adb_push'', ''AdbPush''), (''adb_pull'', ''AdbPull''), (''save_snapshot'', ''SaveSnapshot''),
      (''load_snapshot'', ''LoadSnapshot'')]"

definition stub :: "'s stub \<Rightarrow> string \<Rightarrow> request \<Rightarrow> int \<Rightarrow> ('s, response) action" where
  "stub send key req timeout = (case dict_get stub_methods key of
       Some meth \<Rightarrow> call send (service_name @ ''/'' @ meth) req timeout
     | None \<Rightarrow> stop_with (Raises (KeyError key)))"

section \<open>Printing an instance\<close>

definition client_state_names :: "(int, string) dict" where
  "client_state_names = [(0, ''UNSPECIFIED''), (1, ''CREATING''), (2, ''RUNNING''), (3, ''ERROR''), (4, ''DESTROYING'')]"

definition print_instance :: "instance_info \<Rightarrow> ('s, unit) action" where
  "print_instance info =
     (let state = (case dict_get client_state_names (info_state info) of
            Some n \<Rightarrow> n | None \<Rightarrow> ''UNKNOWN('' @ show_int (info_state info) @ '')'')
      in seq (say_line (''  '' @ info_name info @ ''  state='' @ state @ ''  console='' @ show_int (info_emulator_console_port info) @
           ''  adb='' @ show_int (info_adb_port info) @ ''  aa='' @ show_int (info_aa_forward_port info) @
           ''  headful='' @ (if info_headful info then ''True'' else ''False'') @ ''  avd='' @ info_avd_name info))
        (seq (if info_screenshot_png info \<noteq> []
           then say_line (''    DHU screenshot: '' @ show_int (int (length (info_screenshot_png info))) @ '' bytes'') else pure ())
        (if info_emulator_screenshot_png info \<noteq> []
           then say_line (''    Phone screenshot: '' @ show_int (int (length (info_emulator_screenshot_png info))) @ '' bytes'') else pure ())))"

fun print_instances :: "instance_info list \<Rightarrow> ('s, unit) action" where
  "print_instances [] = pure ()"
| "print_instances (i # infos) = seq (print_instance i) (print_instances infos)"

definition ok_with :: "instance_info \<Rightarrow> ('s, unit) action" where
  "ok_with info = seq (say_line ''OK'') (print_instance info)"

text \<open>\<open>args.output or default\<close>\<close>

definition or_path :: "string option \<Rightarrow> string \<Rightarrow> string" where
  "or_path p d = (case p of Some s \<Rightarrow> if s \<noteq> [] then s else d | None \<Rightarrow> d)"

section \<open>Commands\<close>

datatype command =
    CmdCreate string string string bool int
  | CmdDestroy string
  | CmdList
  | CmdGet string
  | CmdScreenshot string "string option" "string option"
  | CmdRestartDhu string int
  | CmdDhuCommand string "string list" bool "string option"
  | CmdInstallApk string string bool string int
  | CmdSaveSnapshot string string int
  | CmdLoadSnapshot string string int
  | CmdAdb string "string list" int
  | CmdPush string string string int
  | CmdPull string string "string option" int

text \<open>A response that lacks the attribute read raises; the service's responses always have it.\<close>

abbreviation misfit :: "('s, 'a) action" where
  "misfit \<equiv> stop_with (Raises AttributeError)"

definition cmd_create :: "'s stub \<Rightarrow> string \<Rightarrow> string \<Rightarrow> string \<Rightarrow> bool \<Rightarrow> int \<Rightarrow> ('s, unit) action" where
  "cmd_create send name avd snapshot head timeout =
     seq (say_line (''Creating instance '' @ quote name @ ''...''))
     (chain (stub send ''create'' (CreateReq name avd snapshot head) timeout) (\<lambda>resp.
      case resp of CreateInstanceResponse info \<Rightarrow> ok_with info | _ \<Rightarrow> misfit))"

definition cmd_destroy :: "'s stub \<Rightarrow> string \<Rightarrow> ('s, unit) action" where
  "cmd_destroy send name =
     chain (stub send ''destroy'' (DestroyReq name) 30) (\<lambda>_. say_line (''Destroyed '' @ quote name))"

definition cmd_list :: "'s stub \<Rightarrow> ('s, unit) action" where
  "cmd_list send =
     chain (stub send ''list'' ListReq 10) (\<lambda>resp. case resp of
       ListInstancesResponse infos \<Rightarrow> if infos = [] then say_line ''No instances.'' else print_instances infos
     | _ \<Rightarrow> misfit)"

definition cmd_get :: "'s stub \<Rightarrow> string \<Rightarrow> ('s, unit) action" where
  "cmd_get send name =
     chain (stub send ''get'' (GetReq name) 10) (\<lambda>resp. case resp of GetInstanceResponse info \<Rightarrow> print_instance info | _ \<Rightarrow> misfit)"

definition save_png :: "machine \<Rightarrow> string \<Rightarrow> bytes \<Rightarrow> string option \<Rightarrow> string \<Rightarrow> ('s, unit) action" where
  "save_png m label png output fallback =
     (if png = [] then pure ()
      else seq (save m (or_path output fallback) png)
        (say_line (label @ '': '' @ or_path output fallback @ '' ('' @ show_int (int (length png)) @ '' bytes)'')))"

definition cmd_screenshot :: "'s stub \<Rightarrow> machine \<Rightarrow> string \<Rightarrow> string option \<Rightarrow> string option \<Rightarrow> ('s, unit) action" where
  "cmd_screenshot send m name output emu_output =
     chain (stub send ''screenshot'' (ScreenshotReq name) 30) (\<lambda>resp. case resp of
       ScreenshotInstanceResponse dhu emu ts \<Rightarrow>
         seq (save_png m ''DHU screenshot'' dhu output (''/tmp/'' @ name @ ''_dhu.png''))
         (save_png m ''Phone screenshot'' emu emu_output (''/tmp/'' @ name @ ''_phone.png''))
     | _ \<Rightarrow> misfit)"

definition cmd_restart_dhu :: "'s stub \<Rightarrow> string \<Rightarrow> int \<Rightarrow> ('s, unit) action" where
  "cmd_restart_dhu send name timeout =
     seq (say_line (''Restarting DHU for '' @ quote name @ ''...''))
     (chain (stub send ''restart_dhu'' (RestartDhuReq name) timeout) (\<lambda>resp.
      case resp of RestartDhuResponse info \<Rightarrow> ok_with info | _ \<Rightarrow> misfit))"

definition cmd_dhu_command :: "'s stub \<Rightarrow> machine \<Rightarrow> string \<Rightarrow> string list \<Rightarrow> bool \<Rightarrow> string option \<Rightarrow> ('s, unit) action" where
  "cmd_dhu_command send m name words capture output =
     chain (stub send ''dhu_command'' (DhuCommandReq name (join '' '' words) capture) 30) (\<lambda>resp. case resp of
       DhuCommandResponse executed png \<Rightarrow>
         seq (say_line (''Command sent at '' @ show_int executed))
         (save_png m ''Screenshot'' png output (''/tmp/'' @ name @ ''_dhu_cmd.png''))
     | _ \<Rightarrow> misfit)"

definition cmd_install_apk :: "'s stub \<Rightarrow> machine \<Rightarrow> string \<Rightarrow> string \<Rightarrow> bool \<Rightarrow> string \<Rightarrow> int \<Rightarrow> ('s, unit) action" where
  "cmd_install_apk send m name apk restart snapshot timeout =
     chain (read_bytes_of m apk) (\<lambda>apk_data.
     seq (say_line (''Installing '' @ apk @ '' ('' @ show_int (int (length apk_data)) @ '' bytes) on '' @ quote name @ ''...''))
     (chain (stub send ''install_apk'' (InstallApkReq name apk_data restart snapshot) timeout) (\<lambda>resp.
      case resp of InstallApkResponse info \<Rightarrow> ok_with info | _ \<Rightarrow> misfit)))"

definition cmd_snapshot_op ::
  "'s stub \<Rightarrow> string \<Rightarrow> string \<Rightarrow> (string \<Rightarrow> string \<Rightarrow> request) \<Rightarrow> string \<Rightarrow> string \<Rightarrow> int \<Rightarrow> ('s, unit) action" where
  "cmd_snapshot_op send verb key req_cls name snapshot timeout =
     seq (say_line (verb @ '' snapshot '' @ quote snapshot @ '' for '' @ quote name @ ''...''))
     (chain (stub send key (req_cls name snapshot) timeout) (\<lambda>resp. case resp of
        SaveSnapshotResponse info \<Rightarrow> ok_with info
      | LoadSnapshotResponse info \<Rightarrow> ok_with info
      | _ \<Rightarrow> misfit))"

definition cmd_save_snapshot :: "'s stub \<Rightarrow> string \<Rightarrow> string \<Rightarrow> int \<Rightarrow> ('s, unit) action" where
  "cmd_save_snapshot send = cmd_snapshot_op send ''Saving'' ''save_snapshot'' SaveSnapshotReq"

definition cmd_load_snapshot :: "'s stub \<Rightarrow> string \<Rightarrow> string \<Rightarrow> int \<Rightarrow> ('s, unit) action" where
  "cmd_load_snapshot send = cmd_snapshot_op send ''Loading'' ''load_snapshot'' LoadSnapshotReq"

definition cmd_adb :: "'s stub \<Rightarrow> string \<Rightarrow> string list \<Rightarrow> int \<Rightarrow> ('s, unit) action" where
  "cmd_adb send name shell_args timeout =
     chain (stub send ''adb_shell'' (AdbShellReq name shell_args timeout) (timeout + 5)) (\<lambda>resp. case resp of
       AdbShellResponse exit_code out_text err_text \<Rightarrow>
         seq (if out_text \<noteq> [] then say (Raw out_text) else pure ())
         (seq (if err_text \<noteq> [] then complain (Raw err_text) else pure ())
         (stop_with (Exits exit_code)))
     | _ \<Rightarrow> misfit)"

definition cmd_push :: "'s stub \<Rightarrow> machine \<Rightarrow> string \<Rightarrow> string \<Rightarrow> string \<Rightarrow> int \<Rightarrow> ('s, unit) action" where
  "cmd_push send m name file remote_path timeout =
     chain (read_bytes_of m file) (\<lambda>data.
     seq (say_line (''Pushing '' @ file @ '' ('' @ show_int (int (length data)) @ '' bytes) to '' @ remote_path @ '' on '' @ quote name @ ''...''))
     (chain (stub send ''adb_push'' (AdbPushReq name data remote_path) timeout) (\<lambda>_. say_line ''OK'')))"

definition cmd_pull :: "'s stub \<Rightarrow> machine \<Rightarrow> string \<Rightarrow> string \<Rightarrow> string option \<Rightarrow> int \<Rightarrow> ('s, unit) action" where
  "cmd_pull send m name remote_path output timeout =
     seq (say_line (''Pulling '' @ remote_path @ '' from '' @ quote name @ ''...''))
     (chain (stub send ''adb_pull'' (AdbPullReq name remote_path) timeout) (\<lambda>resp. case resp of
        AdbPullResponse data \<Rightarrow>
          (let out_path = or_path output (basename remote_path)
           in seq (save m out_path data) (say (Saved_line (length data) out_path)))
      | _ \<Rightarrow> misfit))"

fun dispatch :: "'s stub \<Rightarrow> machine \<Rightarrow> command \<Rightarrow> ('s, unit) action" where
  "dispatch send m (CmdCreate name avd snapshot head timeout) = cmd_create send name avd snapshot head timeout"
| "dispatch send m (CmdDestroy name) = cmd_destroy send name"
| "dispatch send m CmdList = cmd_list send"
| "dispatch send m (CmdGet name) = cmd_get send name"
| "dispatch send m (CmdScreenshot name output emu_output) = cmd_screenshot send m name output emu_output"
| "dispatch send m (CmdRestartDhu name timeout) = cmd_restart_dhu send name timeout"
| "dispatch send m (CmdDhuCommand name words capture output) = cmd_dhu_command send m name words capture output"
| "dispatch send m (CmdInstallApk name apk restart snapshot timeout) = cmd_install_apk send m name apk restart snapshot timeout"
| "dispatch send m (CmdSaveSnapshot name snapshot timeout) = cmd_save_snapshot send name snapshot timeout"
| "dispatch send m (CmdLoadSnapshot name snapshot timeout) = cmd_load_snapshot send name snapshot timeout"
| "dispatch send m (CmdAdb name shell_args timeout) = cmd_adb send name shell_args timeout"
| "dispatch send m (CmdPush name file remote_path timeout) = cmd_push send m name file remote_path timeout"
| "dispatch send m (CmdPull name remote_path output timeout) = cmd_pull send m name remote_path output timeout"

text \<open>
  \<open>main\<close>: the exit status, modulo 256 as the shell sees it; an exception that is no \<open>RpcError\<close>
  ends the interpreter with status 1.
\<close>

definition client_main :: "'s stub \<Rightarrow> machine \<Rightarrow> command \<Rightarrow> 's \<Rightarrow> (int \<times> 's session) option" where
  "client_main send m cmd s =
     (case dispatch send m cmd \<lparr>out = [], err = [], files = [], remote = s\<rparr> of
        None \<Rightarrow> None
      | Some (Inr _, st) \<Rightarrow> Some (0, st)
      | Some (Inl (Exits n), st) \<Rightarrow> Some (n mod 256, st)
      | Some (Inl (Raises e), st) \<Rightarrow> Some (1, st)
      | Some (Inl (Rpc_error e), st) \<Rightarrow> Some (1, st\<lparr>err := err st @ [Error_line e]\<rparr>))"

section \<open>What a command asks for and leaves behind\<close>

fun method_of :: "request \<Rightarrow> string" where
  "method_of (CreateReq _ _ _ _) = ''CreateInstance''"
| "method_of (DestroyReq _) = ''DestroyInstance''"
| "method_of ListReq = ''ListInstances''"
| "method_of (GetReq _) = ''GetInstance''"
| "method_of (ScreenshotReq _) = ''ScreenshotInstance''"
| "method_of (RestartDhuReq _) = ''RestartDhu''"
| "method_of (DhuCommandReq _ _ _) = ''DhuCommand''"
| "method_of (InstallApkReq _ _ _ _) = ''InstallApk''"
| "method_of (SaveSnapshotReq _ _) = ''SaveSnapshot''"
| "method_of (LoadSnapshotReq _ _) = ''LoadSnapshot''"
| "method_of (AdbShellReq _ _ _) = ''AdbShell''"
| "method_of (AdbPushReq _ _ _) = ''AdbPush''"
| "method_of (AdbPullReq _ _) = ''AdbPull''"
| "method_of (StartVideoReq _ _ _) = ''StartVideoCapture''"
| "method_of (StopVideoReq _) = ''StopVideoCapture''"

text \<open>The request of a command, if the file it sends can be read.\<close>

fun request_of :: "machine \<Rightarrow> command \<Rightarrow> request option" where
  "request_of m (CmdCreate name avd snapshot head timeout) = Some (CreateReq name avd snapshot head)"
| "request_of m (CmdDestroy name) = Some (DestroyReq name)"
| "request_of m CmdList = Some ListReq"
| "request_of m (CmdGet name) = Some (GetReq name)"
| "request_of m (CmdScreenshot name output emu_output) = Some (ScreenshotReq name)"
| "request_of m (CmdRestartDhu name timeout) = Some (RestartDhuReq name)"
| "request_of m (CmdDhuCommand name words capture output) = Some (DhuCommandReq name (join '' '' words) capture)"
| "request_of m (CmdInstallApk name apk restart snapshot timeout) =
     (case file_read m apk of Inr d \<Rightarrow> Some (InstallApkReq name d restart snapshot) | Inl _ \<Rightarrow> None)"
| "request_of m (CmdSaveSnapshot name snapshot timeout) = Some (SaveSnapshotReq name snapshot)"
| "request_of m (CmdLoadSnapshot name snapshot timeout) = Some (LoadSnapshotReq name snapshot)"
| "request_of m (CmdAdb name shell_args timeout) = Some (AdbShellReq name shell_args timeout)"
| "request_of m (CmdPush name file remote_path timeout) =
     (case file_read m file of Inr d \<Rightarrow> Some (AdbPushReq name d remote_path) | Inl _ \<Rightarrow> None)"
| "request_of m (CmdPull name remote_path output timeout) = Some (AdbPullReq name remote_path)"

text \<open>The deadline of a command's call, in seconds: that of its option or a fixed one.\<close>

fun timeout_of :: "command \<Rightarrow> int" where
  "timeout_of (CmdCreate _ _ _ _ t) = t"
| "timeout_of (CmdDestroy _) = 30"
| "timeout_of CmdList = 10"
| "timeout_of (CmdGet _) = 10"
| "timeout_of (CmdScreenshot _ _ _) = 30"
| "timeout_of (CmdRestartDhu _ t) = t"
| "timeout_of (CmdDhuCommand _ _ _ _) = 30"
| "timeout_of (CmdInstallApk _ _ _ _ t) = t"
| "timeout_of (CmdSaveSnapshot _ _ t) = t"
| "timeout_of (CmdLoadSnapshot _ _ t) = t"
| "timeout_of (CmdAdb _ _ t) = t + 5"
| "timeout_of (CmdPush _ _ _ t) = t"
| "timeout_of (CmdPull _ _ _ t) = t"

definition status_of :: "response \<Rightarrow> int" where
  "status_of x = (case x of AdbShellResponse c _ _ \<Rightarrow> c mod 256 | _ \<Rightarrow> 0)"

definition files_of :: "command \<Rightarrow> response \<Rightarrow> (string \<times> bytes) list" where
  "files_of cmd x = (case (cmd, x) of
       (CmdScreenshot name output emu_output, ScreenshotInstanceResponse dhu emu _) \<Rightarrow>
         (if dhu = [] then [] else [(or_path output (''/tmp/'' @ name @ ''_dhu.png''), dhu)]) @
         (if emu = [] then [] else [(or_path emu_output (''/tmp/'' @ name @ ''_phone.png''), emu)])
     | (CmdDhuCommand name _ _ output, DhuCommandResponse _ png) \<Rightarrow>
         if png = [] then [] else [(or_path output (''/tmp/'' @ name @ ''_dhu_cmd.png''), png)]
     | (CmdPull _ remote_path output _, AdbPullResponse data) \<Rightarrow> [(or_path output (basename remote_path), data)]
     | _ \<Rightarrow> [])"

section \<open>Any service that answers\<close>

definition prints :: "('s, unit) action \<Rightarrow> bool" where
  "prints a \<longleftrightarrow> (\<forall>st. \<exists>ls. a st = Some (Inr (), st\<lparr>out := out st @ ls\<rparr>))"

lemma prints_pure: "prints (pure ())"
  unfolding prints_def pure_def by (intro allI exI [of _ "[]"]) simp

lemma prints_say: "prints (say p)"
  unfolding prints_def say_def by auto

lemma prints_if: "prints a \<Longrightarrow> prints b \<Longrightarrow> prints (if c then a else b)"
  by simp

lemma prints_seq:
  assumes "prints a" "prints b"
  shows "prints (seq a b)"
  unfolding prints_def
proof
  fix st :: "'a session"
  from assms(1) obtain l1 where l1: "a st = Some (Inr (), st\<lparr>out := out st @ l1\<rparr>)" unfolding prints_def by blast
  from assms(2) obtain l2 where "b (st\<lparr>out := out st @ l1\<rparr>) =
      Some (Inr (), st\<lparr>out := out st @ l1\<rparr>\<lparr>out := out (st\<lparr>out := out st @ l1\<rparr>) @ l2\<rparr>)"
    unfolding prints_def by blast
  with l1 show "\<exists>ls. seq a b st = Some (Inr (), st\<lparr>out := out st @ ls\<rparr>)"
    by (intro exI [of _ "l1 @ l2"]) (simp add: chain_def)
qed

lemmas prints_intros = prints_seq prints_say prints_pure prints_if

lemma prints_instance: "prints (print_instance i)"
  unfolding print_instance_def Let_def by (intro prints_intros)

lemma prints_instances: "prints (print_instances infos)"
proof (induction infos)
  case (Cons i infos)
  then show ?case unfolding print_instances.simps by (intro prints_intros prints_instance)
qed (simp add: prints_pure)

lemma prints_ok: "prints (ok_with i)"
  unfolding ok_with_def by (intro prints_intros prints_instance)

lemma printing:
  obtains f where "\<And>i st. print_instance i st = Some (Inr (), st\<lparr>out := out st @ f i st\<rparr>)"
  using prints_instance unfolding prints_def by metis

lemma printing_instances:
  obtains f where "\<And>i st. print_instances i st = Some (Inr (), st\<lparr>out := out st @ f i st\<rparr>)"
  using prints_instances unfolding prints_def by metis

lemma printing_ok:
  obtains f where "\<And>i st. ok_with i st = Some (Inr (), st\<lparr>out := out st @ f i st\<rparr>)"
  using prints_ok unfolding prints_def by metis

lemmas client_defs = chain_def stub_def stub_methods_def call_def say_def complain_def pure_def stop_with_def
  read_bytes_of_def save_def save_png_def

lemmas command_defs = cmd_create_def cmd_destroy_def cmd_list_def cmd_get_def cmd_screenshot_def cmd_restart_dhu_def
  cmd_dhu_command_def cmd_install_apk_def cmd_snapshot_op_def cmd_save_snapshot_def cmd_load_snapshot_def cmd_adb_def
  cmd_push_def cmd_pull_def

text \<open>
  The locale is the interface: a stub that answers every request of a good service with the response that
  belongs to it or with an error, and leaves the service good.
\<close>

locale answering_stub =
  fixes send :: "'s stub"
    and good :: "'s \<Rightarrow> bool"
  assumes answered: "good s \<Longrightarrow> \<exists>a s'. send (service_name @ ''/'' @ method_of req) req t s = Some (a, s') \<and> good s' \<and>
    (case a of Inr x \<Rightarrow> answers req x | Inl _ \<Rightarrow> True)"
begin

lemma outcome:
  assumes "good s" "request_of m cmd = Some req" "\<forall>p. file_write m p = None"
  shows "\<exists>a s' code st. send (service_name @ ''/'' @ method_of req) req (timeout_of cmd) s = Some (a, s') \<and>
    client_main send m cmd s = Some (code, st) \<and> remote st = s' \<and> good s' \<and>
    (case a of
       Inr x \<Rightarrow> answers req x \<and> code = status_of x \<and> files st = files_of cmd x
     | Inl e \<Rightarrow> code = 1 \<and> files st = [] \<and> err st = [Error_line e])"
proof -
  from answered [OF assms(1)] obtain a s' where a: "send (service_name @ ''/'' @ method_of req) req (timeout_of cmd) s = Some (a, s')"
    and good: "good s'" and kind: "case a of Inr x \<Rightarrow> answers req x | Inl _ \<Rightarrow> True" by blast
  obtain f where f: "\<And>i st. print_instance i (st :: 's session) = Some (Inr (), st\<lparr>out := out st @ f i st\<rparr>)" by (rule printing) blast
  obtain g where g: "\<And>i st. print_instances i (st :: 's session) = Some (Inr (), st\<lparr>out := out st @ g i st\<rparr>)" by (rule printing_instances) blast
  obtain h where h: "\<And>i st. ok_with i (st :: 's session) = Some (Inr (), st\<lparr>out := out st @ h i st\<rparr>)" by (rule printing_ok) blast
  have "\<exists>code st. client_main send m cmd s = Some (code, st) \<and> remote st = s' \<and> (case a of
       Inr x \<Rightarrow> answers req x \<and> code = status_of x \<and> files st = files_of cmd x
     | Inl e \<Rightarrow> code = 1 \<and> files st = [] \<and> err st = [Error_line e])"
  proof (cases a)
    case (Inl e)
    with a assms(2) show ?thesis
      by (cases cmd) (auto simp: client_main_def command_defs client_defs split: sum.splits)
  next
    case (Inr x)
    with a kind assms(2,3) show ?thesis
      by (cases cmd) (auto simp: client_main_def command_defs client_defs answers_def Let_def f g h
        status_of_def files_of_def split: sum.splits)
  qed
  with a good show ?thesis by blast
qed

end

section \<open>The instance manager behind the stub\<close>

text \<open>
  A call reaches the handler its path names in the method table; the handler reads the request as the type
  of that method.  The state behind the stub is the operating system of the service and its manager.  This is
  the server's side of a call, or a call that is neither lost nor late.
\<close>

definition to_service :: "(os \<times> sys) stub" where
  "to_service path req t = (\<lambda>(os, s).
     case im_service path of
       None \<Rightarrow> Some (Inl (Transport ''UNIMPLEMENTED'' ''Method not found!''), os, s)
     | Some meth \<Rightarrow>
         if meth \<noteq> method_of req then Some (Inl (Transport ''INTERNAL'' ''Exception deserializing request!''), os, s)
         else (case rpc os req s of
             None \<Rightarrow> None
           | Some (Replied x, s') \<Rightarrow> Some (Inr x, os, s')
           | Some (Failed c d, s') \<Rightarrow> Some (Inl (Status c d), os, s')
           | Some (Crashed e, s') \<Rightarrow> Some (Inl (Unhandled e), os, s')))"

definition good_service :: "os \<times> sys \<Rightarrow> bool" where
  "good_service = (\<lambda>(os, s). steady_clock os \<and> kill_raises_os_error os \<and> manager_ok s)"

lemma served_path: "im_service (service_name @ ''/'' @ method_of req) = Some (method_of req)"
  by (cases req) (simp_all add: im_service_def im_method_handlers_def service_name_def)

lemma to_service_rpc: "to_service (service_name @ ''/'' @ method_of req) req t (os, s) =
  (case rpc os req s of
     None \<Rightarrow> None
   | Some (Replied x, s') \<Rightarrow> Some (Inr x, os, s')
   | Some (Failed c d, s') \<Rightarrow> Some (Inl (Status c d), os, s')
   | Some (Crashed e, s') \<Rightarrow> Some (Inl (Unhandled e), os, s'))"
  by (simp only: to_service_def prod.case served_path option.case simp_thms if_False)

lemma replied_answers:
  assumes "steady_clock os" "kill_raises_os_error os" "manager_ok s" "rpc os req s = Some (Replied x, s')"
  shows "answers req x"
proof (cases "refusal s req")
  case None
  from admitted_reply [OF assms(1-3) this] assms(4) show ?thesis by auto
next
  case (Some cd)
  with refused_run [where s = s and req = req and os = os] assms(4) show ?thesis by (cases cd) simp
qed

interpretation manager: answering_stub to_service good_service
proof
  fix s :: "os \<times> sys" and req t
  assume good: "good_service s"
  obtain os s0 where s: "s = (os, s0)" by (cases s)
  with good obtain a s' where a: "rpc os req s0 = Some (a, s')" using rpc_returns by (force simp: good_service_def)
  with good s have "manager_ok s'" by (auto simp: good_service_def dest: rpc_keeps_manager_ok)
  with good s a show "\<exists>a s'. to_service (service_name @ ''/'' @ method_of req) req t s = Some (a, s') \<and> good_service s' \<and>
      (case a of Inl _ \<Rightarrow> True | Inr x \<Rightarrow> answers req x)"
    by (cases a) (auto simp: to_service_rpc [simplified] good_service_def dest: replied_answers)
qed

text \<open>
  What gRPC makes of a call is a parameter.  A call may never arrive (no server, a request that is too
  large); its answer may be lost (a broken connection, a response that is too large), which the handler does not
  notice; or both arrive, having been in transit for some time.  A call that takes longer than its deadline ends
  with DEADLINE_EXCEEDED, while the handler goes on to its end.  The strings are the status and its details.
\<close>

datatype fate = Undelivered string string | Reply_lost string string | Delivered seconds

type_synonym network = "request \<Rightarrow> os \<times> sys \<Rightarrow> fate"

definition time_spent :: "os \<times> sys \<Rightarrow> os \<times> sys \<Rightarrow> seconds" where
  "time_spent x x' = clock_of (fst x) (trace (snd x')) - clock_of (fst x) (trace (snd x))"

definition deadline_exceeded :: rpc_error where
  "deadline_exceeded = Transport ''DEADLINE_EXCEEDED'' ''Deadline Exceeded''"

definition over_network :: "network \<Rightarrow> (os \<times> sys) stub" where
  "over_network net path req t x = (case net req x of
       Undelivered c d \<Rightarrow> Some (Inl (Transport c d), x)
     | Reply_lost c d \<Rightarrow> map_option (\<lambda>(_, x'). (Inl (Transport c d), x')) (to_service path req t x)
     | Delivered transit \<Rightarrow> map_option (\<lambda>(a, x').
         (if transit + time_spent x x' \<le> of_int t then a else Inl deadline_exceeded, x')) (to_service path req t x))"

interpretation networked: answering_stub "over_network net" good_service for net
proof
  fix s :: "os \<times> sys" and req t
  assume good: "good_service s"
  from manager.answered [OF good, of req t] obtain a s' where
    a: "to_service (service_name @ ''/'' @ method_of req) req t s = Some (a, s')" "good_service s'"
      "case a of Inl _ \<Rightarrow> True | Inr x \<Rightarrow> answers req x" by blast
  then show "\<exists>a s'. over_network net (service_name @ ''/'' @ method_of req) req t s = Some (a, s') \<and> good_service s' \<and>
      (case a of Inl _ \<Rightarrow> True | Inr x \<Rightarrow> answers req x)"
    using good by (cases "net req s") (auto simp: over_network_def)
qed

text \<open>
  C20. What a command of the client leaves behind, whatever the network does.  If the file it sends can be
  read and files can be written, every command ends, having made exactly one call.  If the call does not arrive,
  the service is unchanged; otherwise the service has done what was asked.  If its answer arrives before the
  command's deadline: when the service answers, the response is of the kind the command expects, the exit
  status is 0 (for \<open>adb\<close> that of the shell command) and the files written are exactly the images or the
  data of the response; when the service refuses or fails, the status is printed, the exit status is 1 and no
  file is written.  If the call or its answer is lost, or the service and the network together take longer
  than the deadline, that is what is printed, the exit status is 1 and no file is written, also when the service has
  done everything.
\<close>

theorem client_reflects_service:
  assumes "steady_clock os" "kill_raises_os_error os" "manager_ok s"
    and "request_of m cmd = Some req" "\<forall>p. file_write m p = None"
  shows "\<exists>code st. client_main (over_network net) m cmd (os, s) = Some (code, st) \<and>
    (case net req (os, s) of
       Undelivered c d \<Rightarrow> remote st = (os, s) \<and> code = 1 \<and> files st = [] \<and> err st = [Error_line (Transport c d)]
     | Reply_lost c d \<Rightarrow> \<exists>reply s'. rpc os req s = Some (reply, s') \<and> remote st = (os, s') \<and>
         code = 1 \<and> files st = [] \<and> err st = [Error_line (Transport c d)]
     | Delivered transit \<Rightarrow> \<exists>reply s'. rpc os req s = Some (reply, s') \<and> remote st = (os, s') \<and>
         (if transit + (clock_of os (trace s') - clock_of os (trace s)) \<le> of_int (timeout_of cmd)
          then (case reply of
             Replied x \<Rightarrow> answers req x \<and> code = status_of x \<and> files st = files_of cmd x
           | Failed c d \<Rightarrow> code = 1 \<and> files st = [] \<and> err st = [Error_line (Status c d)]
           | Crashed e \<Rightarrow> code = 1 \<and> files st = [] \<and> err st = [Error_line (Unhandled e)])
          else code = 1 \<and> files st = [] \<and> err st = [Error_line (Transport ''DEADLINE_EXCEEDED'' ''Deadline Exceeded'')]))"
proof -
  have "good_service (os, s)" using assms(1-3) by (simp add: good_service_def)
  from networked.outcome [OF this assms(4,5), of net] obtain a s1 code st where
    call: "over_network net (service_name @ ''/'' @ method_of req) req (timeout_of cmd) (os, s) = Some (a, s1)"
    and st: "client_main (over_network net) m cmd (os, s) = Some (code, st)" "remote st = s1"
    and a: "case a of Inr x \<Rightarrow> answers req x \<and> code = status_of x \<and> files st = files_of cmd x
     | Inl e \<Rightarrow> code = 1 \<and> files st = [] \<and> err st = [Error_line e]" by blast
  from rpc_returns [OF assms(1)] obtain reply s' where run: "rpc os req s = Some (reply, s')" by blast
  note steps = over_network_def to_service_rpc time_spent_def deadline_exceeded_def
  show ?thesis
  proof (cases "net req (os, s)")
    case (Delivered transit)
    with call st a run show ?thesis
      by (intro exI [of _ code] exI [of _ st]) (cases reply; auto simp: steps [simplified] split: if_splits)
  qed (use call st a run in \<open>cases reply; auto simp: steps [simplified]\<close>)+
qed

text \<open>
  The sample service holds an instance.  A command on an unknown one fails with the service's status; an answer
  that comes after the deadline of \<open>destroy\<close> is reported as a failure although the instance is gone.
\<close>

definition sample_machine :: machine where
  "sample_machine = \<lparr>file_read = (\<lambda>p. Inr [80, 75]), file_write = (\<lambda>p. None)\<rparr>"

theorem client_reflects_service_witness:
  "(\<exists>st s'. client_main (over_network (\<lambda>_ _. Delivered 1)) sample_machine (CmdPush ''tablet'' ''app.apk'' ''/sdcard/app'' 60)
       (sample_os, sample_manager) = Some (1, st) \<and> remote st = (sample_os, s') \<and> files st = [] \<and>
     err st = [Error_line (Status NOT_FOUND (Message (''Instance '' @ quote ''tablet'' @ '' not found'')))]) \<and>
   (\<exists>st s'. client_main (over_network (\<lambda>_ _. Delivered 31)) sample_machine (CmdDestroy ''phone'')
       (sample_os, sample_manager) = Some (1, st) \<and> remote st = (sample_os, s') \<and> dict_get (instances s') ''phone'' = None \<and>
     err st = [Error_line (Transport ''DEADLINE_EXCEEDED'' ''Deadline Exceeded'')])"
proof
  have "refusal sample_manager (AdbPushReq ''tablet'' [80, 75] ''/sdcard/app'') =
      Some (NOT_FOUND, Message (''Instance '' @ quote ''tablet'' @ '' not found''))"
    by (simp add: refusal_def first_of_def running_refusal_def sample_manager_def)
  with refused_run [where s = sample_manager and req = "AdbPushReq ''tablet'' [80, 75] ''/sdcard/app''" and os = sample_os]
    client_reflects_service [OF sample_steady sample_kills sample_manager_ok, of sample_machine
      "CmdPush ''tablet'' ''app.apk'' ''/sdcard/app'' 60" _ "\<lambda>_ _. Delivered 1"]
  show "\<exists>st s'. client_main (over_network (\<lambda>_ _. Delivered 1)) sample_machine (CmdPush ''tablet'' ''app.apk'' ''/sdcard/app'' 60)
       (sample_os, sample_manager) = Some (1, st) \<and> remote st = (sample_os, s') \<and> files st = [] \<and>
     err st = [Error_line (Status NOT_FOUND (Message (''Instance '' @ quote ''tablet'' @ '' not found'')))]"
    by (auto simp: sample_machine_def)
next
  from client_reflects_service [OF sample_steady sample_kills sample_manager_ok, of sample_machine
      "CmdDestroy ''phone''" _ "\<lambda>_ _. Delivered 31"] obtain code st reply s' where
    st: "client_main (over_network (\<lambda>_ _. Delivered 31)) sample_machine (CmdDestroy ''phone'') (sample_os, sample_manager) = Some (code, st)"
      "rpc sample_os (DestroyReq ''phone'') sample_manager = Some (reply, s')" "remote st = (sample_os, s')" and
    late: "31 + (clock_of sample_os (trace s') - clock_of sample_os (trace sample_manager)) > 30 \<longrightarrow>
      code = 1 \<and> err st = [Error_line (Transport ''DEADLINE_EXCEEDED'' ''Deadline Exceeded'')]"
    by (auto simp: sample_machine_def split: if_splits)
  obtain new i where s': "s' = sample_manager\<lparr>instances := dict_pop ''phone'' (instances sample_manager),
       tracked := dict_pop ''phone'' (tracked sample_manager),
       ports := (ports sample_manager)\<lparr>used_slots := used_slots (ports sample_manager) - {i}\<rparr>,
       rpc_status := None, trace := new @ trace sample_manager\<rparr>"
    by (rule DestroyInstance_effect [OF sample_manager_ok sample_instance st(2)])
  have "trace s' = new @ trace sample_manager" "instances s' = dict_pop ''phone'' (instances sample_manager)"
    unfolding s' by simp_all
  moreover from this(1) have "clock_of sample_os (trace sample_manager) \<le> clock_of sample_os (trace s')"
    by (simp add: clock_extends)
  ultimately show "\<exists>st s'. client_main (over_network (\<lambda>_ _. Delivered 31)) sample_machine (CmdDestroy ''phone'')
       (sample_os, sample_manager) = Some (1, st) \<and> remote st = (sample_os, s') \<and> dict_get (instances s') ''phone'' = None \<and>
     err st = [Error_line (Transport ''DEADLINE_EXCEEDED'' ''Deadline Exceeded'')]"
    using st late by (auto simp: dict_get_pop)
qed

end
