(* ===== verification/Golden_Harness.thy ===== *)
theory Golden_Harness
  imports Client Golden_Diff
begin

text \<open>
  \<^verbatim>\<open>goldens/golden_test_harness.py\<close>: golden tests that create an instance, install and launch the
  app on it, take screenshots and compare them.  The harness is another client of the service and uses the
  actions of \<open>Client\<close>; a session's files are the test's outputs.  A skipped test and a failed
  assertion are exceptions, as in \<^verbatim>\<open>unittest\<close>; the texts of their messages are left out.  The harness's calls have
  no deadline, and its connection to the service is one that loses nothing (\<open>to_service\<close>).
\<close>

section \<open>Calls\<close>

definition render_settle_time :: seconds where
  "render_settle_time = 10"

text \<open>A call without a deadline.\<close>

definition service_method :: "'s stub \<Rightarrow> string \<Rightarrow> request \<Rightarrow> ('s, response) action" where
  "service_method send meth req = call send (''/'' @ ''vanpilot.v1.InstanceManagerService'' @ ''/'' @ meth) req 0"

definition create_instance :: "'s stub \<Rightarrow> string \<Rightarrow> bool \<Rightarrow> string \<Rightarrow> string \<Rightarrow> ('s, response) action" where
  "create_instance send name head avd snapshot = service_method send ''CreateInstance'' (CreateReq name avd snapshot head)"

definition destroy_instance :: "'s stub \<Rightarrow> string \<Rightarrow> ('s, response) action" where
  "destroy_instance send name = service_method send ''DestroyInstance'' (DestroyReq name)"

definition client_get_instance :: "'s stub \<Rightarrow> string \<Rightarrow> ('s, response) action" where
  "client_get_instance send name = service_method send ''GetInstance'' (GetReq name)"

definition screenshot_instance :: "'s stub \<Rightarrow> string \<Rightarrow> ('s, response) action" where
  "screenshot_instance send name = service_method send ''ScreenshotInstance'' (ScreenshotReq name)"

definition client_dhu_command :: "'s stub \<Rightarrow> string \<Rightarrow> string \<Rightarrow> bool \<Rightarrow> ('s, response) action" where
  "client_dhu_command send name command capture = service_method send ''DhuCommand'' (DhuCommandReq name command capture)"

definition client_install_apk :: "'s stub \<Rightarrow> string \<Rightarrow> bytes \<Rightarrow> bool \<Rightarrow> ('s, response) action" where
  "client_install_apk send name apk_data restart = service_method send ''InstallApk'' (InstallApkReq name apk_data restart [])"

definition client_restart_dhu :: "'s stub \<Rightarrow> string \<Rightarrow> ('s, response) action" where
  "client_restart_dhu send name = service_method send ''RestartDhu'' (RestartDhuReq name)"

definition client_adb_shell :: "'s stub \<Rightarrow> string \<Rightarrow> string list \<Rightarrow> int \<Rightarrow> ('s, response) action" where
  "client_adb_shell send name args timeout_s = service_method send ''AdbShell'' (AdbShellReq name args timeout_s)"

section \<open>Test classes\<close>

text \<open>
  What a test sees: its configuration from the environment, the files of its machine, and how time passes
  for the service while it sleeps.
\<close>

record 's surroundings =
  stub_of :: "'s stub"
  asleep :: "seconds \<Rightarrow> 's \<Rightarrow> 's"
  apk_path :: string
  golden_tolerance :: int
  outputs_dir :: "string option"
  makedirs_error :: "string \<Rightarrow> exn option"
  golden_exists :: "string \<Rightarrow> bool"
  disk :: machine
  deflate :: "bytes \<Rightarrow> bytes"
  inflate :: "bytes \<Rightarrow> bytes option"

definition pause :: "'s surroundings \<Rightarrow> seconds \<Rightarrow> ('s, unit) action" where
  "pause env d = (\<lambda>st. Some (Inr (), st\<lparr>remote := asleep env d (remote st)\<rparr>))"

definition rescue :: "('s, 'a) action \<Rightarrow> (ending \<Rightarrow> ('s, 'a) action) \<Rightarrow> ('s, 'a) action" where
  "rescue m h = (\<lambda>st. case m st of Some (Inl e, st') \<Rightarrow> h e st' | r \<Rightarrow> r)"

definition skip_test :: ending where "skip_test = Raises (OtherError ''SkipTest'')"
definition assertion_failed :: ending where "assertion_failed = Raises (OtherError ''AssertionError'')"

definition launch_vanpilot_via_dhu :: "'s surroundings \<Rightarrow> string \<Rightarrow> ('s, unit) action" where
  "launch_vanpilot_via_dhu env name =
     chain (client_dhu_command (stub_of env) name ''keycode home'' False) (\<lambda>_.
     seq (pause env 2)
     (chain (client_dhu_command (stub_of env) name ''tap 200 390'' False) (\<lambda>_.
     seq (pause env 1)
     (chain (client_dhu_command (stub_of env) name ''tap 200 390'' False) (\<lambda>_.
     pause env render_settle_time)))))"

text \<open>\<open>setUpClass\<close>, which gives the class its instance's name.\<close>

definition class_instance_name :: "string \<Rightarrow> string \<Rightarrow> string" where
  "class_instance_name instance_name class_name = (if instance_name = [] then ''golden-'' @ lower class_name else instance_name)"

definition setUpClass :: "'s surroundings \<Rightarrow> string \<Rightarrow> ('s, unit) action" where
  "setUpClass env name =
     chain (rescue (create_instance (stub_of env) name False [] [])
         (\<lambda>e. case e of Rpc_error _ \<Rightarrow> stop_with skip_test | _ \<Rightarrow> stop_with e)) (\<lambda>_.
     if apk_path env \<noteq> []
     then chain (read_bytes_of (disk env) (apk_path env)) (\<lambda>apk_data.
       chain (client_install_apk (stub_of env) name apk_data True) (\<lambda>_.
       seq (launch_vanpilot_via_dhu env name)
       (pause env render_settle_time)))
     else pure ())"

definition tearDownClass :: "'s surroundings \<Rightarrow> string \<Rightarrow> ('s, unit) action" where
  "tearDownClass env name =
     rescue (chain (destroy_instance (stub_of env) name) (\<lambda>_. pure ()))
       (\<lambda>e. case e of Rpc_error _ \<Rightarrow> pure () | _ \<Rightarrow> stop_with e)"

definition capture_raw_dhu_screenshot :: "'s surroundings \<Rightarrow> string \<Rightarrow> ('s, bytes) action" where
  "capture_raw_dhu_screenshot env name =
     chain (screenshot_instance (stub_of env) name) (\<lambda>resp.
     case resp of ScreenshotInstanceResponse dhu _ _ \<Rightarrow> pure dhu | _ \<Rightarrow> misfit)"

definition of_sum :: "'a result \<Rightarrow> ('s, 'a) action" where
  "of_sum r = (case r of Inl e \<Rightarrow> stop_with (Raises e) | Inr x \<Rightarrow> pure x)"

definition capture_dhu_screenshot :: "'s surroundings \<Rightarrow> string \<Rightarrow> ('s, bytes) action" where
  "capture_dhu_screenshot env name =
     chain (screenshot_instance (stub_of env) name) (\<lambda>resp.
     case resp of ScreenshotInstanceResponse dhu _ _ \<Rightarrow> of_sum (crop_to_app_pane (deflate env) (inflate env) dhu 76 12 1908 1068)
     | _ \<Rightarrow> misfit)"

fun foreground_in :: "'s surroundings \<Rightarrow> string \<Rightarrow> string list \<Rightarrow> ('s, bool) action" where
  "foreground_in env name [] = pure False"
| "foreground_in env name (dump_target # rest) =
     chain (client_adb_shell (stub_of env) name [''dumpsys'', ''activity'', dump_target] 30) (\<lambda>resp.
     case resp of AdbShellResponse _ text _ \<Rightarrow>
       if is_infix ''vanpilot'' (lower text) then pure True else foreground_in env name rest
     | _ \<Rightarrow> misfit)"

definition verify_vanpilot_foreground :: "'s surroundings \<Rightarrow> string \<Rightarrow> ('s, unit) action" where
  "verify_vanpilot_foreground env name =
     chain (foreground_in env name [''activities'', ''services'']) (\<lambda>found.
     if found then pure ()
     else chain (client_adb_shell (stub_of env) name [''dumpsys'', ''activity'', ''services''] 30) (\<lambda>_.
       stop_with assertion_failed))"

definition save_test_output :: "'s surroundings \<Rightarrow> string \<Rightarrow> bytes \<Rightarrow> ('s, string option) action" where
  "save_test_output env name data =
     (case outputs_dir env of
        None \<Rightarrow> pure None
      | Some dir \<Rightarrow>
          if dir = [] then pure None
          else case makedirs_error env dir of
              Some e \<Rightarrow> stop_with (Raises e)
            | None \<Rightarrow> seq (save (disk env) (path_join dir name) data) (pure (Some (path_join dir name))))"

definition assert_matches_golden :: "'s surroundings \<Rightarrow> bytes \<Rightarrow> string \<Rightarrow> ('s, unit) action" where
  "assert_matches_golden env actual_png golden_path =
     (if \<not> golden_exists env golden_path
      then chain (save_test_output env ''actual.png'' actual_png) (\<lambda>_. stop_with skip_test)
      else chain (read_bytes_of (disk env) golden_path) (\<lambda>golden_png.
        chain (save_test_output env ''actual.png'' actual_png) (\<lambda>_.
        chain (save_test_output env ''golden.png'' golden_png) (\<lambda>_.
        chain (of_sum (compare_golden (deflate env) (inflate env) actual_png golden_png (golden_tolerance env))) (\<lambda>(match, diff_count, diff_png).
        chain (case diff_png of
            Some d \<Rightarrow> if d \<noteq> [] then save_test_output env ''diff.png'' d else pure None
          | None \<Rightarrow> pure None) (\<lambda>_.
        if \<not> match then stop_with assertion_failed else pure ()))))))"

text \<open>
  How \<open>unittest\<close> runs a class: if \<open>setUpClass\<close> raises, neither a test nor \<open>tearDownClass\<close>
  runs; an exception of a test does not keep the next from running.
\<close>

fun run_tests :: "('s, unit) action list \<Rightarrow> 's session \<Rightarrow> (ending option list \<times> 's session) option" where
  "run_tests [] st = Some ([], st)"
| "run_tests (t # ts) st =
     (case t st of
        None \<Rightarrow> None
      | Some (r, st') \<Rightarrow> map_option (\<lambda>(rs, st''). ((case r of Inl e \<Rightarrow> Some e | Inr _ \<Rightarrow> None) # rs, st'')) (run_tests ts st'))"

definition run_class :: "'s surroundings \<Rightarrow> string \<Rightarrow> ('s, unit) action list \<Rightarrow> ('s, ending option list) action" where
  "run_class env name tests =
     chain (setUpClass env name) (\<lambda>_ st.
       case run_tests tests st of
         None \<Rightarrow> None
       | Some (rs, st') \<Rightarrow> chain (tearDownClass env name) (\<lambda>_. pure rs) st')"

section \<open>What a test leaves of the service\<close>

text \<open>An action that ends and keeps a property of the service, however it ends.\<close>

definition keeping :: "('s \<Rightarrow> bool) \<Rightarrow> ('s, 'a) action \<Rightarrow> bool" where
  "keeping P m \<longleftrightarrow> (\<forall>st. P (remote st) \<longrightarrow> (\<exists>r st'. m st = Some (r, st') \<and> P (remote st')))"

named_theorems keeping_intros "actions that keep a property of the service"

lemma keeping_pure [keeping_intros]: "keeping P (pure x)" "keeping P (stop_with e)"
  by (simp_all add: keeping_def pure_def stop_with_def)

lemma keeping_chain [keeping_intros]: "keeping P m \<Longrightarrow> (\<And>x. keeping P (f x)) \<Longrightarrow> keeping P (chain m f)"
  by (fastforce simp: keeping_def chain_def split: sum.split)

lemma keeping_rescue [keeping_intros]: "keeping P m \<Longrightarrow> (\<And>e. keeping P (h e)) \<Longrightarrow> keeping P (rescue m h)"
  by (fastforce simp: keeping_def rescue_def split: sum.split)

lemma keeping_if [keeping_intros]: "keeping P m \<Longrightarrow> keeping P n \<Longrightarrow> keeping P (if b then m else n)"
  by simp

lemma keeping_cases [keeping_intros]:
  "keeping P m \<Longrightarrow> (\<And>x. keeping P (f x)) \<Longrightarrow> keeping P (case v of None \<Rightarrow> m | Some x \<Rightarrow> f x)"
  "(\<And>x y. keeping P (g x y)) \<Longrightarrow> keeping P (case z of (x, y) \<Rightarrow> g x y)"
  by (simp_all split: option.split prod.split)

lemma keeping_ending [keeping_intros]:
  "(\<And>n. keeping P (f n)) \<Longrightarrow> (\<And>e. keeping P (g e)) \<Longrightarrow> (\<And>e. keeping P (h e)) \<Longrightarrow>
   keeping P (case e of Exits n \<Rightarrow> f n | Raises x \<Rightarrow> g x | Rpc_error y \<Rightarrow> h y)"
  by (simp split: ending.split)

lemma keeping_response [keeping_intros]:
  "(\<And>a b c. keeping P (f a b c)) \<Longrightarrow> keeping P m \<Longrightarrow>
   keeping P (case resp of ScreenshotInstanceResponse a b c \<Rightarrow> f a b c | _ \<Rightarrow> m)"
  "(\<And>a b c. keeping P (f' a b c)) \<Longrightarrow> keeping P m \<Longrightarrow>
   keeping P (case resp of AdbShellResponse a b c \<Rightarrow> f' a b c | _ \<Rightarrow> m)"
  by (simp_all split: response.split)

lemma keeping_local [keeping_intros]:
  "keeping P (read_bytes_of m path)" "keeping P (save m path data)" "keeping P (of_sum r)"
  by (simp_all add: keeping_def read_bytes_of_def save_def of_sum_def pure_def stop_with_def split: sum.split option.split)

lemma keeping_outputs [keeping_intros]:
  "keeping P (save_test_output env name data)" "keeping P (assert_matches_golden env png path)"
  unfolding save_test_output_def assert_matches_golden_def by (intro keeping_intros)+

lemma keeping_tests:
  assumes "\<forall>t \<in> set tests. keeping P t" "P (remote st)"
  shows "\<exists>rs st'. run_tests tests st = Some (rs, st') \<and> P (remote st')"
  using assms
proof (induction tests arbitrary: st)
  case (Cons t ts)
  then obtain r st' where "t st = Some (r, st')" "P (remote st')" unfolding keeping_def by auto
  with Cons show ?case by fastforce
qed simp

text \<open>
  The interface to the service: requests that are admissible, and the passing of time, keep the property.
\<close>

locale steady_service =
  fixes env :: "'s surroundings"
    and P :: "'s \<Rightarrow> bool"
    and admissible :: "request \<Rightarrow> bool"
  assumes served: "P x \<Longrightarrow> admissible req \<Longrightarrow>
      \<exists>a x'. stub_of env (service_name @ ''/'' @ method_of req) req t x = Some (a, x') \<and> P x'"
    and rested: "P x \<Longrightarrow> P (asleep env d x)"
begin

lemma keeping_call: "admissible req \<Longrightarrow> keeping P (service_method (stub_of env) (method_of req) req)"
  unfolding keeping_def
proof (intro allI impI)
  fix st :: "'s session"
  assume "admissible req" "P (remote st)"
  from served [OF this(2,1), of 0] obtain a x' where
    "stub_of env (service_name @ ''/'' @ method_of req) req 0 (remote st) = Some (a, x')" "P x'" by blast
  then show "\<exists>r st'. service_method (stub_of env) (method_of req) req st = Some (r, st') \<and> P (remote st')"
    by (cases a) (simp_all add: service_method_def call_def service_name_def)
qed

lemma keeping_pause: "keeping P (pause env d)"
  by (simp add: keeping_def pause_def rested)

lemma keeping_requests:
  "admissible (ScreenshotReq name) \<Longrightarrow> keeping P (screenshot_instance (stub_of env) name)"
  "admissible (DhuCommandReq name command capture) \<Longrightarrow> keeping P (client_dhu_command (stub_of env) name command capture)"
  "admissible (InstallApkReq name apk_data restart []) \<Longrightarrow> keeping P (client_install_apk (stub_of env) name apk_data restart)"
  "admissible (AdbShellReq name args t) \<Longrightarrow> keeping P (client_adb_shell (stub_of env) name args t)"
  "admissible (CreateReq name avd snapshot head) \<Longrightarrow> keeping P (create_instance (stub_of env) name head avd snapshot)"
  "admissible (DestroyReq name) \<Longrightarrow> keeping P (destroy_instance (stub_of env) name)"
  unfolding screenshot_instance_def client_dhu_command_def client_install_apk_def client_adb_shell_def create_instance_def
    destroy_instance_def
  using keeping_call [of "ScreenshotReq name"] keeping_call [of "DhuCommandReq name command capture"]
    keeping_call [of "InstallApkReq name apk_data restart []"] keeping_call [of "AdbShellReq name args t"]
    keeping_call [of "CreateReq name avd snapshot head"] keeping_call [of "DestroyReq name"]
  by simp_all

lemma keeping_launch:
  assumes "\<And>command. admissible (DhuCommandReq name command False)"
  shows "keeping P (launch_vanpilot_via_dhu env name)"
  unfolding launch_vanpilot_via_dhu_def by (intro keeping_intros keeping_requests keeping_pause assms)

end

section \<open>Tests at the instance manager\<close>

definition service_sleep :: "seconds \<Rightarrow> os \<times> sys \<Rightarrow> os \<times> sys" where
  "service_sleep d = (\<lambda>(os, s). (os, s\<lparr>trace := Slept d # trace s\<rparr>))"

definition at_service :: "(os \<times> sys) surroundings \<Rightarrow> (os \<times> sys) surroundings" where
  "at_service env = env\<lparr>stub_of := to_service, asleep := service_sleep\<rparr>"

definition names :: "os \<times> sys \<Rightarrow> string set" where
  "names x = set (keys (instances (snd x)))"

definition lifecycle_free :: "request \<Rightarrow> bool" where
  "lifecycle_free req \<longleftrightarrow> (case req of CreateReq _ _ _ _ \<Rightarrow> False | DestroyReq _ \<Rightarrow> False | _ \<Rightarrow> True)"

lemma at_service_simps [simp]: "stub_of (at_service env) = to_service" "asleep (at_service env) = service_sleep"
  "apk_path (at_service env) = apk_path env" "disk (at_service env) = disk env"
  by (simp_all add: at_service_def)

lemma names_pair [simp]: "names (os, s) = set (keys (instances s))"
  by (simp add: names_def)

lemma good_pair: "good_service (os, s) \<longleftrightarrow> steady_clock os \<and> kill_raises_os_error os \<and> manager_ok s"
  by (simp add: good_service_def)

lemma slept_good [simp]: "good_service (service_sleep d x) = good_service x" "names (service_sleep d x) = names x"
  by (simp_all add: service_sleep_def good_service_def names_def split: prod.split)

text \<open>A call, as the service model answers it.\<close>

lemma call_of_rpc:
  assumes "rpc os req s = Some (a, s')"
  shows "to_service (service_name @ ''/'' @ method_of req) req t (os, s) =
    Some (case a of Replied x \<Rightarrow> Inr x | Failed c d \<Rightarrow> Inl (Status c d) | Crashed e \<Rightarrow> Inl (Unhandled e), os, s')"
  using assms by (cases a) (simp_all only: to_service_rpc option.case prod.case reply.case)

lemma method_run:
  assumes "rpc os req s = Some (a, s')" "remote st = (os, s)"
  shows "service_method to_service (method_of req) req st =
    Some (case a of Replied x \<Rightarrow> Inr x | Failed c d \<Rightarrow> Inl (Rpc_error (Status c d)) | Crashed e \<Rightarrow> Inl (Rpc_error (Unhandled e)),
      st\<lparr>remote := (os, s')\<rparr>)"
  using call_of_rpc [OF assms(1), of 0] assms(2)
  by (cases a) (simp_all add: service_method_def call_def service_name_def)

lemma rpc_kept:
  assumes "manager_ok s" "lifecycle_free req" "rpc os req s = Some (a, s')"
  shows "manager_ok s' \<and> set (keys (instances s')) = set (keys (instances s))"
proof -
  have "keeps os (set (keys (instances s)), ports s) (handle req)"
    using assms(2) by (intro keeps_handlers) (auto simp: lifecycle_free_def)
  with assms(1,3) show ?thesis
    by (auto simp: rpc_def keeps_def inv_on_def dest!: tripleD [where s = "s\<lparr>rpc_status := None\<rparr>"] split: option.splits simp del: set_map)
qed

interpretation at: steady_service "at_service env" good_service "\<lambda>_. True" for env
proof
  fix x req
  assume "good_service x"
  then show "\<exists>a x'. stub_of (at_service env) (service_name @ ''/'' @ method_of req) req t x = Some (a, x') \<and> good_service x'" for t
    using manager.answered [of x req t] by auto
qed simp

interpretation kept: steady_service "at_service env" "\<lambda>x. good_service x \<and> names x = K" lifecycle_free for env K
proof
  fix x req t
  assume x: "good_service x \<and> names x = K" and free: "lifecycle_free req"
  obtain os s where os: "x = (os, s)" by (cases x)
  with x obtain a s' where a: "rpc os req s = Some (a, s')" using rpc_returns by (force simp: good_pair)
  with x os free rpc_kept [of s req os a s'] have "good_service (os, s') \<and> names (os, s') = K" by (auto simp: good_pair)
  with call_of_rpc [OF a, of t] os
  show "\<exists>a x'. stub_of (at_service env) (service_name @ ''/'' @ method_of req) req t x = Some (a, x') \<and> good_service x' \<and> names x' = K"
    by (simp del: names_pair)
qed simp

lemma destroy_removes:
  assumes "good_service (os, s)"
  shows "\<exists>a s'. rpc os (DestroyReq name) s = Some (a, s') \<and> good_service (os, s') \<and> names (os, s') = names (os, s) - {name}"
proof -
  from assms have ok: "manager_ok s" and clock: "steady_clock os" "kill_raises_os_error os" by (simp_all add: good_pair)
  from rpc_returns [OF clock(1)] obtain a s' where a: "rpc os (DestroyReq name) s = Some (a, s')" by blast
  have "set (keys (instances s')) = set (keys (instances s)) - {name}"
  proof (cases "dict_get (instances s) name")
    case None
    with missing_refused [of name s os] a show ?thesis by (auto simp: dict_get_None_iff)
  next
    case (Some r)
    from DestroyInstance_effect [OF ok Some a] obtain new i where
      "s' = s\<lparr>instances := dict_pop name (instances s), tracked := dict_pop name (tracked s),
         ports := (ports s)\<lparr>used_slots := used_slots (ports s) - {i}\<rparr>, rpc_status := None, trace := new @ trace s\<rparr>" by metis
    then show ?thesis by (auto simp: delete_keys image_iff)
  qed
  moreover have "good_service (os, s')"
    using rpc_keeps_manager_ok [OF clock(2) ok a] clock by (simp add: good_pair)
  ultimately show ?thesis using a by simp
qed

lemma teardown_removes:
  assumes "good_service (remote st)"
  shows "\<exists>st'. tearDownClass (at_service env) name st = Some (Inr (), st') \<and> good_service (remote st') \<and>
    names (remote st') = names (remote st) - {name}"
proof -
  obtain os s where os: "remote st = (os, s)" by (cases "remote st")
  from destroy_removes [of os s name] assms os obtain a s' where
    a: "rpc os (DestroyReq name) s = Some (a, s')" and left: "good_service (os, s')" "names (os, s') = names (os, s) - {name}"
    by auto
  have "tearDownClass (at_service env) name st = Some (Inr (), st\<lparr>remote := (os, s')\<rparr>)"
    using method_run [OF a os] by (cases a)
      (simp_all add: tearDownClass_def rescue_def chain_def destroy_instance_def pure_def)
  with left os show ?thesis by simp
qed

lemma create_names:
  assumes "kill_raises_os_error os" "steady_clock os" "manager_ok s" "rpc os (CreateReq name avd snapshot head) s = Some (a, s')"
  shows "set (keys (instances s')) = (case a of Replied _ \<Rightarrow> insert name (set (keys (instances s))) | _ \<Rightarrow> set (keys (instances s)))"
proof (cases "create_refusal s name avd snapshot")
  case None
  from create_admitted [OF assms(1,3) None assms(4)] show ?thesis
    by (elim disjE exE conjE) (simp_all add: added_def same_manager_def)
next
  case (Some cd)
  with refused_run [where s = s and req = "CreateReq name avd snapshot head" and os = os] assms(4) show ?thesis
    by (cases cd) (auto simp: refusal_def)
qed

lemma keepingD: "keeping P m \<Longrightarrow> P (remote st) \<Longrightarrow> \<exists>r st'. m st = Some (r, st') \<and> P (remote st')"
  by (simp add: keeping_def)

lemma chain_run: "m st = Some (Inr x, st') \<Longrightarrow> chain m f st = f x st'"
  by (simp add: chain_def)

lemma chain_stop: "m st = Some (Inl e, st') \<Longrightarrow> chain m f st = Some (Inl e, st')"
  by (simp add: chain_def)

lemma setUp_outcome:
  assumes "good_service (remote st)"
    and os: "remote st = (os, s)"
  shows "\<exists>a s1 r st'. rpc os (CreateReq name [] [] False) s = Some (a, s1) \<and>
    setUpClass (at_service env) name st = Some (r, st') \<and> good_service (remote st') \<and>
    (case a of
       Replied _ \<Rightarrow> name \<in> names (remote st')
     | _ \<Rightarrow> r = Inl skip_test \<and> names (remote st') = names (os, s))"
proof -
  from os assms have ok: "manager_ok s" and clock: "steady_clock os" "kill_raises_os_error os" by (simp_all add: good_pair)
  from rpc_returns [OF clock(1)] obtain a s' where a: "rpc os (CreateReq name [] [] False) s = Some (a, s')" by blast
  from rpc_keeps_manager_ok [OF clock(2) ok a] clock have good: "good_service (os, s')" by (simp add: good_pair)
  note created = create_names [OF clock(2,1) ok a]
  note run = method_run [OF a os, simplified]
  show ?thesis
  proof (cases a)
    case (Replied x)
    let ?rest = "if apk_path env \<noteq> []
     then chain (read_bytes_of (disk env) (apk_path env)) (\<lambda>apk_data.
       chain (client_install_apk to_service name apk_data True) (\<lambda>_.
       seq (launch_vanpilot_via_dhu (at_service env) name)
       (pause (at_service env) render_settle_time)))
     else pure ()"
    let ?K = "names (os, s')"
    have "keeping (\<lambda>x. good_service x \<and> names x = ?K) ?rest"
      using kept.keeping_requests(3) [where env = env] kept.keeping_launch [where env = env] kept.keeping_pause [where env = env]
      by (intro keeping_intros) (simp_all add: lifecycle_free_def del: names_pair)
    from keepingD [OF this, of "st\<lparr>remote := (os, s')\<rparr>"] good obtain r st' where "?rest (st\<lparr>remote := (os, s')\<rparr>) = Some (r, st')" "good_service (remote st')" "names (remote st') = ?K"
      by (auto simp del: names_pair)
    moreover have "setUpClass (at_service env) name st = ?rest (st\<lparr>remote := (os, s')\<rparr>)"
      unfolding setUpClass_def using run Replied
      by (subst chain_run [where x = x and st' = "st\<lparr>remote := (os, s')\<rparr>"]) (simp_all add: create_instance_def rescue_def)
    moreover have "name \<in> ?K" using created Replied by simp
    ultimately show ?thesis using a Replied by auto
  next
    case (Failed c d)
    with run created a good show ?thesis
      by (simp add: setUpClass_def create_instance_def rescue_def chain_stop stop_with_def)
  next
    case (Crashed e)
    with run created a good show ?thesis
      by (simp add: setUpClass_def create_instance_def rescue_def chain_stop stop_with_def)
  qed
qed

text \<open>
  C21. What a golden test class leaves behind in the instance manager.  The run always ends.  If the
  instance cannot be created, the class is skipped and there are the same instances as before.  If it is
  created and the set-up completes, all tests run and afterwards the instance is gone, whatever the tests
  did and however they ended.  But if the set-up fails after the creation (the APK cannot be read or
  installed, the app cannot be launched), no tear-down runs and the instance stays, with its emulator.
\<close>

theorem test_class_instance:
  assumes "steady_clock os" "kill_raises_os_error os" "manager_ok s" "remote st = (os, s)"
    and "\<forall>t \<in> set tests. keeping good_service t"
  shows "\<exists>a s1 r st'. rpc os (CreateReq name [] [] False) s = Some (a, s1) \<and>
    run_class (at_service env) name tests st = Some (r, st') \<and> good_service (remote st') \<and>
    (case a of
       Replied _ \<Rightarrow> (case r of
           Inr results \<Rightarrow> length results = length tests \<and> name \<notin> names (remote st')
         | Inl e \<Rightarrow> name \<in> names (remote st'))
     | _ \<Rightarrow> r = Inl skip_test \<and> names (remote st') = names (os, s))"
proof -
  have "good_service (remote st)" using assms(1-4) by (simp add: good_pair)
  from setUp_outcome [OF this assms(4), of name env] obtain a s1 r st1 where a: "rpc os (CreateReq name [] [] False) s = Some (a, s1)"
    and up: "setUpClass (at_service env) name st = Some (r, st1)" "good_service (remote st1)"
      "case a of Replied _ \<Rightarrow> name \<in> names (remote st1) | _ \<Rightarrow> r = Inl skip_test \<and> names (remote st1) = names (os, s)" by blast
  show ?thesis
  proof (cases r)
    case (Inl e)
    with up have "run_class (at_service env) name tests st = Some (Inl e, st1)" by (simp add: run_class_def chain_stop)
    with a up Inl show ?thesis by (cases a) (auto simp del: names_pair)
  next
    case (Inr u)
    from keeping_tests [OF assms(5) up(2)] obtain rs st2 where tests: "run_tests tests st1 = Some (rs, st2)" "good_service (remote st2)"
      by blast
    have "length rs = length ts" if "run_tests ts st' = Some (rs, st'')" for ts rs and st' st'' :: "(os \<times> sys) session"
      using that by (induction ts arbitrary: st' rs) (auto split: option.splits prod.splits)
    with tests have "length rs = length tests" by blast
    moreover from teardown_removes [OF tests(2), of env name] obtain st3 where
      down: "tearDownClass (at_service env) name st2 = Some (Inr (), st3)" "good_service (remote st3)"
      "names (remote st3) = names (remote st2) - {name}" by blast
    moreover have "run_class (at_service env) name tests st = Some (Inr rs, st3)"
      using up(1) Inr tests(1) down(1) by (simp add: run_class_def chain_run pure_def)
    ultimately show ?thesis using a up(3) Inr by (cases a) auto
  qed
qed

text \<open>The test of the DHU screenshot against the committed golden (\<^verbatim>\<open>test_instance_golden.py\<close>).\<close>

definition dhu_golden_comparison :: "'s surroundings \<Rightarrow> string \<Rightarrow> string \<Rightarrow> ('s, unit) action" where
  "dhu_golden_comparison env name golden_path =
     chain (capture_dhu_screenshot env name) (\<lambda>png. assert_matches_golden env png golden_path)"

lemma screenshot_run:
  assumes "rpc os (ScreenshotReq name) s = Some (Replied (ScreenshotInstanceResponse dhu emu t), s')" "remote st = (os, s)"
  shows "screenshot_instance to_service name st = Some (Inr (ScreenshotInstanceResponse dhu emu t), st\<lparr>remote := (os, s')\<rparr>)"
  using method_run [OF assms] by (simp add: screenshot_instance_def)

lemma save_output_run:
  assumes "\<forall>p. file_write (disk env) p = None" "\<forall>d. makedirs_error env d = None"
  obtains p fs where "save_test_output env name data st = Some (Inr p, st\<lparr>files := files st @ fs\<rparr>)"
proof (cases "outputs_dir env = None \<or> outputs_dir env = Some []")
  case True
  then have "save_test_output env name data st = Some (Inr None, st\<lparr>files := files st @ []\<rparr>)"
    by (auto simp: save_test_output_def pure_def)
  then show ?thesis by (rule that)
next
  case False
  then obtain dir where "outputs_dir env = Some dir" "dir \<noteq> []" by auto
  with assms have "save_test_output env name data st =
      Some (Inr (Some (path_join dir name)), st\<lparr>files := files st @ [(path_join dir name, data)]\<rparr>)"
    by (simp add: save_test_output_def save_def chain_def pure_def)
  then show ?thesis by (rule that)
qed

text \<open>With writable outputs the verdict is that of the comparison, and the service is left as it was.\<close>

lemma assert_run:
  assumes "\<forall>p. file_write (disk env) p = None" "\<forall>d. makedirs_error env d = None"
    and "golden_exists env path" "file_read (disk env) path = Inr golden"
    and "compare_golden (deflate env) (inflate env) png golden (golden_tolerance env) = Inr (match, n, diff)"
  shows "\<exists>st'. assert_matches_golden env png path st = Some (if match then Inr () else Inl assertion_failed, st') \<and> remote st' = remote st"
proof -
  obtain p1 f1 where 1: "save_test_output env ''actual.png'' png st = Some (Inr p1, st\<lparr>files := files st @ f1\<rparr>)"
    using save_output_run [OF assms(1,2)] by blast
  let ?st1 = "st\<lparr>files := files st @ f1\<rparr>"
  obtain p2 f2 where 2: "save_test_output env ''golden.png'' golden ?st1 = Some (Inr p2, ?st1\<lparr>files := files ?st1 @ f2\<rparr>)"
    using save_output_run [OF assms(1,2)] by blast
  let ?st2 = "?st1\<lparr>files := files ?st1 @ f2\<rparr>"
  let ?diff = "case diff of Some d \<Rightarrow> if d \<noteq> [] then save_test_output env ''diff.png'' d else pure None | None \<Rightarrow> pure None"
  have "\<exists>p3 st3. ?diff ?st2 = Some (Inr p3, st3) \<and> remote st3 = remote st"
  proof (cases "diff = None \<or> diff = Some []")
    case False
    then obtain d where d: "diff = Some d" "d \<noteq> []" by auto
    obtain p3 f3 where "save_test_output env ''diff.png'' d ?st2 = Some (Inr p3, ?st2\<lparr>files := files ?st2 @ f3\<rparr>)"
      using save_output_run [OF assms(1,2)] by blast
    with d show ?thesis by simp
  qed (auto simp: pure_def)
  then obtain p3 st3 where 3: "?diff ?st2 = Some (Inr p3, st3)" "remote st3 = remote st" by blast
  have read: "read_bytes_of (disk env) path st = Some (Inr golden, st)"
    using assms(4) by (simp add: read_bytes_of_def pure_def)
  have cmp: "of_sum (compare_golden (deflate env) (inflate env) png golden (golden_tolerance env)) ?st2 = Some (Inr (match, n, diff), ?st2)"
    using assms(5) by (simp add: of_sum_def pure_def)
  have "assert_matches_golden env png path st = (if \<not> match then stop_with assertion_failed else pure ()) st3"
    unfolding assert_matches_golden_def
    by (simp only: assms(3) simp_thms if_False prod.case
      chain_run [where m = "read_bytes_of (disk env) path" and st = st, OF read]
      chain_run [where m = "save_test_output env ''actual.png'' png" and st = st, OF 1]
      chain_run [where m = "save_test_output env ''golden.png'' golden" and st = ?st1, OF 2]
      chain_run [where m = "of_sum (compare_golden (deflate env) (inflate env) png golden (golden_tolerance env))" and st = ?st2, OF cmp]
      chain_run [where m = ?diff and st = ?st2, OF 3(1)])
  with 3(2) show ?thesis by (simp add: stop_with_def pure_def)
qed

definition panes_agree :: "int \<Rightarrow> nat \<Rightarrow> nat \<Rightarrow> pixel list \<Rightarrow> nat \<Rightarrow> nat \<Rightarrow> pixel list \<Rightarrow> bool" where
  "panes_agree tolerance w h px gw gh gs \<longleftrightarrow>
     (let pw = crop_width 76 1908 w; ph = crop_width 12 1068 h
      in pw = gw \<and> ph = gh \<and>
         (\<forall>y < ph. \<forall>x < pw. largest_gap (px ! ((clamp 12 h + y) * w + (clamp 76 w + x))) (gs ! (y * pw + x)) \<le> tolerance))"

lemma crop_matches:
  assumes z: "zlib_ok compress decompress"
    and px: "read_png_pixels decompress dhu = Inr (w, h, px)"
    and gs: "read_png_pixels decompress golden = Inr (gw, gh, gs)"
    and crop: "crop_to_app_pane compress decompress dhu 76 12 1908 1068 = Inr png"
    and cmp: "compare_golden compress decompress png golden tolerance = Inr (match, n, diff)"
  shows "match \<longleftrightarrow> panes_agree tolerance w h px gw gh gs"
proof -
  let ?w = "crop_width 76 1908 w" and ?h = "crop_width 12 1068 h"
  let ?f = "\<lambda>y x. px ! ((clamp 12 h + y) * w + (clamp 76 w + x))"
  let ?as = "concat (map (\<lambda>y. map (?f y) [0..<?w]) [0..<?h])"
  have "match \<longleftrightarrow> ?w = gw \<and> ?h = gh \<and> (\<forall>i < ?h * ?w. \<not> pixel_differs tolerance (?as ! i) (gs ! i))"
    by (rule compare_golden_cases [OF z crop_pixels [OF z px crop] gs cmp, THEN conjunct1])
  moreover have "(\<forall>i < ?h * ?w. \<not> pixel_differs tolerance (?as ! i) (gs ! i)) \<longleftrightarrow>
      (\<forall>y < ?h. \<forall>x < ?w. \<not> pixel_differs tolerance (?f y x) (gs ! (y * ?w + x)))" (is "?L \<longleftrightarrow> ?R")
  proof
    assume L: ?L
    show ?R
    proof (intro allI impI)
      fix y x assume yx: "y < ?h" "x < ?w"
      then have "y * ?w + x < Suc y * ?w" by simp
      also have "\<dots> \<le> ?h * ?w" using yx(1) by (intro mult_le_mono1) simp
      finally show "\<not> pixel_differs tolerance (?f y x) (gs ! (y * ?w + x))"
        using L nth_concat_rows [OF yx, of ?f] by metis
    qed
  next
    assume R: ?R
    show ?L
    proof (intro allI impI)
      fix i assume i: "i < ?h * ?w"
      then have w: "0 < ?w" by (cases "?w") auto
      from i have yx: "i div ?w < ?h" "i mod ?w < ?w" using w by (simp_all add: less_mult_imp_div_less)
      from R yx have "\<not> pixel_differs tolerance (?f (i div ?w) (i mod ?w)) (gs ! (i div ?w * ?w + i mod ?w))" by blast
      then show "\<not> pixel_differs tolerance (?as ! i) (gs ! i)"
        using nth_concat_rows [OF yx, of ?f] unfolding div_mult_mod_eq by (simp only: simp_thms)
    qed
  qed
  ultimately have "match \<longleftrightarrow> ?w = gw \<and> ?h = gh \<and> (\<forall>y < ?h. \<forall>x < ?w. \<not> pixel_differs tolerance (?f y x) (gs ! (y * ?w + x)))"
    by (rule trans [OF _ arg_cong [where f = "\<lambda>X. ?w = gw \<and> ?h = gh \<and> X"]])
  then show ?thesis unfolding panes_agree_def Let_def pixel_differs_gap not_less .
qed

text \<open>
  C22. A golden test judges what the DHU shows.  If the service answers with a screenshot, the golden can
  be read and the images can be processed, the test passes exactly when the golden is as large as the app
  pane (the rectangle from 76, 12 to 1908, 1068, cut off at the screenshot's edges) and no pixel of the pane
  differs from the golden's by more than the tolerance; what is outside the pane does not matter.
  Otherwise the assertion fails.  The service is asked once.
\<close>

theorem golden_test_verdict:
  assumes "rpc os (ScreenshotReq name) s = Some (Replied (ScreenshotInstanceResponse dhu emu t), s')" "remote st = (os, s)"
    and "zlib_ok (deflate env) (inflate env)"
    and "\<forall>p. file_write (disk env) p = None" "\<forall>d. makedirs_error env d = None"
    and "golden_exists env path" "file_read (disk env) path = Inr golden"
    and "read_png_pixels (inflate env) dhu = Inr (w, h, px)" "read_png_pixels (inflate env) golden = Inr (gw, gh, gs)"
    and "crop_to_app_pane (deflate env) (inflate env) dhu 76 12 1908 1068 = Inr png"
    and "compare_golden (deflate env) (inflate env) png golden (golden_tolerance env) = Inr (match, n, diff)"
  shows "\<exists>st'. dhu_golden_comparison (at_service env) name path st =
      Some (if panes_agree (golden_tolerance env) w h px gw gh gs then Inr () else Inl assertion_failed, st') \<and>
    remote st' = (os, s')"
proof -
  have env: "deflate (at_service env) = deflate env" "inflate (at_service env) = inflate env"
    "golden_tolerance (at_service env) = golden_tolerance env" "golden_exists (at_service env) = golden_exists env"
    "makedirs_error (at_service env) = makedirs_error env"
    by (simp_all add: at_service_def)
  have "capture_dhu_screenshot (at_service env) name st = Some (Inr png, st\<lparr>remote := (os, s')\<rparr>)"
    unfolding capture_dhu_screenshot_def at_service_simps env
    by (subst chain_run [where m = "screenshot_instance to_service name" and st = st, OF screenshot_run [OF assms(1,2)]])
      (simp add: assms(10) of_sum_def pure_def)
  moreover have "match \<longleftrightarrow> panes_agree (golden_tolerance env) w h px gw gh gs"
    by (rule crop_matches [OF assms(3,8,9,10,11)])
  ultimately show ?thesis
    using assert_run [of "at_service env" path golden png match n diff "st\<lparr>remote := (os, s')\<rparr>"] assms(4-7,11)
    by (simp add: dhu_golden_comparison_def chain_run env)
qed

section \<open>Samples\<close>

text \<open>The sample operating system on which every file is a given image.\<close>

definition png_os :: "bytes \<Rightarrow> os" where
  "png_os png = sample_os\<lparr>bytes_of := (\<lambda>h p. Inr png)\<rparr>"

lemma png_os_simps [simp]: "exists_of (png_os png) h p = True" "size_of (png_os png) h p = Inr 3" "bytes_of (png_os png) h p = Inr png"
  "clock_of (png_os png) = time_slept" "run_of (png_os png) h a t = Inr \<lparr>returncode = 0, stdout = ''1'', stderr = []\<rparr>"
  "pipe_write_of (png_os png) h p c = Inr ()"
  by (simp_all add: png_os_def sample_os_def)

lemma take_first:
  "until_deadline 5 (take_or_sleep p) (png_os png) s =
     Some (Inr (Some png), s\<lparr>trace := [ReadBytes p, AskedSize p, AskedExists p, ReadClock, ReadClock] @ trace s\<rparr>)"
proof -
  have "deadline_step (time_slept (trace s) + 5) (take_or_sleep p) (png_os png) (s\<lparr>trace := ReadClock # trace s\<rparr>) =
      Some (Inr (Some (Some png)), s\<lparr>trace := [ReadBytes p, AskedSize p, AskedExists p, ReadClock, ReadClock] @ trace s\<rparr>)"
    by (simp add: deadline_step_def take_or_sleep_def take_file_def prog_defs)
  then show ?thesis
    by (simp add: until_deadline_def bind_run time_time_def ask_def again.simps)
qed

lemma png_screenshot:
  "\<exists>t s'. rpc (png_os png) (ScreenshotReq ''phone'') sample_manager = Some (Replied (ScreenshotInstanceResponse png png t), s')"
proof -
  have "running_refusal (sample_manager\<lparr>rpc_status := None\<rparr>) ''phone'' = None"
    by (simp add: running_refusal_def) (simp add: sample_record_def)
  then show ?thesis
    by (simp add: rpc_def ScreenshotInstance_def running_run)
     (simp add: or_internal_def catch_run bind_run screenshot_def screenshot_to_bytes_def emulator_screenshot_to_bytes_def rm_f_def take_first Let_def
      run_within_def pipe_write_def ask_def return_def reply_of_def
       time_time_def sample_record_def store_update_def on_store_def)
qed

definition sample_surroundings :: "(string \<Rightarrow> bytes result) \<Rightarrow> (os \<times> sys) surroundings" where
  "sample_surroundings read = \<lparr>stub_of = to_service, asleep = service_sleep, apk_path = [], golden_tolerance = 5,
     outputs_dir = Some ''/tmp/out'', makedirs_error = (\<lambda>d. None), golden_exists = (\<lambda>p. True),
     disk = \<lparr>file_read = read, file_write = (\<lambda>p. None)\<rparr>, deflate = stored, inflate = Some\<rparr>"

definition session_at :: "os \<Rightarrow> sys \<Rightarrow> (os \<times> sys) session" where
  "session_at os s = \<lparr>out = [], err = [], files = [], remote = (os, s)\<rparr>"

theorem test_class_instance_witness:
  "\<exists>a s1 r st'. rpc sample_os (CreateReq ''golden-dhu'' [] [] False) (create_manager 8) = Some (a, s1) \<and>
    run_class (at_service (sample_surroundings (\<lambda>p. Inl FileNotFoundError))) ''golden-dhu''
      [chain (screenshot_instance to_service ''golden-dhu'') (\<lambda>_. pure ())] (session_at sample_os (create_manager 8)) = Some (r, st') \<and>
    (case a of
       Replied _ \<Rightarrow> (case r of
           Inr results \<Rightarrow> length results = 1 \<and> ''golden-dhu'' \<notin> names (remote st')
         | Inl e \<Rightarrow> ''golden-dhu'' \<in> names (remote st'))
     | _ \<Rightarrow> r = Inl skip_test \<and> names (remote st') = {})"
proof -
  let ?env = "sample_surroundings (\<lambda>p. Inl FileNotFoundError)"
  let ?tests = "[chain (screenshot_instance to_service ''golden-dhu'') (\<lambda>_. pure ())] :: (os \<times> sys, unit) action list"
  have "\<forall>t \<in> set ?tests. keeping good_service t"
    using at.keeping_requests(1) [where env = ?env and name = "''golden-dhu''"] by (simp add: keeping_intros)
  moreover have "remote (session_at sample_os (create_manager 8)) = (sample_os, create_manager 8)" by (simp add: session_at_def)
  ultimately obtain a s1 r st' where run: "rpc sample_os (CreateReq ''golden-dhu'' [] [] False) (create_manager 8) = Some (a, s1)"
    "run_class (at_service ?env) ''golden-dhu'' ?tests (session_at sample_os (create_manager 8)) = Some (r, st')"
    and left: "case a of
       Replied _ \<Rightarrow> (case r of
           Inr results \<Rightarrow> length results = length ?tests \<and> ''golden-dhu'' \<notin> names (remote st')
         | Inl e \<Rightarrow> ''golden-dhu'' \<in> names (remote st'))
     | _ \<Rightarrow> r = Inl skip_test \<and> names (remote st') = names (sample_os, create_manager 8)"
    using test_class_instance [OF sample_steady sample_kills fresh_manager_ok [of 8], where tests = ?tests and env = ?env
      and name = "''golden-dhu''" and st = "session_at sample_os (create_manager 8)"] by blast
  have "names (sample_os, create_manager 8) = {}" "length ?tests = 1" by (simp_all add: create_manager_def)
  with left have "case a of
       Replied _ \<Rightarrow> (case r of
           Inr results \<Rightarrow> length results = 1 \<and> ''golden-dhu'' \<notin> names (remote st')
         | Inl e \<Rightarrow> ''golden-dhu'' \<in> names (remote st'))
     | _ \<Rightarrow> r = Inl skip_test \<and> names (remote st') = {}" by (simp only:)
  with run show ?thesis by blast
qed

theorem golden_test_verdict_witness:
  "\<exists>dhu golden st'. dhu_golden_comparison (at_service (sample_surroundings (\<lambda>p. Inr golden))) ''phone'' ''dhu.png''
      (session_at (png_os dhu) sample_manager) = Some (Inr (), st') \<and>
    read_png_pixels Some dhu = Inr (78, 13, replicate 1014 (1, 2, 3)) \<and>
    read_png_pixels Some golden = Inr (2, 1, [(1, 2, 3), (4, 5, 6)])"
proof -
  obtain dhu where dhu: "read_png_pixels Some dhu = Inr (78, 13, replicate 1014 (1, 2, 3))"
    using small_png [of 78 13 "replicate 1014 (1, 2, 3)"] by auto
  obtain g where g: "read_png_pixels Some g = Inr (2, 1, [(1, 2, 3), (4, 5, 6)])"
    using small_png [of 2 1 "[(1, 2, 3), (4, 5, 6)]"] by auto
  obtain png where png: "make_png_from_pixels stored (int 2) (int 1) [(1, 2, 3), (1, 2, 3)] = Inr png"
    "read_png_pixels Some png = Inr (2, 1, [(1, 2, 3), (1, 2, 3)])"
    using small_png [of 2 1 "[(1, 2, 3), (1, 2, 3)]"] by auto
  have "[nat 76..<nat 78] = [76, 77]" "[nat 12..<nat 13] = [12]" by (simp_all add: upt_rec)
  then have crop: "crop_to_app_pane stored Some dhu 76 12 1908 1068 = Inr png"
    using png(1) dhu by (simp add: crop_to_app_pane_def)
  have d: "\<not> pixel_differs 5 (1, 2, 3) (1, 2, 3)" "\<not> pixel_differs 5 (1, 2, 3) (4, 5, 6)" by (simp_all add: pixel_differs_def)
  then have cmp: "compare_golden stored Some png g 5 = Inr (True, 0, None)"
    using png(2) g by (simp add: compare_golden_def)
  have "panes_agree 5 78 13 (replicate 1014 (1, 2, 3)) 2 1 [(1, 2, 3), (4, 5, 6)]"
    using d by (simp add: panes_agree_def pixel_differs_gap not_less crop_width_def clamp_def All_less_Suc numeral_2_eq_2)
  moreover obtain t s' where shot: "rpc (png_os dhu) (ScreenshotReq ''phone'') sample_manager = Some (Replied (ScreenshotInstanceResponse dhu dhu t), s')"
    using png_screenshot by blast
  ultimately have "\<exists>st'. dhu_golden_comparison (at_service (sample_surroundings (\<lambda>p. Inr g))) ''phone'' ''dhu.png''
      (session_at (png_os dhu) sample_manager) = Some (Inr (), st')"
    using golden_test_verdict [OF shot, where env = "sample_surroundings (\<lambda>p. Inr g)" and st = "session_at (png_os dhu) sample_manager"
      and path = "''dhu.png''" and golden = g and w = 78 and h = 13 and px = "replicate 1014 (1, 2, 3)" and gw = 2 and gh = 1
      and gs = "[(1, 2, 3), (4, 5, 6)]" and png = png and match = True and n = 0 and diff = None] dhu g crop cmp zlib_ok_stored
    by (simp add: sample_surroundings_def session_at_def) blast
  with dhu g show ?thesis by blast
qed

end
