(* ===== verification/Golden_Capture_All.thy ===== *)
theory Golden_Capture_All
  imports Golden_Harness
begin

text \<open>
  Two scripts of the goldens.  \<^verbatim>\<open>goldens/generate_goldens.py\<close> writes the golden of the display
  of one colour.  \<^verbatim>\<open>goldens/capture_all.py\<close> creates an instance, drives the app through its
  states and saves a screenshot of each.  Three functions that it imports from the harness are not there, so
  it ends when it is loaded; what it would do is modelled with those functions as parameters.
\<close>

section \<open>Loading the script\<close>

text \<open>The names at the top level of \<^verbatim>\<open>golden_test_harness.py\<close>, and \<open>from ... import\<close>.\<close>

definition harness_names :: "string list" where
  "harness_names = [''os'', ''time'', ''unittest'', ''Optional'', ''grpc'', ''instance_manager_pb2'', ''compare_golden'',
     ''crop_to_app_pane'', ''MAX_MESSAGE_BYTES'', ''INSTANCE_MANAGER_ADDR'', ''VANPILOT_APK'', ''GOLDEN_TOLERANCE'',
     ''RENDER_SETTLE_TIME'', ''_service_method'', ''InstanceManagerClient'', ''launch_vanpilot_via_dhu'', ''GoldenTestCase'']"

definition wanted_names :: "string list" where
  "wanted_names = [''InstanceManagerClient'', ''capture_emulator_screenshot'', ''install_apk'', ''launch_vanpilot_app'']"

fun import_from :: "string list \<Rightarrow> string list \<Rightarrow> ('s, unit) action" where
  "import_from available [] = pure ()"
| "import_from available (name # wanted) =
     (if name \<in> set available then import_from available wanted else stop_with (Raises (OtherError ''ImportError'')))"

text \<open>The functions that are missing, and \<open>str(e)\<close> of an exception.\<close>

record 's helpers =
  capture_emulator_screenshot :: "int \<Rightarrow> ('s, bytes) action"
  install_apk_on :: "int \<Rightarrow> string \<Rightarrow> ('s, unit) action"
  launch_vanpilot_app :: "int \<Rightarrow> ('s, unit) action"
  exception_text :: "ending \<Rightarrow> string"

section \<open>Capturing one state\<close>

definition tab_switch_settle :: seconds where "tab_switch_settle = 3"
definition initial_settle :: seconds where "initial_settle = 10"

text \<open>\<open>_send_dhu_command\<close> and \<open>_tap_tab\<close> only print so far.\<close>

definition send_dhu_command :: "int \<Rightarrow> string \<Rightarrow> ('s, unit) action" where
  "send_dhu_command port command = say_line (''  [DHU CMD] '' @ command)"

definition tap_tab :: "int \<Rightarrow> int \<Rightarrow> ('s, unit) action" where
  "tap_tab port tab_index = say_line (''  [TAP] Tab '' @ show_int tab_index)"

text \<open>\<open>except Exception\<close>, which \<open>SystemExit\<close> is not.\<close>

definition on_exception :: "('s, 'a) action \<Rightarrow> (ending \<Rightarrow> ('s, 'a) action) \<Rightarrow> ('s, 'a) action" where
  "on_exception m h = rescue m (\<lambda>e. case e of Exits n \<Rightarrow> stop_with (Exits n) | Raises x \<Rightarrow> h (Raises x) | Rpc_error x \<Rightarrow> h (Rpc_error x))"

definition captured_line :: "string \<Rightarrow> string \<Rightarrow> bytes \<Rightarrow> string" where
  "captured_line source path data =
     ''  Captured ('' @ source @ ''): '' @ path @ '' ('' @ show_int (int (length data)) @ '' bytes)''"

definition capture_state ::
  "'s surroundings \<Rightarrow> 's helpers \<Rightarrow> string \<Rightarrow> int \<Rightarrow> string \<Rightarrow> string \<Rightarrow> seconds \<Rightarrow> ('s, string) action" where
  "capture_state env helpers name port state_name dir settle =
     seq (pause env settle)
     (let path = path_join dir (state_name @ ''.png'')
      in chain (on_exception
           (chain (screenshot_instance (stub_of env) name) (\<lambda>resp. case resp of
              ScreenshotInstanceResponse dhu _ _ \<Rightarrow>
                if dhu \<noteq> [] then seq (save (disk env) path dhu) (seq (say_line (captured_line ''DHU'' path dhu)) (pure True))
                else pure False
            | _ \<Rightarrow> misfit))
           (\<lambda>e. seq (say_line (''  DHU screenshot failed ('' @ exception_text helpers e @ ''), falling back to screencap''))
             (pure False))) (\<lambda>done_already.
         if done_already then pure path
         else chain (capture_emulator_screenshot helpers port) (\<lambda>png_data.
           seq (save (disk env) path png_data)
           (seq (say_line (captured_line ''emu'' path png_data)) (pure path)))))"

section \<open>Capturing all states\<close>

definition capture_instance_name :: string where
  "capture_instance_name = ''golden-capture-all''"

text \<open>\<open>try: m finally: f\<close>\<close>

definition with_cleanup :: "('s, 'a) action \<Rightarrow> ('s, unit) action \<Rightarrow> ('s, 'a) action" where
  "with_cleanup m f = (\<lambda>st. case m st of
       None \<Rightarrow> None
     | Some (r, st') \<Rightarrow> (case f st' of
           None \<Rightarrow> None
         | Some (Inl e, st'') \<Rightarrow> Some (Inl e, st'')
         | Some (Inr _, st'') \<Rightarrow> Some (r, st'')))"

definition set_up_capture :: "'s surroundings \<Rightarrow> 's helpers \<Rightarrow> string \<Rightarrow> ('s, int) action" where
  "set_up_capture env helpers apk =
     seq (say_line (''Creating instance '' @ quote capture_instance_name @ ''...''))
     (chain (create_instance (stub_of env) capture_instance_name False [] []) (\<lambda>resp. case resp of
        CreateInstanceResponse info \<Rightarrow>
          (let port = info_adb_port info
           in seq (say_line (''  Instance created: adb_port='' @ show_int port))
             (seq (if apk \<noteq> []
                then seq (say_line (''Installing APK: '' @ apk))
                  (seq (install_apk_on helpers port apk)
                  (seq (launch_vanpilot_app helpers port)
                  (seq (say_line (''Waiting '' @ ''10'' @ ''s for initial render...''))
                  (pause env initial_settle))))
                else say_line ''WARNING: No APK path provided -- skipping install'')
             (pure port)))
      | _ \<Rightarrow> misfit))"

definition capture_shots :: "'s surroundings \<Rightarrow> 's helpers \<Rightarrow> string \<Rightarrow> int \<Rightarrow> ('s, string list) action" where
  "capture_shots env helpers dir port =
     (let shot = (\<lambda>state settle. capture_state env helpers capture_instance_name port state dir settle)
      in seq (say_line (newline # ''[1/8] Visual Card -- Light Mode (default)''))
      (seq (send_dhu_command port ''day'')
      (chain (shot ''visual_card_light'' initial_settle) (\<lambda>p1.
       seq (say_line (newline # ''[2/8] Visual Card -- Dark Mode''))
      (seq (send_dhu_command port ''night'')
      (chain (shot ''visual_card_dark'' tab_switch_settle) (\<lambda>p2.
       seq (send_dhu_command port ''day'')
      (seq (pause env tab_switch_settle)
      (seq (say_line (newline # ''[3/8] Lead Agent Tab -- populated''))
      (seq (tap_tab port 1)
      (chain (shot ''lead_agent_populated'' tab_switch_settle) (\<lambda>p3.
       seq (say_line (newline # ''[4/8] Sub-Agent Tab -- Researcher''))
      (seq (tap_tab port 2)
      (chain (shot ''sub_agent_researcher'' tab_switch_settle) (\<lambda>p4.
       seq (say_line (newline # ''[5/8] Sub-Agent Tab -- Coder''))
      (seq (tap_tab port 3)
      (chain (shot ''sub_agent_coder'' tab_switch_settle) (\<lambda>p5.
       seq (say_line (newline # ''[6/8] All 4 Tabs -- Visual selected''))
      (seq (tap_tab port 0)
      (chain (shot ''all_tabs_visual_selected'' tab_switch_settle) (\<lambda>p6.
       seq (say_line (newline # ''[7/8] Custom Bitmap Displayed''))
      (seq (say_line ''  SKIPPED -- requires gRPC bitmap injection'')
      (seq (say_line (newline # ''[8/8] Lead Agent -- Dark Mode''))
      (seq (send_dhu_command port ''night'')
      (seq (tap_tab port 1)
      (chain (shot ''lead_agent_dark'' tab_switch_settle) (\<lambda>p7.
       pure [p1, p2, p3, p4, p5, p6, p7])))))))))))))))))))))))))))"

definition tear_down_capture :: "'s surroundings \<Rightarrow> 's helpers \<Rightarrow> ('s, unit) action" where
  "tear_down_capture env helpers =
     seq (say_line (newline # ''Destroying instance '' @ quote capture_instance_name @ ''...''))
     (on_exception (chain (destroy_instance (stub_of env) capture_instance_name) (\<lambda>_. pure ()))
       (\<lambda>e. say_line (''  Warning: destroy failed: '' @ exception_text helpers e)))"

definition make_output_dir :: "'s surroundings \<Rightarrow> string \<Rightarrow> ('s, unit) action" where
  "make_output_dir env dir = (case makedirs_error env dir of Some e \<Rightarrow> stop_with (Raises e) | None \<Rightarrow> pure ())"

definition capture_all_states :: "'s surroundings \<Rightarrow> 's helpers \<Rightarrow> string \<Rightarrow> string \<Rightarrow> ('s, string list) action" where
  "capture_all_states env helpers apk dir =
     with_cleanup
       (chain (set_up_capture env helpers apk) (\<lambda>port.
        seq (make_output_dir env dir)
        (capture_shots env helpers dir port)))
       (tear_down_capture env helpers)"

fun say_paths :: "string list \<Rightarrow> ('s, unit) action" where
  "say_paths [] = pure ()"
| "say_paths (path # paths) = seq (say_line (''  '' @ path)) (say_paths paths)"

text \<open>The whole script, its arguments parsed: loading it, then \<open>main\<close>.\<close>

definition capture_all_script :: "string list \<Rightarrow> 's surroundings \<Rightarrow> 's helpers \<Rightarrow> string \<Rightarrow> string \<Rightarrow> ('s, unit) action" where
  "capture_all_script available env helpers apk dir =
     seq (import_from available wanted_names)
     (chain (capture_all_states env helpers apk dir) (\<lambda>captured.
      let rule_line = replicate 60 (CHR ''='')
      in seq (say_line (newline # rule_line))
      (seq (say_line (''Captured '' @ show_int (int (length captured)) @ '' golden screenshots:''))
      (seq (say_paths captured) (say_line rule_line)))))"

section \<open>Generating the golden of the display\<close>

definition generate_goldens :: "'s surroundings \<Rightarrow> string option \<Rightarrow> string \<Rightarrow> ('s, unit) action" where
  "generate_goldens env build_workspace cwd =
     (let workspace = (case build_workspace of Some dir \<Rightarrow> dir | None \<Rightarrow> cwd);
          phase3_dir = path_join (path_join workspace ''goldens'') ''phase3'';
          path = path_join phase3_dir ''solid_color_surface.png''
      in seq (make_output_dir env phase3_dir)
      (chain (of_sum (make_teal_display (deflate env))) (\<lambda>png.
       seq (save (disk env) path png)
       (say_line (''Generated '' @ path)))))"

text \<open>
  The generated golden is what it stands for: with a directory that can be written, one file is written, under
  \<^verbatim>\<open>goldens/phase3\<close> of the workspace, and the reader of the golden tests finds in it a display of 1024 by 600
  pixels, each of them teal.
\<close>

theorem generated_golden_is_teal:
  assumes "zlib_ok (deflate env) (inflate env)" "make_teal_display (deflate env) = Inr png"
    and "\<forall>p. file_write (disk env) p = None" "\<forall>d. makedirs_error env d = None"
  shows "\<exists>st' path. generate_goldens env (Some dir) cwd st = Some (Inr (), st') \<and>
    path = path_join (path_join (path_join dir ''goldens'') ''phase3'') ''solid_color_surface.png'' \<and>
    files st' = files st @ [(path, png)] \<and> remote st' = remote st \<and>
    read_png_pixels (inflate env) png = Inr (1024, 600, replicate (600 * 1024) (0x1A, 0x8A, 0x7D))"
proof -
  have "make_png (deflate env) (int 1024) (int 600) teal_rgb = Inr png"
    using assms(2) by (simp add: make_teal_display_def display_width_def display_height_def)
  from read_written [OF assms(1) this [unfolded make_png_eq]]
  have "read_png_pixels (inflate env) png = Inr (1024, 600, replicate (600 * 1024) (0x1A, 0x8A, 0x7D))"
    by (simp only: nat_int take_all length_replicate order_refl teal_rgb_def)
  then show ?thesis
    using assms(2-4)
    by (simp add: generate_goldens_def make_output_dir_def Let_def chain_def pure_def of_sum_def save_def say_def)
qed

section \<open>What it leaves behind\<close>

lemma keeping_say [keeping_intros]: "keeping P (say p)"
  by (simp add: keeping_def say_def)

lemma keeping_on_exception [keeping_intros]:
  "keeping P m \<Longrightarrow> (\<And>e. keeping P (h e)) \<Longrightarrow> keeping P (on_exception m h)"
  unfolding on_exception_def by (intro keeping_intros)

lemma keeping_output_dir [keeping_intros]: "keeping P (make_output_dir env dir)"
  unfolding make_output_dir_def by (intro keeping_intros)

definition helpers_keep :: "('s \<Rightarrow> bool) \<Rightarrow> 's helpers \<Rightarrow> bool" where
  "helpers_keep P h \<longleftrightarrow> (\<forall>port apk. keeping P (capture_emulator_screenshot h port) \<and> keeping P (install_apk_on h port apk) \<and>
     keeping P (launch_vanpilot_app h port))"

definition state_names_captured :: "string list" where
  "state_names_captured = [''visual_card_light'', ''visual_card_dark'', ''lead_agent_populated'', ''sub_agent_researcher'',
     ''sub_agent_coder'', ''all_tabs_visual_selected'', ''lead_agent_dark'']"

text \<open>What an action returns when it does not raise.\<close>

definition yielding :: "('s, 'a) action \<Rightarrow> ('a \<Rightarrow> bool) \<Rightarrow> bool" where
  "yielding m Q \<longleftrightarrow> (\<forall>st x st'. m st = Some (Inr x, st') \<longrightarrow> Q x)"

lemma yielding_pure: "Q x \<Longrightarrow> yielding (pure x) Q"
  by (simp add: yielding_def pure_def)

lemma yielding_stop: "yielding (stop_with e) Q"
  by (simp add: yielding_def stop_with_def)

lemma yielding_chain: "yielding m R \<Longrightarrow> (\<And>x. R x \<Longrightarrow> yielding (f x) Q) \<Longrightarrow> yielding (chain m f) Q"
  unfolding yielding_def chain_def by (fastforce split: option.splits sum.splits)

lemma yielding_seq: "(\<And>x. yielding (f x) Q) \<Longrightarrow> yielding (chain m f) Q"
  by (rule yielding_chain [where R = "\<lambda>_. True"]) (simp_all add: yielding_def)

lemma yielding_if: "yielding m Q \<Longrightarrow> yielding n Q \<Longrightarrow> yielding (if b then m else n) Q"
  by simp

lemma capture_state_path:
  "yielding (capture_state env helpers name port state dir settle) (\<lambda>p. p = path_join dir (state @ ''.png''))"
  unfolding capture_state_def Let_def
  by (intro yielding_seq yielding_if yielding_pure refl)

lemma capture_shots_paths:
  "yielding (capture_shots env helpers dir port) (\<lambda>ps. ps = map (\<lambda>n. path_join dir (n @ ''.png'')) state_names_captured)"
proof -
  have shot: "yielding (chain (capture_state env helpers name port state dir settle) f) Q"
    if "yielding (f (path_join dir (state @ ''.png''))) Q" for name port state settle and f :: "string \<Rightarrow> ('a, string list) action" and Q
    by (rule yielding_chain [OF capture_state_path]) (use that in simp)
  show ?thesis
    unfolding capture_shots_def Let_def send_dhu_command_def tap_tab_def
    by (rule yielding_seq shot)+ (rule yielding_pure, simp add: state_names_captured_def)
qed

section \<open>At the instance manager\<close>

text \<open>The instances but the one of the script, and the requests that leave these alone.\<close>

definition others :: "os \<times> sys \<Rightarrow> string set" where
  "others x = names x - {capture_instance_name}"

definition about_capture :: "request \<Rightarrow> bool" where
  "about_capture req \<longleftrightarrow> lifecycle_free req \<or> req = CreateReq capture_instance_name [] [] False \<or> req = DestroyReq capture_instance_name"

lemma capture_request_keeps:
  assumes "good_service (os, s)" "about_capture req"
  shows "\<exists>a s'. rpc os req s = Some (a, s') \<and> good_service (os, s') \<and> others (os, s') = others (os, s)"
proof -
  from assms(1) have ok: "manager_ok s" and clock: "steady_clock os" "kill_raises_os_error os" by (simp_all add: good_pair)
  from rpc_returns [OF clock(1)] obtain a s' where a: "rpc os req s = Some (a, s')" by blast
  have "good_service (os, s')" using rpc_keeps_manager_ok [OF clock(2) ok a] clock by (simp add: good_pair)
  moreover have "others (os, s') = others (os, s)"
    using assms(2) unfolding about_capture_def
  proof (elim disjE)
    assume "lifecycle_free req"
    with rpc_kept [OF ok _ a] show ?thesis by (simp add: others_def)
  next
    assume "req = CreateReq capture_instance_name [] [] False"
    with a create_names [OF clock(2,1) ok] show ?thesis by (auto simp: others_def split: reply.splits)
  next
    assume "req = DestroyReq capture_instance_name"
    with a destroy_removes [OF assms(1), of capture_instance_name] show ?thesis by (auto simp: others_def simp del: names_pair)
  qed
  ultimately show ?thesis using a by blast
qed

interpretation capturing: steady_service "at_service env" "\<lambda>x. good_service x \<and> others x = K" about_capture for env K
proof
  fix x req t
  assume x: "good_service x \<and> others x = K" and req: "about_capture req"
  obtain os s where os: "x = (os, s)" by (cases x)
  with x req capture_request_keeps [of os s req] obtain a s' where
    a: "rpc os req s = Some (a, s')" and kept: "good_service (os, s')" "others (os, s') = K" by auto
  with call_of_rpc [OF a, of t] os
  show "\<exists>a x'. stub_of (at_service env) (service_name @ ''/'' @ method_of req) req t x = Some (a, x') \<and> good_service x' \<and> others x' = K"
    by simp
qed (simp add: others_def del: names_pair)

text \<open>Helpers that do not touch the manager, as adb does not.\<close>

definition local_helpers :: "(os \<times> sys) helpers \<Rightarrow> bool" where
  "local_helpers h \<longleftrightarrow> (\<forall>K. helpers_keep (\<lambda>x. good_service x \<and> names x = K) h)"

lemma keeping_others:
  "(\<And>K. keeping (\<lambda>x. good_service x \<and> names x = K) m) \<Longrightarrow> keeping (\<lambda>x. good_service x \<and> others x = K) m"
  unfolding keeping_def others_def by metis

lemma local_helpers_keep:
  "local_helpers h \<Longrightarrow> keeping (\<lambda>x. good_service x \<and> others x = K) (capture_emulator_screenshot h port)"
  "local_helpers h \<Longrightarrow> keeping (\<lambda>x. good_service x \<and> others x = K) (install_apk_on h port apk)"
  "local_helpers h \<Longrightarrow> keeping (\<lambda>x. good_service x \<and> others x = K) (launch_vanpilot_app h port)"
  by (rule keeping_others, simp add: local_helpers_def helpers_keep_def)+

lemma keeping_create_response [keeping_intros]:
  "(\<And>i. keeping P (f i)) \<Longrightarrow> keeping P m \<Longrightarrow> keeping P (case resp of CreateInstanceResponse i \<Rightarrow> f i | _ \<Rightarrow> m)"
  by (simp split: response.split)

lemma about_capture_requests: "about_capture (ScreenshotReq name)" "about_capture (CreateReq capture_instance_name [] [] False)"
  "about_capture (DestroyReq capture_instance_name)"
  by (simp_all add: about_capture_def lifecycle_free_def)

lemma capture_body_keeps:
  assumes "local_helpers h"
  shows "keeping (\<lambda>x. good_service x \<and> others x = K)
    (chain (set_up_capture (at_service env) h apk) (\<lambda>port.
        seq (make_output_dir (at_service env) dir) (capture_shots (at_service env) h dir port)))"
  using capturing.keeping_requests(1,5) [where env = env and K = K] capturing.keeping_pause [where env = env and K = K]
  unfolding set_up_capture_def capture_shots_def capture_state_def Let_def send_dhu_command_def tap_tab_def
  by (intro keeping_intros local_helpers_keep assms) (simp_all add: about_capture_requests)

lemma tear_down_capture_run:
  assumes "good_service (remote st)"
  shows "\<exists>st'. tear_down_capture (at_service env) h st = Some (Inr (), st') \<and> good_service (remote st') \<and>
    names (remote st') = others (remote st)"
proof -
  obtain os s where os: "remote st = (os, s)" by (cases "remote st")
  let ?line = "Line (newline # ''Destroying instance '' @ quote capture_instance_name @ ''...'')"
  from destroy_removes [of os s capture_instance_name] assms os obtain a s' where
    a: "rpc os (DestroyReq capture_instance_name) s = Some (a, s')"
    and left: "good_service (os, s')" "names (os, s') = others (os, s)" by (auto simp: others_def)
  have "remote (st\<lparr>out := out st @ [?line]\<rparr>) = (os, s)" using os by simp
  note run = method_run [OF a this, simplified]
  have "\<exists>st'. tear_down_capture (at_service env) h st = Some (Inr (), st') \<and> remote st' = (os, s')"
    using run by (cases a)
      (simp_all add: tear_down_capture_def say_def on_exception_def rescue_def chain_def destroy_instance_def pure_def)
  with left os show ?thesis by auto
qed

text \<open>
  C23. The script that captures all states. As the harness stands it ends with an \<open>ImportError\<close> when it is
  loaded, before it has done anything. Were the functions there, its work would always end, leave
  no instance of its own behind, however it ends, and all others alone, and return the seven paths in their
  order; and as the cleaning up does not ask who has created the instance, one of that name that was there
  before is destroyed as well, also when the creation is refused because of it.
\<close>

theorem capture_all_outcome:
  assumes "good_service (remote st)" "local_helpers h"
  shows "capture_all_script harness_names (at_service env) h apk dir st = Some (Inl (Raises (OtherError ''ImportError'')), st) \<and>
    (\<exists>r st'. capture_all_states (at_service env) h apk dir st = Some (r, st') \<and> good_service (remote st') \<and>
       names (remote st') = names (remote st) - {capture_instance_name} \<and>
       (case r of Inl _ \<Rightarrow> True | Inr paths \<Rightarrow> paths = map (\<lambda>n. path_join dir (n @ ''.png'')) state_names_captured))"
proof
  show "capture_all_script harness_names (at_service env) h apk dir st = Some (Inl (Raises (OtherError ''ImportError'')), st)"
    by (simp add: capture_all_script_def harness_names_def wanted_names_def chain_def stop_with_def)
  let ?body = "chain (set_up_capture (at_service env) h apk) (\<lambda>port.
        seq (make_output_dir (at_service env) dir) (capture_shots (at_service env) h dir port))"
  from keepingD [OF capture_body_keeps [OF assms(2), where K = "others (remote st)" and env = env and apk = apk and dir = dir], of st] assms(1) obtain r st1 where
    body: "?body st = Some (r, st1)" "good_service (remote st1)" "others (remote st1) = others (remote st)" by auto
  from tear_down_capture_run [OF body(2), of env h] obtain st2 where
    down: "tear_down_capture (at_service env) h st1 = Some (Inr (), st2)" "good_service (remote st2)"
      "names (remote st2) = others (remote st1)" by blast
  have "capture_all_states (at_service env) h apk dir st = Some (r, st2)"
    by (simp add: capture_all_states_def with_cleanup_def body(1) down(1))
  moreover have "yielding ?body (\<lambda>ps. ps = map (\<lambda>n. path_join dir (n @ ''.png'')) state_names_captured)"
    by (intro yielding_seq capture_shots_paths)
  with body(1) have "case r of Inl _ \<Rightarrow> True | Inr paths \<Rightarrow> paths = map (\<lambda>n. path_join dir (n @ ''.png'')) state_names_captured"
    unfolding yielding_def by (cases r) auto
  ultimately show "\<exists>r st'. capture_all_states (at_service env) h apk dir st = Some (r, st') \<and> good_service (remote st') \<and>
       names (remote st') = names (remote st) - {capture_instance_name} \<and>
       (case r of Inl _ \<Rightarrow> True | Inr paths \<Rightarrow> paths = map (\<lambda>n. path_join dir (n @ ''.png'')) state_names_captured)"
    using down(2,3) body(3) unfolding others_def by blast
qed

definition sample_helpers :: "(os \<times> sys) helpers" where
  "sample_helpers = \<lparr>capture_emulator_screenshot = (\<lambda>port. pure [1, 2, 3]), install_apk_on = (\<lambda>port apk. pure ()),
     launch_vanpilot_app = (\<lambda>port. pure ()), exception_text = (\<lambda>e. ''failed'')\<rparr>"

theorem capture_all_outcome_witness:
  "\<exists>r st'. capture_all_states (at_service (sample_surroundings (\<lambda>p. Inl FileNotFoundError))) sample_helpers [] ''out''
       (session_at sample_os (create_manager 8)) = Some (r, st') \<and> names (remote st') = {}"
proof -
  have "good_service (remote (session_at sample_os (create_manager 8)))" by (simp add: session_at_def good_pair)
  moreover have "local_helpers sample_helpers"
    by (simp add: local_helpers_def helpers_keep_def sample_helpers_def keeping_pure)
  moreover have "names (remote (session_at sample_os (create_manager 8))) = {}" by (simp add: session_at_def create_manager_def)
  ultimately show ?thesis
    using capture_all_outcome [where st = "session_at sample_os (create_manager 8)" and h = sample_helpers] by fast
qed

theorem generated_golden_is_teal_witness:
  "\<exists>png st'. generate_goldens (sample_surroundings (\<lambda>p. Inl FileNotFoundError)) (Some ''/work'') ''/''
       (session_at sample_os (create_manager 8)) = Some (Inr (), st') \<and>
     files st' = [(''/work/goldens/phase3/solid_color_surface.png'', png)] \<and>
     read_png_pixels Some png = Inr (1024, 600, replicate (600 * 1024) (0x1A, 0x8A, 0x7D))"
proof -
  let ?env = "sample_surroundings (\<lambda>p. Inl FileNotFoundError)"
  have "length (replicate (600 * 1024) teal_rgb) = 600 * 1024" by (rule length_replicate)
  from small_png [OF _ _ this] obtain png where "make_png_from_pixels stored (int 1024) (int 600) (replicate (600 * 1024) teal_rgb) = Inr png"
    by auto
  then have "make_png stored (int 1024) (int 600) teal_rgb = Inr png" by (simp only: make_png_eq)
  then have png: "make_teal_display (deflate ?env) = Inr png"
    by (simp add: make_teal_display_def display_width_def display_height_def sample_surroundings_def)
  have files: "\<forall>p. file_write (disk ?env) p = None" "\<forall>d. makedirs_error ?env d = None"
    "deflate ?env = stored" "inflate ?env = Some"
    by (simp_all add: sample_surroundings_def)
  have start: "files (session_at sample_os (create_manager 8)) = []" by (simp add: session_at_def)
  from generated_golden_is_teal [OF _ png files(1,2), of "''/work''" "''/''" "session_at sample_os (create_manager 8)"]
  show ?thesis unfolding files(3,4) start using zlib_ok_stored by (auto simp: path_join_def)
qed

end
