(* ===== verification/Concurrent_Requests.thy ===== *)
theory Concurrent_Requests
  imports Service_Guarantees
begin

text \<open>
  Requests that run beside each other.  The gRPC server has four worker threads, and only the single
  operations of the port allocator and of the instance store are atomic (each takes its own lock), so what
  \<open>CreateInstance\<close> and \<open>DestroyInstance\<close> check and what they then do may be steps apart.  Here
  a thread is where its handler has come to, a step is one locked operation of one handler, and the steps
  of the threads interleave in any order.  What the lifecycle does to processes in between is left out; what
  it does to the store, one update after the other, and that it may fail at any time, is not.
\<close>

section \<open>Handlers step by step\<close>

datatype thread =
    Idle
  | Creating string                  \<comment> \<open>no such instance was found\<close>
  | Allotted string port_slot        \<comment> \<open>a slot is taken\<close>
  | Building string port_slot        \<comment> \<open>the record is stored, \<open>lifecycle.create\<close> runs\<close>
  | Failing string port_slot         \<comment> \<open>it has raised\<close>
  | Unslotted string                 \<comment> \<open>the slot is given back, the record not yet removed\<close>
  | Found string instance_record     \<comment> \<open>\<open>DestroyInstance\<close> has got the record\<close>
  | Stopping string instance_record  \<comment> \<open>it is marked, \<open>lifecycle.destroy\<close> runs\<close>
  | Released string                  \<comment> \<open>the slot is released, the record not yet removed\<close>

text \<open>The instance a handler works on.\<close>

fun concerns :: "thread \<Rightarrow> string option" where
  "concerns Idle = None"
| "concerns (Creating name) = Some name"
| "concerns (Allotted name _) = Some name"
| "concerns (Building name _) = Some name"
| "concerns (Failing name _) = Some name"
| "concerns (Unslotted name) = Some name"
| "concerns (Found name _) = Some name"
| "concerns (Stopping name _) = Some name"
| "concerns (Released name) = Some name"

definition same_ports :: "instance_record \<Rightarrow> instance_record \<Rightarrow> bool" where
  "same_ports r r' \<longleftrightarrow> emulator_console_port r' = emulator_console_port r \<and> adb_port r' = adb_port r \<and>
     aa_forward_port r' = aa_forward_port r"

text \<open>
  One step of a handler, from the thread, the allocator and the store to the same after it.  A step of an idle
  thread either begins a request or is an update by any other request or by the refresh loop, none of
  which writes a port.  The rule \<open>built\<close> asks for the record because \<open>lifecycle.create\<close>
  returns \<open>store.get(name)\<close>, and converting \<open>None\<close> raises inside the \<open>try\<close>.
\<close>

inductive handler ::
  "thread \<Rightarrow> port_allocator \<Rightarrow> instance_store \<Rightarrow> thread \<Rightarrow> port_allocator \<Rightarrow> instance_store \<Rightarrow> bool" where
  checked: "safe_name name \<Longrightarrow> store_get st name = None \<Longrightarrow> handler Idle p st (Creating name) p st"
| refused: "handler (Creating name) p st Idle p st"
| allotted: "allocate p = (Inr slot, p') \<Longrightarrow> handler (Creating name) p st (Allotted name slot) p' st"
| exhausted: "allocate p = (Inl e, p') \<Longrightarrow> handler (Creating name) p st Idle p' st"
| stored: "store_create name (console_port slot) (slot_adb_port slot) (slot_aa_forward_port slot) head t avd st = (Inr r, st') \<Longrightarrow>
    handler (Allotted name slot) p st (Building name slot) p st'"
| not_stored: "store_create name (console_port slot) (slot_adb_port slot) (slot_aa_forward_port slot) head t avd st = (Inl e, st') \<Longrightarrow>
    handler (Allotted name slot) p st Idle p st'"
| progress: "store_get st name = Some r \<Longrightarrow> same_ports r r' \<Longrightarrow> store_update name (\<lambda>_. r') st = (Inr u, st') \<Longrightarrow>
    handler (Building name slot) p st (Building name slot) p st'"
| failed: "handler (Building name slot) p st (Failing name slot) p st"
| built: "store_get st name = Some r \<Longrightarrow> handler (Building name slot) p st Idle p st"
| given_back: "release_slot (int (slot_index slot)) p = (Inr u, p') \<Longrightarrow>
    handler (Failing name slot) p st (Unslotted name) p' st"
| not_given_back: "release_slot (int (slot_index slot)) p = (Inl e, p') \<Longrightarrow> handler (Failing name slot) p st Idle p' st"
| dropped: "store_remove name st = (q, st') \<Longrightarrow> handler (Unslotted name) p st Idle p st'"
| found: "store_get st name = Some r \<Longrightarrow> handler Idle p st (Found name r) p st"
| marked: "store_update name (inst_state_update (\<lambda>_. DESTROYING)) st = (Inr u, st') \<Longrightarrow>
    handler (Found name r) p st (Stopping name r) p st'"
| gone: "store_update name (inst_state_update (\<lambda>_. DESTROYING)) st = (Inl e, st') \<Longrightarrow>
    handler (Found name r) p st Idle p st'"
| released: "release_slot (slot_of_record r) p = (q, p') \<Longrightarrow> handler (Stopping name r) p st (Released name) p' st"
| removed: "store_remove name st = (q, st') \<Longrightarrow> handler (Released name) p st Idle p st'"
| touched: "store_get st name = Some r \<Longrightarrow> same_ports r r' \<Longrightarrow> store_update name (\<lambda>_. r') st = (Inr u, st') \<Longrightarrow>
    handler Idle p st Idle p st'"

inductive_cases between_requests: "handler Idle p st Idle p' st'"

section \<open>Interleaving\<close>

definition max_workers :: nat where
  "max_workers = 4"

record server =
  threads :: "thread list"
  slot_pool_of :: port_allocator
  table :: instance_store

definition server_init :: "nat \<Rightarrow> server" where
  "server_init slots = \<lparr>threads = replicate max_workers Idle, slot_pool_of = port_allocator_init slots, table = []\<rparr>"

inductive interleaved :: "server \<Rightarrow> server \<Rightarrow> bool" where
  thread_step: "i < length (threads s) \<Longrightarrow> handler (threads s ! i) (slot_pool_of s) (table s) c p st \<Longrightarrow>
    interleaved s \<lparr>threads = (threads s)[i := c], slot_pool_of = p, table = st\<rparr>"

text \<open>Clients that have no two requests for one instance under way at the same time.\<close>

definition one_per_name :: "server \<Rightarrow> bool" where
  "one_per_name s \<longleftrightarrow> (\<forall>i < length (threads s). \<forall>j < length (threads s). \<forall>name.
     concerns (threads s ! i) = Some name \<and> concerns (threads s ! j) = Some name \<longrightarrow> i = j)"

inductive orderly :: "server \<Rightarrow> server \<Rightarrow> bool" where
  orderly_step: "interleaved s s' \<Longrightarrow> one_per_name s' \<Longrightarrow> orderly s s'"

text \<open>No request under way.\<close>

definition at_rest :: "server \<Rightarrow> bool" where
  "at_rest s \<longleftrightarrow> list_all (\<lambda>c. c = Idle) (threads s)"

section \<open>The requests by instance\<close>

text \<open>
  The abstract view: for each name the one handler that concerns it, whichever thread runs it.
\<close>

definition phase :: "server \<Rightarrow> string \<Rightarrow> thread" where
  "phase s name = (case find (\<lambda>c. concerns c = Some name) (threads s) of Some c \<Rightarrow> c | None \<Rightarrow> Idle)"

inductive request_step ::
  "(string \<Rightarrow> thread) \<times> port_allocator \<times> instance_store \<Rightarrow> (string \<Rightarrow> thread) \<times> port_allocator \<times> instance_store \<Rightarrow> bool" where
  by_name: "handler (ph name) p st c p' st' \<Longrightarrow> concerns c \<in> {None, Some name} \<Longrightarrow>
    concerns (ph name) \<in> {None, Some name} \<Longrightarrow> request_step (ph, p, st) (ph(name := c), p', st')"
| elsewhere: "handler Idle p st Idle p' st' \<Longrightarrow> request_step (ph, p, st) (ph, p', st')"

definition by_instance :: "server \<Rightarrow> (string \<Rightarrow> thread) \<times> port_allocator \<times> instance_store" where
  "by_instance s = (phase s, slot_pool_of s, table s)"

lemma phase_concerns: "concerns (phase s name) \<in> {None, Some name}"
  by (auto simp: phase_def find_Some_iff split: option.split)

lemma phase_at:
  assumes "one_per_name s" "i < length (threads s)" "concerns (threads s ! i) = Some name"
  shows "phase s name = threads s ! i"
proof -
  have "find (\<lambda>c. concerns c = Some name) (threads s) \<noteq> None"
    using assms(2,3) nth_mem unfolding find_None_iff by blast
  then obtain c where c: "find (\<lambda>c. concerns c = Some name) (threads s) = Some c" by blast
  then obtain j where j: "j < length (threads s)" "concerns (threads s ! j) = Some name" "c = threads s ! j"
    by (auto simp: find_Some_iff)
  have "i = j" using assms j(1,2) unfolding one_per_name_def by blast
  with c j show ?thesis by (simp add: phase_def)
qed

lemma phase_Idle: "(\<And>i. i < length (threads s) \<Longrightarrow> concerns (threads s ! i) \<noteq> Some name) \<Longrightarrow> phase s name = Idle"
  by (auto simp: phase_def find_Some_iff split: option.split)

lemma phase_cases:
  assumes "one_per_name s"
  obtains i where "i < length (threads s)" "concerns (threads s ! i) = Some name" "phase s name = threads s ! i"
    | "\<And>i. i < length (threads s) \<Longrightarrow> concerns (threads s ! i) \<noteq> Some name" "phase s name = Idle"
proof (cases "\<exists>i < length (threads s). concerns (threads s ! i) = Some name")
  case True
  then obtain i where i: "i < length (threads s)" "concerns (threads s ! i) = Some name" by blast
  with phase_at [OF assms] that(1) show thesis by blast
next
  case False
  with phase_Idle [of s name] that(2) show thesis by blast
qed

text \<open>A handler stays with its instance.\<close>

lemma handler_concerns:
  "handler c p st c' p' st' \<Longrightarrow> concerns c = None \<or> concerns c' = None \<or> concerns c' = concerns c"
  by (induction rule: handler.induct) auto

lemma idle_iff [simp]: "concerns c = None \<longleftrightarrow> c = Idle"
  by (cases c) auto

text \<open>Under the clients' discipline, a step of a thread is a step of the request for one instance.\<close>

lemma phase_eqI:
  assumes "one_per_name s" "\<And>j c. j < length (threads s) \<Longrightarrow> concerns (threads s ! j) = Some name \<Longrightarrow> threads s ! j = c0"
    and "c0 = Idle \<or> (\<exists>j < length (threads s). threads s ! j = c0 \<and> concerns c0 = Some name)"
  shows "phase s name = c0"
  using phase_cases [OF assms(1), of name] assms(2,3) by (metis concerns.simps(1) option.distinct(1))

lemma phase_update:
  assumes one: "one_per_name s" "one_per_name s'" and s': "threads s' = (threads s)[i := c]" and i: "i < length (threads s)"
    and about: "concerns (threads s ! i) = Some name \<or> concerns c = Some name"
      "concerns (threads s ! i) \<in> {None, Some name}" "concerns c \<in> {None, Some name}"
  shows "phase s name = threads s ! i" "phase s' = (phase s)(name := c)"
proof -
  have len: "length (threads s') = length (threads s)" and ic: "threads s' ! i = c" using s' i by simp_all
  have others: "concerns (threads s ! j) \<noteq> Some name" if "j < length (threads s)" "j \<noteq> i" for j
  proof
    assume j: "concerns (threads s ! j) = Some name"
    then have j': "concerns (threads s' ! j) = Some name" using s' that by simp
    from about(1) show False
    proof
      assume "concerns (threads s ! i) = Some name"
      with one(1) j that i show False unfolding one_per_name_def by blast
    next
      assume "concerns c = Some name"
      with one(2) j' that i len ic show False unfolding one_per_name_def by metis
    qed
  qed
  show "phase s name = threads s ! i"
    by (rule phase_eqI [OF one(1)]) (use others about(2) i in auto)
  show "phase s' = (phase s)(name := c)"
  proof
    fix n
    show "phase s' n = ((phase s)(name := c)) n"
    proof (cases "n = name")
      case True
      have "phase s' name = c"
        using others about(3) i len ic s' by (intro phase_eqI [OF one(2)]) (auto simp: nth_list_update split: if_splits)
      with True show ?thesis by simp
    next
      case False
      have "concerns (threads s' ! j) = Some n \<longleftrightarrow> concerns (threads s ! j) = Some n" if "j < length (threads s)" for j
        using that about False s' i by (auto simp: nth_list_update)
      moreover have "threads s' ! j = threads s ! j" if "j < length (threads s)" "concerns (threads s ! j) = Some n" for j
        using that about False s' i by (auto simp: nth_list_update)
      ultimately have "phase s' n = phase s n"
        using phase_cases [OF one(1), of n] phase_at [OF one(2)] phase_Idle [of s' n] len by metis
      with False show ?thesis by simp
    qed
  qed
qed

lemma orderly_by_instance:
  assumes "orderly s s'" "one_per_name s"
  shows "request_step (by_instance s) (by_instance s')"
  using assms(1)
proof cases
  case orderly_step
  from orderly_step(1) show ?thesis
  proof cases
    case (thread_step i c p st)
    have one: "one_per_name s'" by (rule orderly_step(2))
    have threads: "threads s' = (threads s)[i := c]" by (simp add: thread_step(1))
    have rest: "slot_pool_of s' = p" "table s' = st" by (simp_all add: thread_step(1))
    show ?thesis
    proof (cases "threads s ! i = Idle \<and> c = Idle")
      case True
      then have "threads s' = threads s" using threads by (metis list_update_id)
      then have "phase s' = phase s" by (simp add: phase_def fun_eq_iff)
      with True thread_step(3) rest show ?thesis
        by (simp add: by_instance_def) (rule request_step.elsewhere, simp)
    next
      case False
      with handler_concerns [OF thread_step(3)] obtain name where
          about: "concerns (threads s ! i) = Some name \<or> concerns c = Some name"
        "concerns (threads s ! i) \<in> {None, Some name}" "concerns c \<in> {None, Some name}"
        by (cases "concerns (threads s ! i)"; cases "concerns c") auto
      note phases = phase_update [OF assms(2) one threads thread_step(2) about]
      show ?thesis
        unfolding by_instance_def phases(2) rest
        by (rule request_step.by_name) (use phases(1) thread_step(3) about in simp_all)
    qed
  qed
qed

lemma orderly_one_per_name: "orderly s s' \<Longrightarrow> one_per_name s'"
  by (induction rule: orderly.induct)

lemma orderly_run_one_per_name: "orderly\<^sup>*\<^sup>* s s' \<Longrightarrow> one_per_name s \<Longrightarrow> one_per_name s'"
  by (induction rule: rtranclp_induct) (auto dest: orderly_one_per_name)

lemma orderly_run_by_instance:
  "orderly\<^sup>*\<^sup>* s s' \<Longrightarrow> one_per_name s \<Longrightarrow> request_step\<^sup>*\<^sup>* (by_instance s) (by_instance s')"
proof (induction rule: rtranclp_induct)
  case (step t u)
  from step.hyps(1) step.prems have "one_per_name t" by (rule orderly_run_one_per_name)
  with step show ?case by (metis orderly_by_instance rtranclp.rtrancl_into_rtrancl)
qed simp

lemma one_per_name_init [simp]: "one_per_name (server_init n)"
  by (simp add: one_per_name_def server_init_def)

section \<open>What holds of every instance\<close>

definition on_slot :: "port_slot \<Rightarrow> instance_record \<Rightarrow> bool" where
  "on_slot slot r \<longleftrightarrow> emulator_console_port r = console_port slot \<and> adb_port r = slot_adb_port slot \<and>
     aa_forward_port r = slot_aa_forward_port slot"

text \<open>The slot an instance holds: that of its record, that of a request which has not yet stored it, or none any more.\<close>

fun lease_of :: "thread \<Rightarrow> instance_record option \<Rightarrow> int option" where
  "lease_of (Allotted _ slot) _ = Some (int (slot_index slot))"
| "lease_of (Unslotted _) _ = None"
| "lease_of (Released _) _ = None"
| "lease_of _ r = map_option slot_of_record r"

fun in_step :: "thread \<Rightarrow> instance_record option \<Rightarrow> bool" where
  "in_step Idle r = True"
| "in_step (Creating _) r = (r = None)"
| "in_step (Allotted _ slot) r = (r = None \<and> slot = make_slot (slot_index slot))"
| "in_step (Building _ slot) r = (case r of None \<Rightarrow> False | Some r \<Rightarrow> on_slot slot r \<and> slot = make_slot (slot_index slot))"
| "in_step (Failing _ slot) r = (case r of None \<Rightarrow> False | Some r \<Rightarrow> on_slot slot r \<and> slot = make_slot (slot_index slot))"
| "in_step (Unslotted _) r = (r \<noteq> None)"
| "in_step (Found _ q) r = (case r of None \<Rightarrow> False | Some r \<Rightarrow> same_ports q r)"
| "in_step (Stopping _ q) r = (case r of None \<Rightarrow> False | Some r \<Rightarrow> same_ports q r)"
| "in_step (Released _) r = (r \<noteq> None)"

text \<open>
  The invariant; \<open>lost\<close> are the slots in use that no request and no instance holds.
\<close>

fun settled :: "nat set \<Rightarrow> (string \<Rightarrow> thread) \<times> port_allocator \<times> instance_store \<Rightarrow> bool" where
  "settled lost (ph, p, st) \<longleftrightarrow>
     (\<forall>n. in_step (ph n) (store_get st n)) \<and> (\<forall>n r. store_get st n = Some r \<longrightarrow> (\<exists>i. on_slot (make_slot i) r)) \<and>
     lost \<subseteq> used_slots p \<and> used_slots p \<subseteq> {..<max_slots p} \<and>
     slots_match (used_slots p - lost) (\<lambda>n. lease_of (ph n) (store_get st n)) id"

lemma settledI:
  assumes "settled lost (ph, p, st)" "concerns (ph name) \<in> {None, Some name}"
    and st: "store_get st' = (store_get st)(name := ro)"
    and step: "in_step c ro" "\<And>r. ro = Some r \<Longrightarrow> \<exists>i. on_slot (make_slot i) r"
    and p: "lost \<subseteq> used_slots p'" "used_slots p' \<subseteq> {..<max_slots p'}"
    and match: "slots_match (used_slots p' - lost) ((\<lambda>n. lease_of (ph n) (store_get st n))(name := lease_of c ro)) id"
  shows "settled lost (ph(name := c), p', st')"
proof -
  have "(\<lambda>n. lease_of ((ph(name := c)) n) (store_get st' n)) = (\<lambda>n. lease_of (ph n) (store_get st n))(name := lease_of c ro)"
    by (simp add: fun_eq_iff st)
  then show ?thesis using assms by (auto simp: st)
qed

text \<open>The three ways in which a step can touch the slots: not at all, taking one, giving one back.\<close>

lemma settled_same:
  assumes "settled lost (ph, p, st)" "concerns (ph name) \<in> {None, Some name}" "store_get st' = (store_get st)(name := ro)"
    and "in_step c ro" "\<And>r. ro = Some r \<Longrightarrow> \<exists>i. on_slot (make_slot i) r" "lease_of c ro = lease_of (ph name) (store_get st name)"
  shows "settled lost (ph(name := c), p, st')"
  using assms(1) by (intro settledI [OF assms(1-5)]) (simp_all add: assms(6) fun_upd_triv [of "\<lambda>n. lease_of (ph n) (store_get st n)" name])

lemma settled_take:
  assumes inv: "settled lost (ph, p, st)" and ph: "ph name = Creating name" and a: "allocate p = (Inr slot, p')"
  shows "settled lost (ph(name := Allotted name slot), p', st)"
proof -
  obtain i where i: "fst (allocate_index p) = Inr i" "slot = make_slot i" "p' = snd (allocate_index p)"
    using a unfolding allocate_via_index by (cases "fst (allocate_index p)") auto
  from i have used: "i \<notin> used_slots p" "i < max_slots p" "used_slots p' = insert i (used_slots p)" "max_slots p' = max_slots p"
    using pool.alloc_fresh [of p i] pool.used_alloc [of p] pool.capacity_alloc [of p] by simp_all
  from inv ph have new: "store_get st name = None" by (auto dest: spec [where x = name])
  let ?look = "\<lambda>n. lease_of (ph n) (store_get st n)"
  have "slots_match (insert i (used_slots p - lost)) (?look(name \<mapsto> int i)) id"
    using inv used(1) by (intro slots_match_insert) (simp_all add: ph new)
  moreover have "insert i (used_slots p - lost) = used_slots p' - lost" using inv used by auto
  ultimately show ?thesis
    using inv used by (intro settledI [OF inv _, where ro = None]) (auto simp: ph new i(2) make_slot_def)
qed

lemma settled_give:
  assumes inv: "settled lost (ph, p, st)" and at: "concerns (ph name) \<in> {None, Some name}"
    and held: "lease_of (ph name) (store_get st name) = Some k" and c: "lease_of c (store_get st name) = None" "in_step c (store_get st name)"
    and rel: "release_slot k p = (q, p')"
  shows "q = Inr () \<and> settled lost (ph(name := c), p', st)"
proof -
  let ?look = "\<lambda>n. lease_of (ph n) (store_get st n)"
  from inv have match: "slots_match (used_slots p - lost) ?look id" by simp
  have held': "?look name = Some k" by (rule held)
  from slots_matchD [OF match held'] obtain i where i: "i \<in> used_slots p" "i \<notin> lost" "k = int i" by auto
  with rel have q: "q = Inr ()" and p': "p' = p\<lparr>used_slots := used_slots p - {i}\<rparr>" by (simp_all add: release_slot_def)
  have "id k = int i" by (simp add: i(3))
  from slots_match_delete [OF match held' this]
  have "slots_match (used_slots p - lost - {i}) (?look(name := None)) id" .
  moreover have "used_slots p - lost - {i} = used_slots p' - lost" by (auto simp: p')
  ultimately have "settled lost (ph(name := c), p', st)"
    using inv i(2) c by (intro settledI [OF inv at, where ro = "store_get st name"]) (auto simp: p')
  with q show ?thesis by simp
qed

lemma same_ports_slot: "same_ports r r' \<Longrightarrow> slot_of_record r' = slot_of_record r"
  by (simp add: same_ports_def slot_of_record_def)

lemma same_ports_on_slot: "same_ports r r' \<Longrightarrow> on_slot slot r' = on_slot slot r"
  by (simp add: same_ports_def on_slot_def)

lemma on_slot_slot: "on_slot slot r \<Longrightarrow> slot = make_slot (slot_index slot) \<Longrightarrow> slot_of_record r = int (slot_index slot)"
  by (metis on_slot_def slot_of_make_slot slot_of_record_def)

lemma get_updated: "store_get st name = Some r \<Longrightarrow> store_update name f st = (q, st') \<Longrightarrow>
    q = Inr () \<and> store_get st' = (store_get st)(name \<mapsto> f r)"
  using records.modify_present [of st name r f] by simp

lemma get_removed: "store_remove name st = (q, st') \<Longrightarrow> store_get st' = (store_get st)(name := None)"
  using records.remove_present [of st name] records.remove_absent [of st name]
  by (cases "store_get st name") (auto simp: fun_upd_idem)

lemma same_ports_DESTROYING [simp]: "same_ports r (inst_state_update f r)"
  by (simp add: same_ports_def)

lemma same_ports_in_step:
  "in_step c (Some r) \<Longrightarrow> same_ports r r' \<Longrightarrow> in_step c (Some r')"
  by (cases c) (auto simp: same_ports_on_slot, auto simp: same_ports_def)

lemma same_ports_lease: "same_ports r r' \<Longrightarrow> lease_of c (Some r') = lease_of c (Some r)"
  by (cases c) (auto simp: same_ports_slot)

lemma settled_update:
  assumes inv: "settled lost (ph, p, st)" and get: "store_get st name = Some r" "same_ports r r'"
    and upd: "store_get st' = (store_get st)(name \<mapsto> r')"
  shows "settled lost (ph, p, st')"
proof -
  have look: "(\<lambda>n. lease_of (ph n) (store_get st' n)) = (\<lambda>n. lease_of (ph n) (store_get st n))"
    using get(1) same_ports_lease [OF get(2)] by (simp add: fun_eq_iff upd)
  have at: "in_step (ph name) (Some r)" "\<exists>i. on_slot (make_slot i) r"
    using inv get(1) unfolding settled.simps by metis+
  have "in_step (ph n) (store_get st' n)" for n
    using inv same_ports_in_step [OF at(1) get(2)] by (cases "n = name") (simp_all add: upd)
  moreover have "\<exists>i. on_slot (make_slot i) q" if "store_get st' n = Some q" for n q
    using inv that at(2) same_ports_on_slot [OF get(2)] by (cases "n = name") (auto simp: upd)
  ultimately show ?thesis using inv unfolding settled.simps look by blast
qed

text \<open>Every step keeps the invariant, rule by rule.\<close>

lemma settled_here: "settled lost (ph, p, st) \<Longrightarrow> in_step (ph name) (store_get st name)"
  by simp

lemma settled_slot: "settled lost (ph, p, st) \<Longrightarrow> store_get st name = Some r \<Longrightarrow> \<exists>i. on_slot (make_slot i) r"
  by simp

lemma handler_settled:
  assumes "handler c0 p st c p' st'" "settled lost (ph, p, st)" "ph name = c0"
    and "concerns c \<in> {None, Some name}" "concerns (ph name) \<in> {None, Some name}"
  shows "settled lost (ph(name := c), p', st')"
  using assms
proof (induction rule: handler.induct)
  case (checked n st p)
  then show ?case by (intro settled_same [where ro = "store_get st name"]) (simp_all add: fun_upd_idem)
next
  case (refused n p st)
  then show ?case by (intro settled_same [where ro = "store_get st name"]) (auto dest: spec [where x = name])
next
  case (allotted p slot p' n st)
  then show ?case using settled_take [of lost ph p st name slot p'] by simp
next
  case (exhausted p e p' n st)
  then have "p' = p" by (simp add: allocate_def split: list.splits)
  with exhausted show ?case by (intro settled_same [where ro = "store_get st name"]) (auto dest: spec [where x = name])
next
  case (stored n slot head t avd st r st' p)
  then have n: "n = name" by simp
  have at: "store_get st name = None" "slot = make_slot (slot_index slot)"
    using settled_here [OF stored(2), of name] stored(3) by simp_all
  let ?r = "new_record name (console_port slot) (slot_adb_port slot) (slot_aa_forward_port slot) head t avd"
  have new: "store_get st' = (store_get st)(name \<mapsto> ?r)"
    using stored(1) records.insert_new [OF at(1), of ?r] unfolding store_create_def n by simp
  have on: "on_slot slot ?r" by (simp add: on_slot_def new_record_def)
  with at(2) have "\<exists>i. on_slot (make_slot i) ?r" by metis
  with stored(3-5) n at on on_slot_slot [OF on at(2)] show ?case
    by (intro settled_same [OF stored(2) _ new]) auto
next
  case (not_stored n slot head t avd st e st' p)
  then have n: "n = name" by simp
  have "store_get st name = None" using settled_here [OF not_stored(2), of name] not_stored(3) by simp
  with not_stored(1) show ?case
    using records.insert_new [of st name] unfolding store_create_def n by (metis Inr_not_Inl fst_conv)
next
  case (progress st n r r' u st' slot p)
  then have n: "n = name" by simp
  have upd: "store_get st' = (store_get st)(name \<mapsto> r')" using get_updated [OF progress(1,3)] n by simp
  have "settled lost (ph, p, st')" by (rule settled_update [OF progress(4) _ progress(2) upd]) (use progress(1) n in simp)
  moreover have "ph(name := Building n slot) = ph" using progress(5) by (simp add: fun_upd_idem)
  ultimately show ?case by simp
next
  case (failed n slot p st)
  then show ?case
    using settled_here [OF failed(1), of name] settled_slot [OF failed(1), of name]
    by (intro settled_same [where ro = "store_get st name"]) (auto split: option.splits)
next
  case (built st n r slot p)
  then show ?case
    using settled_slot [OF built(2), of name] by (intro settled_same [where ro = "store_get st name"]) auto
next
  case (given_back slot p u p' n st)
  have here: "in_step (ph name) (store_get st name)" by (rule settled_here [OF given_back(2)])
  with given_back(3,5) obtain r where r: "store_get st name = Some r" "on_slot slot r" "slot = make_slot (slot_index slot)"
    by (auto split: option.splits)
  from settled_give [OF given_back(2,5) _ _ _ given_back(1), of "Unslotted n"] given_back(3) r on_slot_slot [OF r(2,3)]
  show ?case by simp
next
  case (not_given_back slot p e p' n st)
  have here: "in_step (ph name) (store_get st name)" by (rule settled_here [OF not_given_back(2)])
  with not_given_back(3,5) obtain r where r: "store_get st name = Some r" "on_slot slot r" "slot = make_slot (slot_index slot)"
    by (auto split: option.splits)
  from settled_give [OF not_given_back(2,5) _ _ _ not_given_back(1), of "Unslotted n"] not_given_back(3) r on_slot_slot [OF r(2,3)]
  show ?case by simp
next
  case (dropped n st q st' p)
  then have "store_get st' = (store_get st)(name := None)" using get_removed [of n st q st'] by simp
  then show ?case using dropped by (intro settled_same [OF dropped(2)]) auto
next
  case (found st n r p)
  then show ?case
    using settled_slot [OF found(2), of name]
    by (intro settled_same [where ro = "store_get st name"]) (auto simp: same_ports_def)
next
  case (marked n st u st' r p)
  then have n: "n = name" by simp
  obtain r' where r': "store_get st name = Some r'" "same_ports r r'"
    using settled_here [OF marked(2), of name] marked(3) by (auto split: option.splits)
  have upd: "store_get st' = (store_get st)(name \<mapsto> inst_state_update (\<lambda>_. DESTROYING) r')"
    using get_updated [OF r'(1)] marked(1) n by metis
  have "settled lost (ph, p, st')" by (rule settled_update [OF marked(2) r'(1) _ upd]) simp
  from settled_slot [OF this, of name] show ?case
    using settled_here [OF \<open>settled lost (ph, p, st')\<close>, of name] marked(3,5)
    by (intro settled_same [OF \<open>settled lost (ph, p, st')\<close>, where ro = "store_get st' name"]) auto
next
  case (gone n st e st' r p)
  then obtain r' where "store_get st name = Some r'"
    using settled_here [OF gone(2), of name] by (auto split: option.splits)
  with gone(1,3,4,5) get_updated [of st name r'] show ?case by fastforce
next
  case (released r p q p' n st)
  obtain r' where r': "store_get st name = Some r'" "same_ports r r'"
    using settled_here [OF released(2), of name] released(3) by (auto split: option.splits)
  from settled_give [OF released(2,5) _ _ _ released(1), of "Released n"] released(3) r' same_ports_slot [OF r'(2)]
  show ?case by simp
next
  case (removed n st q st' p)
  then have "store_get st' = (store_get st)(name := None)" using get_removed [of n st q st'] by simp
  then show ?case using removed by (intro settled_same [OF removed(2)]) auto
next
  case (touched st n r r' u st' p)
  have upd: "store_get st' = (store_get st)(n \<mapsto> r')" using get_updated [OF touched(1,3)] by simp
  have "settled lost (ph, p, st')" by (rule settled_update [OF touched(4,1,2) upd])
  moreover have "ph(name := Idle) = ph" using touched(5) by (simp add: fun_upd_idem)
  ultimately show ?case by simp
qed

lemma request_step_settled:
  assumes "request_step x y" "settled lost x"
  shows "settled lost y"
  using assms(1)
proof cases
  case (by_name ph name p st c p' st')
  with assms(2) show ?thesis using handler_settled [OF by_name(3), of lost ph name] by_name(4,5) by simp
next
  case (elsewhere p st p' st' ph)
  from elsewhere(3) obtain name r r' u where touched: "p' = p" "store_get st name = Some r" "same_ports r r'"
    "store_update name (\<lambda>_. r') st = (Inr u, st')"
    by (auto elim: between_requests)
  show ?thesis
    unfolding elsewhere(2) touched(1)
    by (rule settled_update [OF _ touched(2,3)])
      (use assms(2) elsewhere(1) get_updated [OF touched(2,4)] in simp_all)
qed

lemma settled_init: "settled {} (by_instance (server_init n))"
proof -
  have "phase (server_init n) = (\<lambda>_. Idle)" by (auto simp: fun_eq_iff phase_def server_init_def find_Some_iff split: option.split)
  moreover have "slots_match {} (\<lambda>_. None) id" by (simp add: slots_match_def bij_betw_def)
  ultimately show ?thesis by (simp add: by_instance_def server_init_def port_allocator_init_def store_get_def)
qed

lemma orderly_run_settled:
  assumes "orderly\<^sup>*\<^sup>* s s'" "one_per_name s" "settled lost (by_instance s)"
  shows "settled lost (by_instance s')"
  using orderly_run_by_instance [OF assms(1,2)] assms(3)
  by (induction rule: rtranclp_induct) (auto intro: request_step_settled)

lemma request_step_capacity: "request_step x y \<Longrightarrow> max_slots (fst (snd y)) = max_slots (fst (snd x))"
  by (induction rule: request_step.induct)
    (auto elim!: handler.cases simp: allocate_def release_slot_def split: list.splits if_splits)

lemma orderly_run_capacity:
  assumes "orderly\<^sup>*\<^sup>* s s'" "one_per_name s"
  shows "max_slots (slot_pool_of s') = max_slots (slot_pool_of s)"
proof -
  have "max_slots (fst (snd y)) = max_slots (fst (snd x))" if "request_step\<^sup>*\<^sup>* x y" for x y
    using that by (induction rule: rtranclp_induct) (simp_all add: request_step_capacity)
  from this [OF orderly_run_by_instance [OF assms]] show ?thesis by (simp add: by_instance_def)
qed

section \<open>Runs of one thread\<close>

definition works :: "thread \<times> port_allocator \<times> instance_store \<Rightarrow> thread \<times> port_allocator \<times> instance_store \<Rightarrow> bool" where
  "works = (\<lambda>(c, p, st) (c', p', st'). handler c p st c' p' st')"

lemma works_run:
  assumes "works\<^sup>*\<^sup>* (c, p, st) (c', p', st')" "i < length ts" "ts ! i = c"
  shows "interleaved\<^sup>*\<^sup>* \<lparr>threads = ts, slot_pool_of = p, table = st\<rparr> \<lparr>threads = ts[i := c'], slot_pool_of = p', table = st'\<rparr>"
  using assms(1)
proof (induction "(c', p', st')" arbitrary: c' p' st' rule: rtranclp_induct)
  case base
  with assms(3) show ?case by (metis list_update_id rtranclp.rtrancl_refl)
next
  case (step y)
  obtain c1 p1 st1 where y: "y = (c1, p1, st1)" by (cases y)
  let ?s = "\<lparr>threads = ts[i := c1], slot_pool_of = p1, table = st1\<rparr>"
  have "interleaved ?s \<lparr>threads = (threads ?s)[i := c'], slot_pool_of = p', table = st'\<rparr>"
    by (rule thread_step) (use step(2) y assms(2) in \<open>simp_all add: works_def\<close>)
  with step(3) [OF y] show ?case by simp
qed

lemma worksI: "handler c p st c' p' st' \<Longrightarrow> works\<^sup>*\<^sup>* (c', p', st') x \<Longrightarrow> works\<^sup>*\<^sup>* (c, p, st) x"
  by (rule converse_rtranclp_into_rtranclp) (simp_all add: works_def)

lemma works_run_alone:
  assumes "works\<^sup>*\<^sup>* (c, p, st) (c', p', st')" "i < length ts" "ts ! i = c" "\<And>j. j < length ts \<Longrightarrow> j \<noteq> i \<Longrightarrow> ts ! j = Idle"
  shows "orderly\<^sup>*\<^sup>* \<lparr>threads = ts, slot_pool_of = p, table = st\<rparr> \<lparr>threads = ts[i := c'], slot_pool_of = p', table = st'\<rparr>"
  using assms(1)
proof (induction "(c', p', st')" arbitrary: c' p' st' rule: rtranclp_induct)
  case base
  with assms(3) show ?case by (metis list_update_id rtranclp.rtrancl_refl)
next
  case (step y)
  obtain c1 p1 st1 where y: "y = (c1, p1, st1)" by (cases y)
  let ?s = "\<lparr>threads = ts[i := c1], slot_pool_of = p1, table = st1\<rparr>"
  let ?s' = "\<lparr>threads = (threads ?s)[i := c'], slot_pool_of = p', table = st'\<rparr>"
  have "interleaved ?s ?s'"
    by (rule thread_step) (use step(2) y assms(2) in \<open>simp_all add: works_def\<close>)
  moreover have "j = i" if "j < length ts" "concerns (ts[i := c'] ! j) = Some name" for j name
    using that assms(4) [of j] by (cases "j = i") auto
  then have "one_per_name ?s'" unfolding one_per_name_def by simp blast
  ultimately have "orderly ?s ?s'" by (rule orderly_step)
  with step(3) [OF y] show ?case by simp
qed

text \<open>A creation that is not disturbed, from its slot and from its beginning; the two halves of a destruction.\<close>

lemma works_build:
  assumes "store_get st name = None" "on_slot slot r" "allocate p = (Inr slot, p')"
  shows "works\<^sup>*\<^sup>* (Creating name, p, st) (Idle, p', dict_set name r st)"
proof -
  let ?r = "new_record name (console_port slot) (slot_adb_port slot) (slot_aa_forward_port slot) False 0 []"
  have stored: "store_create name (console_port slot) (slot_adb_port slot) (slot_aa_forward_port slot) False 0 [] st =
      (Inr ?r, dict_set name ?r st)"
    using assms(1) by (simp add: store_create_def add_record_def store_get_None del: set_map)
  have got: "store_get (dict_set name q st) name = Some q" for q by (simp add: store_get_def dict_simps)
  have "same_ports ?r r" using assms(2) by (simp add: same_ports_def on_slot_def new_record_def)
  moreover have "store_update name (\<lambda>_. r) (dict_set name ?r st) = (Inr (), dict_set name r st)"
    using got [of ?r] by (simp add: store_update_def store_get_def)
  ultimately have "handler (Building name slot) p' (dict_set name ?r st) (Building name slot) p' (dict_set name r st)"
    by (rule handler.progress [OF got])
  then have "works\<^sup>*\<^sup>* (Building name slot, p', dict_set name ?r st) (Idle, p', dict_set name r st)"
    by (rule worksI [OF _ worksI [OF handler.built [OF got] rtranclp.rtrancl_refl]])
  then show ?thesis
    by (rule worksI [OF handler.allotted [OF assms(3)] worksI [OF handler.stored [OF stored]]])
qed

lemma works_create:
  assumes "safe_name name" "store_get st name = None" "on_slot slot r" "allocate p = (Inr slot, p')"
  shows "works\<^sup>*\<^sup>* (Idle, p, st) (Idle, p', dict_set name r st)"
  by (rule worksI [OF handler.checked [OF assms(1,2)] works_build [OF assms(2-4)]])

lemma works_mark:
  assumes "store_get st name = Some r"
  shows "works\<^sup>*\<^sup>* (Idle, p, st) (Stopping name r, p, dict_set name (r\<lparr>inst_state := DESTROYING\<rparr>) st)"
proof -
  have "store_update name (inst_state_update (\<lambda>_. DESTROYING)) st = (Inr (), dict_set name (r\<lparr>inst_state := DESTROYING\<rparr>) st)"
    using assms by (simp add: store_update_def store_get_def)
  from worksI [OF handler.found [OF assms] worksI [OF handler.marked [OF this] rtranclp.rtrancl_refl]] show ?thesis .
qed

lemma works_destroy:
  "works\<^sup>*\<^sup>* (Stopping name r, p, st)
     (Idle, snd (release_slot (slot_of_record r) p), snd (store_remove name st))"
  by (rule worksI [OF handler.released [OF surjective_pairing]], rule worksI [OF handler.removed [OF surjective_pairing]]) simp

section \<open>What clients can rely on\<close>

definition record_ports :: "instance_record \<Rightarrow> int set" where
  "record_ports r = {emulator_console_port r, adb_port r, aa_forward_port r}"

text \<open>An instance whose slot is already given back and whose record is about to be removed.\<close>

definition being_removed :: "server \<Rightarrow> string \<Rightarrow> bool" where
  "being_removed s name \<longleftrightarrow> Unslotted name \<in> set (threads s) \<or> Released name \<in> set (threads s)"

lemma phase_in_threads: "phase s name = Idle \<or> phase s name \<in> set (threads s)"
  by (auto simp: phase_def find_Some_iff split: option.split)

lemma kept_lease:
  assumes "settled lost (by_instance s)" "store_get (table s) name = Some r" "\<not> being_removed s name"
  shows "lease_of (phase s name) (store_get (table s) name) = Some (slot_of_record r)"
proof -
  have "in_step (phase s name) (Some r)" using assms(1,2) unfolding by_instance_def settled.simps by metis
  moreover have "phase s name \<noteq> Unslotted name" "phase s name \<noteq> Released name"
    using assms(3) phase_in_threads [of s name] by (auto simp: being_removed_def)
  ultimately show ?thesis
    using phase_concerns [of s name] assms(2) by (cases "phase s name") auto
qed

lemma at_rest_phase: "at_rest s \<Longrightarrow> phase s = (\<lambda>_. Idle)"
  by (auto simp: at_rest_def phase_def fun_eq_iff list_all_iff find_Some_iff split: option.split)

lemma slots_apart:
  assumes "on_slot (make_slot i) ra" "on_slot (make_slot j) rb" "i \<noteq> j" "i < 277" "j < 277"
  shows "record_ports ra \<inter> record_ports rb = {}"
  using assms by (auto simp: record_ports_def on_slot_def make_slot_def base_console_def base_aa_fwd_def)

text \<open>
  C9. However the steps of their handlers interleave, as long as clients have no two requests for one instance under way
  at a time: two instances that are not being removed never share a port, and whenever no request is under
  way, the slots in use are exactly those of the stored instances, one each, so that none has leaked.
\<close>

theorem one_request_per_instance_is_safe:
  assumes "orderly\<^sup>*\<^sup>* (server_init slots) s" "slots \<le> 277"
  shows "(\<forall>a b ra rb. a \<noteq> b \<and> store_get (table s) a = Some ra \<and> store_get (table s) b = Some rb \<and>
      \<not> being_removed s a \<and> \<not> being_removed s b \<longrightarrow> record_ports ra \<inter> record_ports rb = {}) \<and>
    (at_rest s \<longrightarrow> slots_match (used_slots (slot_pool_of s)) (store_get (table s)) slot_of_record)"
proof -
  from orderly_run_settled [OF assms(1) one_per_name_init settled_init]
  have inv: "settled {} (by_instance s)" .
  let ?look = "\<lambda>n. lease_of (phase s n) (store_get (table s) n)"
  from inv have match: "slots_match (used_slots (slot_pool_of s)) ?look id"
    and bound: "used_slots (slot_pool_of s) \<subseteq> {..<max_slots (slot_pool_of s)}"
    and on: "\<And>n r. store_get (table s) n = Some r \<Longrightarrow> \<exists>i. on_slot (make_slot i) r"
    by (simp_all add: by_instance_def)
  have cap: "max_slots (slot_pool_of s) = slots"
    using orderly_run_capacity [OF assms(1) one_per_name_init] by (simp add: server_init_def port_allocator_init_def)
  have slot: "\<exists>i. on_slot (make_slot i) r \<and> i < 277 \<and> ?look a = Some (int i)"
    if "store_get (table s) a = Some r" "\<not> being_removed s a" for a r
  proof -
    from on [OF that(1)] obtain i where i: "on_slot (make_slot i) r" by blast
    have "slot_of_record r = int i" using on_slot_slot [OF i] by (simp add: make_slot_def)
    with kept_lease [OF inv that] have look: "?look a = Some (int i)" by simp
    from slots_matchD [OF match look] bound cap assms(2) have "i < 277" by auto
    with i look show ?thesis by blast
  qed
  have "record_ports ra \<inter> record_ports rb = {}"
    if ab: "a \<noteq> b" "store_get (table s) a = Some ra" "store_get (table s) b = Some rb"
      "\<not> being_removed s a" "\<not> being_removed s b" for a b ra rb
  proof -
    from slot [OF ab(2,4)] obtain i where i: "on_slot (make_slot i) ra" "i < 277" "?look a = Some (int i)" by blast
    from slot [OF ab(3,5)] obtain j where j: "on_slot (make_slot j) rb" "j < 277" "?look b = Some (int j)" by blast
    have "i \<noteq> j" using slots_match_unique [OF match i(3) j(3)] ab(1) by auto
    from slots_apart [OF i(1) j(1) this i(2) j(2)] show ?thesis .
  qed
  moreover have "slots_match (used_slots (slot_pool_of s)) (store_get (table s)) slot_of_record" if "at_rest s"
  proof -
    from at_rest_phase [OF that] have look: "?look = (\<lambda>n. map_option slot_of_record (store_get (table s) n))"
      by simp
    have "bij_betw (\<lambda>n. id (the (map_option slot_of_record (store_get (table s) n)))) A B \<longleftrightarrow>
        bij_betw (\<lambda>n. slot_of_record (the (store_get (table s) n))) A B" if "A = dom (store_get (table s))" for A B
      using that by (intro bij_betw_cong) auto
    with match show ?thesis unfolding look slots_match_def by (simp add: dom_def)
  qed
  ultimately show ?thesis by blast
qed

section \<open>What they cannot\<close>

text \<open>Records of three instances, the first two of them made on the first slot.\<close>

definition made_on :: "nat \<Rightarrow> string \<Rightarrow> instance_record" where
  "made_on i name = (new_record name (console_port (make_slot i)) (slot_adb_port (make_slot i))
     (slot_aa_forward_port (make_slot i)) False 0 [])\<lparr>inst_state := RUNNING\<rparr>"

lemma made_on_slot [simp]: "on_slot (make_slot i) (made_on i name)" "slot_of_record (made_on i name) = int i"
  by (simp_all add: made_on_def on_slot_def new_record_def slot_of_record_def)

definition eight :: "nat set \<Rightarrow> port_allocator" where
  "eight used = \<lparr>max_slots = 8, used_slots = used\<rparr>"

lemma allocate_eight [simp]:
  "allocate (eight {}) = (Inr (make_slot 0), eight {0})" "allocate (eight {0}) = (Inr (make_slot 1), eight {0, 1})"
  by (simp_all add: allocate_def eight_def upt_rec insert_commute)

definition four_idle :: "thread list" where
  "four_idle = [Idle, Idle, Idle, Idle]"

lemma start_eight: "server_init 8 = \<lparr>threads = four_idle, slot_pool_of = eight {}, table = []\<rparr>"
  by (simp add: server_init_def four_idle_def max_workers_def port_allocator_init_def eight_def numeral_eq_Suc)

text \<open>A whole creation by the first thread.\<close>

lemma run_create:
  assumes "allocate p = (Inr (make_slot i), p')" "safe_name name" "store_get st name = None"
  shows "interleaved\<^sup>*\<^sup>* \<lparr>threads = Idle # ts, slot_pool_of = p, table = st\<rparr>
    \<lparr>threads = Idle # ts, slot_pool_of = p', table = dict_set name (made_on i name) st\<rparr>"
  using works_run [OF works_create [OF assms(2,3) made_on_slot(1) assms(1)], of 0 "Idle # ts"] by simp

text \<open>
  A destruction repeated: if \<open>DestroyInstance\<close> is called for an instance while another call is still stopping
  it, and a new instance is created in between, the second call releases the slot of the new one.
\<close>

lemma repeated_destroy_shares_ports:
  "\<exists>s rb rc. interleaved\<^sup>*\<^sup>* (server_init 8) s \<and> at_rest s \<and> keys (table s) = [''b'', ''c''] \<and>
     store_get (table s) ''b'' = Some rb \<and> store_get (table s) ''c'' = Some rc \<and>
     inst_state rb = RUNNING \<and> inst_state rc = RUNNING \<and> record_ports rb = record_ports rc"
proof -
  define a where "a = made_on 0 ''a''"
  define a' where "a' = a\<lparr>inst_state := DESTROYING\<rparr>"
  have safe: "safe_name ''a''" "safe_name ''b''" "safe_name ''c''" by (simp_all add: safe_name_def is_alnum_def code_def)
  have slot: "slot_of_record a = 0" "slot_of_record a' = 0"
    using made_on_slot(2) [of 0 "''a''"] by (simp_all add: a_def a'_def slot_of_record_def)
  let ?S = "\<lambda>ts u st. \<lparr>threads = ts, slot_pool_of = eight u, table = st\<rparr>"
  have 1: "interleaved\<^sup>*\<^sup>* (server_init 8) (?S four_idle {0} [(''a'', a)])"
    using run_create [of "eight {}" 0 "eight {0}" "''a''" "[]" "[Idle, Idle, Idle]"] safe(1)
    by (simp add: start_eight four_idle_def store_get_def a_def)
  have 2: "interleaved\<^sup>*\<^sup>* (?S four_idle {0} [(''a'', a)]) (?S [Stopping ''a'' a, Idle, Idle, Idle] {0} [(''a'', a')])"
    using works_run [OF works_mark [of "[(''a'', a)]" "''a''" a], of 0 four_idle]
    by (simp add: four_idle_def store_get_def a'_def)
  have 3: "interleaved\<^sup>*\<^sup>* (?S [Stopping ''a'' a, Idle, Idle, Idle] {0} [(''a'', a')])
      (?S [Stopping ''a'' a, Stopping ''a'' a', Idle, Idle] {0} [(''a'', a')])"
    using works_run [OF works_mark [of "[(''a'', a')]" "''a''" a'], of 1 "[Stopping ''a'' a, Idle, Idle, Idle]"]
    by (simp add: store_get_def a'_def)
  have 4: "interleaved\<^sup>*\<^sup>* (?S [Stopping ''a'' a, Stopping ''a'' a', Idle, Idle] {0} [(''a'', a')])
      (?S [Idle, Stopping ''a'' a', Idle, Idle] {} [])"
    using works_run [OF works_destroy [of "''a''" a "eight {0}" "[(''a'', a')]"], of 0 "[Stopping ''a'' a, Stopping ''a'' a', Idle, Idle]"]
    by (simp add: slot release_slot_def store_remove_def eight_def)
  have 5: "interleaved\<^sup>*\<^sup>* (?S [Idle, Stopping ''a'' a', Idle, Idle] {} [])
      (?S [Idle, Stopping ''a'' a', Idle, Idle] {0} [(''b'', made_on 0 ''b'')])"
    using run_create [of "eight {}" 0 "eight {0}" "''b''" "[]" "[Stopping ''a'' a', Idle, Idle]"] safe(2)
    by (simp add: store_get_def)
  have 6: "interleaved\<^sup>*\<^sup>* (?S [Idle, Stopping ''a'' a', Idle, Idle] {0} [(''b'', made_on 0 ''b'')])
      (?S four_idle {} [(''b'', made_on 0 ''b'')])"
    using works_run [OF works_destroy [of "''a''" a' "eight {0}" "[(''b'', made_on 0 ''b'')]"], of 1 "[Idle, Stopping ''a'' a', Idle, Idle]"]
    by (simp add: slot release_slot_def store_remove_def eight_def four_idle_def)
  have 7: "interleaved\<^sup>*\<^sup>* (?S four_idle {} [(''b'', made_on 0 ''b'')])
      (?S four_idle {0} [(''b'', made_on 0 ''b''), (''c'', made_on 0 ''c'')])"
    using run_create [of "eight {}" 0 "eight {0}" "''c''" "[(''b'', made_on 0 ''b'')]" "[Idle, Idle, Idle]"] safe(3)
    by (simp add: store_get_def four_idle_def)
  let ?s = "?S four_idle {0} [(''b'', made_on 0 ''b''), (''c'', made_on 0 ''c'')]"
  from 1 2 3 4 5 6 7 have "interleaved\<^sup>*\<^sup>* (server_init 8) ?s" by (meson rtranclp_trans)
  then show ?thesis
    by (intro exI [of _ ?s] exI [of _ "made_on 0 ''b''"] exI [of _ "made_on 0 ''c''"] conjI)
      (simp_all add: at_rest_def four_idle_def store_get_def made_on_def new_record_def record_ports_def)
qed

text \<open>
  A creation repeated: both find no such instance, the second takes a slot and then cannot store its record, and
  nobody gives that slot back, then or later.
\<close>

lemma repeated_create_loses_a_slot:
  "\<exists>s. interleaved\<^sup>*\<^sup>* (server_init 8) s \<and> at_rest s \<and> used_slots (slot_pool_of s) = {0, 1} \<and>
     map slot_of_record (list_all_records (table s)) = [0] \<and>
     {s'. orderly\<^sup>*\<^sup>* s s'} \<subseteq> {s'. 1 \<in> used_slots (slot_pool_of s') \<and> slots_match (used_slots (slot_pool_of s') - {1})
       (\<lambda>n. lease_of (phase s' n) (store_get (table s') n)) id}"
proof -
  let ?S = "\<lambda>ts u st. \<lparr>threads = ts, slot_pool_of = eight u, table = st\<rparr>"
  let ?a = "made_on 0 ''a''"
  have safe: "safe_name ''a''" by (simp add: safe_name_def is_alnum_def code_def)
  have none: "store_get [] ''a'' = None" by (simp add: store_get_def)
  have 1: "interleaved\<^sup>*\<^sup>* (server_init 8) (?S [Idle, Creating ''a'', Idle, Idle] {} [])"
    using works_run [OF worksI [OF handler.checked [OF safe none] rtranclp.rtrancl_refl], of 1 four_idle]
    by (simp add: start_eight four_idle_def)
  have 2: "interleaved\<^sup>*\<^sup>* (?S [Idle, Creating ''a'', Idle, Idle] {} []) (?S [Idle, Creating ''a'', Idle, Idle] {0} [(''a'', ?a)])"
    using run_create [of "eight {}" 0 "eight {0}" "''a''" "[]" "[Creating ''a'', Idle, Idle]"] safe none by simp
  have full: "store_create ''a'' (console_port (make_slot 1)) (slot_adb_port (make_slot 1)) (slot_aa_forward_port (make_slot 1))
      False 0 [] [(''a'', ?a)] = (Inl (ValueError (''Instance '' @ quote ''a'' @ '' already exists'')), [(''a'', ?a)])"
    by (simp add: store_create_def add_record_def)
  have 3: "interleaved\<^sup>*\<^sup>* (?S [Idle, Creating ''a'', Idle, Idle] {0} [(''a'', ?a)]) (?S four_idle {0, 1} [(''a'', ?a)])"
    using works_run [OF worksI [OF handler.allotted [OF allocate_eight(2)]
        worksI [OF handler.not_stored [OF full] rtranclp.rtrancl_refl]], of 1 "[Idle, Creating ''a'', Idle, Idle]"]
    by (simp add: four_idle_def)
  let ?s = "?S four_idle {0, 1} [(''a'', ?a)]"
  from 1 2 3 have run: "interleaved\<^sup>*\<^sup>* (server_init 8) ?s" by (meson rtranclp_trans)
  have rest: "at_rest ?s" by (simp add: at_rest_def four_idle_def)
  have one: "one_per_name ?s" by (simp add: one_per_name_def four_idle_def nth_Cons')
  have look: "(\<lambda>n. map_option slot_of_record (if n = ''a'' then Some ?a else None)) = [''a'' \<mapsto> 0]"
    by (simp add: fun_eq_iff)
  have "slots_match {0} [''a'' \<mapsto> 0] id" by (simp add: slots_match_def bij_betw_def)
  then have "settled {1} (by_instance ?s)"
    unfolding by_instance_def at_rest_phase [OF rest]
    by (auto simp: look eight_def store_get_def insert_Diff_if intro: made_on_slot(1) exI [of _ 0])
  with orderly_run_settled [OF _ one] have "settled {1} (by_instance s')" if "orderly\<^sup>*\<^sup>* ?s s'" for s' using that by blast
  then show ?thesis
    using run rest made_on_slot(2) [of 0 "''a''"]
    by (intro exI [of _ ?s] conjI) (auto simp: eight_def list_all_records_def by_instance_def)
qed

text \<open>
  C10. Two requests for one instance at a time break this. When a client repeats \<open>DestroyInstance\<close>, as after a
  deadline, and a new instance is created before the second call goes on, that call releases the
  slot of the new instance: the next creation gets it too, and the server comes to rest with two running instances
  on the same ports. When two clients create one instance at a time, the server comes to rest with a
  slot in use that belongs to no instance, and it stays so whatever orderly clients do from then on.
\<close>

theorem repeated_requests_break_the_slots:
  "(\<exists>s rb rc. interleaved\<^sup>*\<^sup>* (server_init 8) s \<and> at_rest s \<and> keys (table s) = [''b'', ''c''] \<and>
     store_get (table s) ''b'' = Some rb \<and> store_get (table s) ''c'' = Some rc \<and>
     inst_state rb = RUNNING \<and> inst_state rc = RUNNING \<and> record_ports rb = record_ports rc) \<and>
   (\<exists>s. interleaved\<^sup>*\<^sup>* (server_init 8) s \<and> at_rest s \<and> used_slots (slot_pool_of s) = {0, 1} \<and>
     map slot_of_record (list_all_records (table s)) = [0] \<and>
     {s'. orderly\<^sup>*\<^sup>* s s'} \<subseteq> {s'. 1 \<in> used_slots (slot_pool_of s') \<and> slots_match (used_slots (slot_pool_of s') - {1})
       (\<lambda>n. lease_of (phase s' n) (store_get (table s') n)) id})"
  using repeated_destroy_shares_ports repeated_create_loses_a_slot by blast

section \<open>One request after the other\<close>

text \<open>A manager of the sequential model as a server with no request under way.\<close>

definition resting :: "sys \<Rightarrow> server" where
  "resting s = \<lparr>threads = replicate max_workers Idle, slot_pool_of = ports s, table = instances s\<rparr>"

lemma resting_run:
  assumes "works\<^sup>*\<^sup>* (Idle, ports s, instances s) (Idle, ports s', instances s')"
  shows "orderly\<^sup>*\<^sup>* (resting s) (resting s')"
proof -
  have "(replicate max_workers Idle)[0 := Idle] = replicate max_workers Idle" by (simp add: max_workers_def numeral_eq_Suc)
  with works_run_alone [OF assms, of 0 "replicate max_workers Idle"] show ?thesis
    by (simp add: resting_def max_workers_def)
qed

lemma resting_same: "ports s' = ports s \<Longrightarrow> instances s' = instances s \<Longrightarrow> orderly\<^sup>*\<^sup>* (resting s) (resting s')"
  by (simp add: resting_def)

lemma create_is_a_run:
  assumes kills: "kill_raises_os_error os" and ok: "manager_ok s" and run: "rpc os (CreateReq name avd snapshot head) s = Some (a, s')"
  shows "orderly\<^sup>*\<^sup>* (resting s) (resting s')"
proof (cases "create_refusal s name avd snapshot")
  case (Some cd)
  with run show ?thesis
    by (cases cd) (auto simp: rpc_def CreateInstance_steps refusal_status reply_of_def intro: resting_same)
next
  case None
  then have name: "safe_name name" "store_get (instances s) name = None" and free: "\<not> {..<max_slots (ports s)} \<subseteq> used_slots (ports s)"
    by (auto simp: create_refusal_def Let_def store_get_None split: if_splits simp del: set_map)
  from create_admitted [OF kills ok None run] show ?thesis
  proof (elim disjE exE conjE)
    fix e assume "same_manager s s'"
    then show ?thesis by (auto simp: same_manager_def intro: resting_same)
  next
    fix r i assume add: "added name i s r s'"
    obtain k where k: "allocate (ports s) = (Inr (make_slot k), (ports s)\<lparr>used_slots := insert k (used_slots (ports s))\<rparr>)"
      "k \<notin> used_slots (ports s)" "\<forall>j < k. j \<in> used_slots (ports s)"
      using allocate_lowest [OF free] by metis
    from add k(2,3) have "k = i" by (metis added_def linorder_neqE_nat)
    from add obtain j where j: "on_slot (make_slot j) r" by (auto simp: added_def record_ok_def on_slot_def)
    have "j = i" using on_slot_slot [OF j] add by (simp add: added_def make_slot_def)
    with j have "on_slot (make_slot i) r" by simp
    moreover have "ports s' = (ports s)\<lparr>used_slots := insert i (used_slots (ports s))\<rparr>" "instances s' = dict_set name r (instances s)"
      using add name(2) by (simp_all add: added_def store_get_None dict_set_new del: set_map)
    ultimately show ?thesis
      using works_create [OF name, of "make_slot i" r "ports s" "ports s'"] k(1) \<open>k = i\<close> by (intro resting_run) simp
  qed
qed

lemma destroy_is_a_run:
  assumes ok: "manager_ok s" and run: "rpc os (DestroyReq name) s = Some (a, s')"
  shows "orderly\<^sup>*\<^sup>* (resting s) (resting s')"
proof (cases "store_get (instances s) name")
  case None
  with run show ?thesis
    by (auto simp: rpc_def DestroyInstance_def existing_def bind_assoc bind_gets abort_run reply_of_def intro!: resting_same)
next
  case (Some r)
  then have get: "dict_get (instances s) name = Some r" by (simp add: store_get_def)
  from DestroyInstance_effect [OF ok get run] obtain new i where
      slot: "slot_of_record r = int i" "i \<in> used_slots (ports s)"
    and s': "s' = s\<lparr>instances := dict_pop name (instances s), tracked := dict_pop name (tracked s),
       ports := (ports s)\<lparr>used_slots := used_slots (ports s) - {i}\<rparr>, rpc_status := None, trace := new @ trace s\<rparr>"
    by metis
  have "snd (release_slot (slot_of_record r) (ports s)) = ports s'"
    using slot by (simp add: release_slot_def s')
  moreover have "snd (store_remove name (dict_set name q (instances s))) = instances s'" for q
    by (simp add: store_remove_def s' del: set_map)
  ultimately show ?thesis
    using rtranclp_trans [OF works_mark [OF Some, of "ports s"] works_destroy [of name r "ports s"]]
    by (intro resting_run) simp
qed

text \<open>
  C11. The handlers taken one after the other, every call to the operating system included, are runs of the
  interleaving model: whatever a request to create or to destroy does to the store and the slots of a manager in
  a good state, one orderly thread does in the steps above, so what is shown of all orderly runs holds of them.
\<close>

theorem sequential_requests_are_runs:
  assumes "kill_raises_os_error os" "manager_ok s" "rpc os req s = Some (a, s')"
    and "req = CreateReq name avd snapshot head \<or> req = DestroyReq name"
  shows "orderly\<^sup>*\<^sup>* (resting s) (resting s')"
  using assms(4)
proof
  assume "req = CreateReq name avd snapshot head"
  with assms(3) create_is_a_run [OF assms(1,2)] show ?thesis by simp
next
  assume "req = DestroyReq name"
  with assms(3) destroy_is_a_run [OF assms(2)] show ?thesis by simp
qed

theorem sequential_requests_are_runs_witness:
  "\<exists>a s'. rpc sample_os (CreateReq ''phone'' [] [] True) (create_manager 8) = Some (a, s') \<and>
     orderly\<^sup>*\<^sup>* (resting (create_manager 8)) (resting s')"
proof -
  obtain a s' where run: "rpc sample_os (CreateReq ''phone'' [] [] True) (create_manager 8) = Some (a, s')"
    using rpc_returns [OF sample_steady] by blast
  with sequential_requests_are_runs [OF sample_kills fresh_manager_ok run, of "''phone''" "[]" "[]" True]
  show ?thesis by blast
qed

lemma orderly_create:
  assumes "allocate p = (Inr (make_slot i), p')" "safe_name name" "store_get st name = None"
  shows "orderly\<^sup>*\<^sup>* \<lparr>threads = four_idle, slot_pool_of = p, table = st\<rparr>
    \<lparr>threads = four_idle, slot_pool_of = p', table = dict_set name (made_on i name) st\<rparr>"
proof -
  have idle: "four_idle[0 := Idle] = four_idle" "four_idle ! 0 = Idle" "0 < length four_idle" "j < length four_idle \<Longrightarrow> four_idle ! j = Idle" for j
    by (simp_all add: four_idle_def nth_Cons' numeral_eq_Suc)
  from works_run_alone [OF works_create [OF assms(2,3) made_on_slot(1) assms(1)] idle(3,2,4)]
  show ?thesis by (simp add: idle)
qed

theorem one_request_per_instance_is_safe_witness:
  "\<exists>s. orderly\<^sup>*\<^sup>* (server_init 8) s \<and> keys (table s) = [''a'', ''b''] \<and>
     record_ports (made_on 0 ''a'') \<inter> record_ports (made_on 1 ''b'') = {} \<and>
     slots_match (used_slots (slot_pool_of s)) (store_get (table s)) slot_of_record"
proof -
  let ?s1 = "\<lparr>threads = four_idle, slot_pool_of = eight {0}, table = [(''a'', made_on 0 ''a'')]\<rparr>"
  let ?s2 = "\<lparr>threads = four_idle, slot_pool_of = eight {0, 1}, table = [(''a'', made_on 0 ''a''), (''b'', made_on 1 ''b'')]\<rparr>"
  have "orderly\<^sup>*\<^sup>* (server_init 8) ?s1"
    using orderly_create [of "eight {}" 0 "eight {0}" "''a''" "[]"]
    by (simp add: start_eight store_get_def safe_name_def is_alnum_def code_def)
  moreover have "orderly\<^sup>*\<^sup>* ?s1 ?s2"
    using orderly_create [of "eight {0}" 1 "eight {0, 1}" "''b''" "[(''a'', made_on 0 ''a'')]"]
    by (simp add: store_get_def safe_name_def is_alnum_def code_def)
  ultimately have run: "orderly\<^sup>*\<^sup>* (server_init 8) ?s2" by (rule rtranclp_trans)
  have rest: "at_rest ?s2" and kept: "\<not> being_removed ?s2 n" for n
    by (simp_all add: at_rest_def being_removed_def four_idle_def)
  have "record_ports (made_on 0 ''a'') \<inter> record_ports (made_on 1 ''b'') = {}"
    using conjunct1 [OF one_request_per_instance_is_safe [OF run], rule_format, of "''a''" "''b''"] kept
    by (simp add: store_get_def)
  moreover have "slots_match (used_slots (slot_pool_of ?s2)) (store_get (table ?s2)) slot_of_record"
    using conjunct2 [OF one_request_per_instance_is_safe [OF run]] rest by simp
  ultimately show ?thesis using run by (intro exI [of _ ?s2] conjI) simp_all
qed

end
