(* ===== verification/Service_Progress.thy ===== *)
theory Service_Progress
  imports Service_Guarantees
begin

text \<open>
  When \<open>CreateInstance\<close> does create: on an operating system that does what the lifecycle asks of
  it, no admitted request fails.  The lemmas follow the stages of \<open>lifecycle.create\<close>, one rule for
  each construct.
\<close>

section \<open>Programs that succeed\<close>

text \<open>From every state in \<open>I\<close> the program returns a value in \<open>Q\<close>, in a state in \<open>I\<close>.\<close>

definition succeeds :: "os \<Rightarrow> (sys \<Rightarrow> bool) \<Rightarrow> 'a prog \<Rightarrow> ('a \<Rightarrow> bool) \<Rightarrow> bool" where
  "succeeds os I m Q \<longleftrightarrow> (\<forall>s. I s \<longrightarrow> (\<exists>x s'. m os s = Some (Inr x, s') \<and> I s' \<and> Q x))"

lemma succeedsE:
  assumes "succeeds os I m Q" "I s"
  obtains x s' where "m os s = Some (Inr x, s')" "I s'" "Q x"
  using assms unfolding succeeds_def by blast

lemma succeeds_return: "Q x \<Longrightarrow> succeeds os I (return x) Q"
  by (simp add: succeeds_def return_def)

lemma succeeds_bind:
  assumes "succeeds os I m R" "\<And>x. R x \<Longrightarrow> succeeds os I (f x) Q"
  shows "succeeds os I (bind m f) Q"
  unfolding succeeds_def
proof (intro allI impI)
  fix s assume "I s"
  with assms(1) obtain x s1 where x: "m os s = Some (Inr x, s1)" "I s1" "R x" by (rule succeedsE)
  from assms(2) [OF x(3)] x(2) obtain y s2 where "f x os s1 = Some (Inr y, s2)" "I s2" "Q y" by (rule succeedsE)
  with x(1) show "\<exists>y s'. bind m f os s = Some (Inr y, s') \<and> I s' \<and> Q y" by (simp add: bind_run)
qed

lemma succeeds_then: "succeeds os I m R \<Longrightarrow> succeeds os I n Q \<Longrightarrow> succeeds os I (andthen m n) Q"
  by (erule succeeds_bind)

lemma succeeds_some:
  "succeeds os I m (\<lambda>r. r \<noteq> None) \<Longrightarrow> (\<And>v. succeeds os I (f v) Q) \<Longrightarrow>
   succeeds os I (bind m (\<lambda>r. case r of Some v \<Rightarrow> f v | None \<Rightarrow> g)) Q"
  by (erule succeeds_bind) auto

lemma succeeds_catch: "succeeds os I m Q \<Longrightarrow> succeeds os I (catch m h) Q"
  unfolding succeeds_def by (auto simp: catch_run)

lemma succeeds_weaken: "succeeds os I m R \<Longrightarrow> (\<And>x. R x \<Longrightarrow> Q x) \<Longrightarrow> succeeds os I m Q"
  unfolding succeeds_def by blast

lemma succeeds_gets: "(\<And>s. I s \<Longrightarrow> Q (f s)) \<Longrightarrow> succeeds os I (gets f) Q"
  by (simp add: succeeds_def gets_def)

lemma succeeds_modify: "(\<And>s. I s \<Longrightarrow> I (f s)) \<Longrightarrow> succeeds os I (modify f) (\<lambda>_. True)"
  by (simp add: succeeds_def modify_def)

section \<open>An operating system that does what it is asked\<close>

text \<open>
  Every command exits with status 0 and, once booted, the emulator says so; processes start, files open,
  the pipe takes commands and the screenshots appear; the DHU's log says that it is connected; reading the
  clock twice takes less than a second.
\<close>

definition willing :: "os \<Rightarrow> string \<Rightarrow> bool" where
  "willing os name \<longleftrightarrow>
     (\<forall>h argv. \<exists>res. run_of os h argv None = Inr res \<and> returncode res = 0) \<and>
     (\<forall>h serial res. run_of os h [''adb'', ''-s'', serial, ''shell'', ''getprop'', ''sys.boot_completed''] None = Inr res \<longrightarrow>
        strip (stdout res) = ''1'') \<and>
     (\<forall>h argv. \<exists>p. popen_of os h argv = Inr p) \<and>
     (\<forall>h p. truncate_of os h p = Inr ()) \<and>
     (\<forall>h p c. pipe_write_of os h p c = Inr ()) \<and>
     (\<forall>h x. let p = x @ ''_screenshot.png'' in
        exists_of os h p \<and> (\<exists>n > 0. size_of os h p = Inr n) \<and> (\<exists>bs. bytes_of os h p = Inr bs)) \<and>
     (\<forall>h. \<exists>t. text_of os h (''/tmp/dhu_'' @ name @ ''.log'') = Inr t \<and> is_infix ''verify returned'' (lower t)) \<and>
     (\<forall>h. clock_of os (ReadClock # h) < clock_of os h + 1)"

text \<open>The AVD or the snapshot has a GPU mode.\<close>

definition gpu_mode_known :: "os \<Rightarrow> string \<Rightarrow> string \<Rightarrow> bool" where
  "gpu_mode_known os avd snapshot \<longleftrightarrow> (\<forall>s. \<exists>g s'. resolve_gpu_mode avd snapshot os s = Some (Inr g, s'))"

text \<open>What the stages keep: the record is in the store and the timeouts are at least a second.\<close>

definition under_way :: "string \<Rightarrow> sys \<Rightarrow> bool" where
  "under_way name s \<longleftrightarrow> name \<in> set (keys (instances s)) \<and> 1 \<le> boot_timeout s \<and> 1 \<le> dhu_timeout s"

lemma under_way_irrelevant [simp]:
  "under_way name (s\<lparr>trace := t\<rparr>) = under_way name s" "under_way name (s\<lparr>tracked := ps\<rparr>) = under_way name s"
  "under_way name (s\<lparr>new_handles := h\<rparr>) = under_way name s" "under_way name (s\<lparr>rpc_status := c\<rparr>) = under_way name s"
  by (simp_all add: under_way_def)

lemma succeeds_ask: "(\<And>h. \<exists>x. a os h = Inr x \<and> Q x) \<Longrightarrow> succeeds os (under_way name) (ask a c) Q"
  unfolding succeeds_def ask_def by (metis under_way_irrelevant(1))

lemma succeeds_quiet:
  assumes "quiet os m" "\<And>s. \<exists>x s'. m os s = Some (Inr x, s')"
  shows "succeeds os (under_way name) m (\<lambda>_. True)"
  unfolding succeeds_def
proof (intro allI impI)
  fix s assume "under_way name s"
  from assms(2) obtain x s' where run: "m os s = Some (Inr x, s')" by blast
  from assms(1) run obtain new where "s' = s\<lparr>trace := new @ trace s\<rparr>" by (rule quietD)
  with run \<open>under_way name s\<close> show "\<exists>x s'. m os s = Some (Inr x, s') \<and> under_way name s' \<and> True" by simp
qed

lemma succeeds_update:
  "succeeds os (under_way name) (update_instance name f) (\<lambda>_. True)"
  by (auto simp: succeeds_def under_way_def on_store_def store_update_def split: option.split simp: dict_get_None_iff)

lemma succeeds_until_deadline:
  assumes clock: "\<And>h. clock_of os (ReadClock # h) < clock_of os h + 1" and t: "1 \<le> t"
    and body: "succeeds os (under_way name) body (\<lambda>r. r \<noteq> None)"
  shows "succeeds os (under_way name) (until_deadline t body) (\<lambda>r. r \<noteq> None)"
  unfolding succeeds_def
proof (intro allI impI)
  fix s assume s: "under_way name s"
  let ?s = "s\<lparr>trace := ReadClock # ReadClock # trace s\<rparr>" and ?t0 = "clock_of os (trace s)"
  from s have "under_way name ?s" by simp
  with body obtain r s1 where "body os ?s = Some (Inr r, s1)" "under_way name s1" "r \<noteq> None" by (rule succeedsE)
  then obtain v where v: "body os ?s = Some (Inr (Some v), s1)" "under_way name s1" by auto
  have "clock_of os (ReadClock # trace s) < ?t0 + t" using clock [of "trace s"] t by linarith
  with v(1) have "until_deadline t body os s = Some (Inr (Some v), s1)"
    by (simp add: until_deadline_def bind_run time_time_def ask_def again.simps deadline_step_def return_def)
  with v(2) show "\<exists>x s'. until_deadline t body os s = Some (Inr x, s') \<and> under_way name s' \<and> x \<noteq> None" by simp
qed

section \<open>The stages of creating\<close>

lemmas succeeds_rules = succeeds_return succeeds_bind

lemma willing_calls:
  assumes "willing os name"
  shows "succeeds os (under_way n) (run argv) (\<lambda>res. returncode res = 0)"
    "succeeds os (under_way n) (run_check argv) (\<lambda>_. True)"
    "succeeds os (under_way n) (popen argv) (\<lambda>_. True)"
    "succeeds os (under_way n) (open_w p) (\<lambda>_. True)"
    "succeeds os (under_way n) (pipe_write p c) (\<lambda>_. True)"
    "succeeds os (under_way n) time_time (\<lambda>_. True)"
    "succeeds os (under_way n) (sleep d) (\<lambda>_. True)"
proof -
  show run: "succeeds os (under_way n) (run argv) (\<lambda>res. returncode res = 0)"
    unfolding run_within_def using assms by (intro succeeds_ask) (auto simp: willing_def)
  show "succeeds os (under_way n) (run_check argv) (\<lambda>_. True)"
    unfolding run_check_def by (rule succeeds_bind [OF run]) (simp add: succeeds_return)
  show "succeeds os (under_way n) (popen argv) (\<lambda>_. True)" "succeeds os (under_way n) (open_w p) (\<lambda>_. True)"
    "succeeds os (under_way n) (pipe_write p c) (\<lambda>_. True)" "succeeds os (under_way n) time_time (\<lambda>_. True)"
    "succeeds os (under_way n) (sleep d) (\<lambda>_. True)"
    unfolding popen_def open_w_def pipe_write_def time_time_def sleep_def
    using assms by (intro succeeds_ask, auto simp: willing_def)+
qed

lemma willing_clock: "willing os name \<Longrightarrow> clock_of os (ReadClock # h) < clock_of os h + 1"
  by (simp add: willing_def)

lemma take_file_succeeds:
  assumes "willing os name" "path = x @ ''_screenshot.png''"
  shows "succeeds os (under_way n) (take_file path) (\<lambda>r. r \<noteq> None)"
proof -
  have shot: "exists_of os h path \<and> (\<exists>n > 0. size_of os h path = Inr n) \<and> (\<exists>bs. bytes_of os h path = Inr bs)" for h
    using assms unfolding willing_def Let_def by blast
  have there: "succeeds os (under_way n) (path_exists path) (\<lambda>b. b)" unfolding path_exists_def using shot by (intro succeeds_ask, blast)
  have size: "succeeds os (under_way n) (getsize path) (\<lambda>n. 0 < n)" unfolding getsize_def using shot by (intro succeeds_ask, blast)
  have data: "succeeds os (under_way n) (read_bytes path) (\<lambda>_. True)" unfolding read_bytes_def using shot by (intro succeeds_ask, blast)
  have "succeeds os (under_way n) (bind (read_bytes path) (\<lambda>bs. return (Some bs))) (\<lambda>r. r \<noteq> None)"
    by (rule succeeds_bind [OF data]) (simp add: succeeds_return)
  then have "succeeds os (under_way n) (bind (getsize path) (\<lambda>n.
      if n > 0 then bind (read_bytes path) (\<lambda>bs. return (Some bs)) else return None)) (\<lambda>r. r \<noteq> None)"
    by (intro succeeds_bind [OF size]) simp
  then show ?thesis unfolding take_file_def by (intro succeeds_bind [OF there]) simp
qed

lemma rm_f_succeeds: "willing os name \<Longrightarrow> succeeds os (under_way n) (rm_f path) (\<lambda>_. True)"
  unfolding rm_f_def by (rule succeeds_then [OF willing_calls(1)]) (auto intro: succeeds_return)

lemma dhu_screenshot_succeeds:
  assumes w: "willing os name"
  shows "succeeds os (under_way n) (wait_for_dhu_screenshot name pipe) (\<lambda>_. True)"
proof -
  note calls = willing_calls [OF w, where n = n]
  let ?path = "''/tmp/dhu_'' @ name @ ''_screenshot.png''"
  have "succeeds os (under_way n) (take_file ?path) (\<lambda>r. r \<noteq> None)" by (rule take_file_succeeds [OF w, of _ "''/tmp/dhu_'' @ name"]) simp
  then have "succeeds os (under_way n) (andthen (rm_f ?path) (andthen (pipe_write pipe (''screenshot '' @ ?path))
      (andthen (sleep 2) (take_file ?path)))) (\<lambda>r. r \<noteq> None)"
    by (intro succeeds_then [OF rm_f_succeeds [OF w]] succeeds_then [OF calls(5)] succeeds_then [OF calls(7)])
  from succeeds_until_deadline [OF willing_clock [OF w] _ this, of 90]
  have "succeeds os (under_way n) (until_deadline 90 (andthen (rm_f ?path) (andthen (pipe_write pipe (''screenshot '' @ ?path))
      (andthen (sleep 2) (take_file ?path))))) (\<lambda>r. r \<noteq> None)" by (simp only: one_le_numeral)
  then show ?thesis
    unfolding wait_for_dhu_screenshot_def Let_def by (rule succeeds_bind) (auto intro: succeeds_return)
qed

lemma emulator_screenshot_succeeds:
  assumes w: "willing os name"
  shows "succeeds os (under_way n) (emulator_screenshot_to_bytes serial) (\<lambda>_. True)"
proof -
  let ?path = "''/tmp/emu_'' @ serial @ ''_screenshot.png''"
  have "succeeds os (under_way n) (take_file ?path) (\<lambda>r. r \<noteq> None)" by (rule take_file_succeeds [OF w, of _ "''/tmp/emu_'' @ serial"]) simp
  then have "succeeds os (under_way n) (take_or_sleep ?path) (\<lambda>r. r \<noteq> None)"
    unfolding take_or_sleep_def by (rule succeeds_bind) (auto intro: succeeds_return)
  from succeeds_until_deadline [OF willing_clock [OF w] _ this, of 5]
  have "succeeds os (under_way n) (until_deadline 5 (take_or_sleep ?path)) (\<lambda>r. r \<noteq> None)" by (simp only: one_le_numeral)
  then have "succeeds os (under_way n) (bind (until_deadline 5 (take_or_sleep ?path)) (\<lambda>r. case r of
      Some bs \<Rightarrow> return bs | None \<Rightarrow> return [])) (\<lambda>_. True)"
    by (rule succeeds_bind) (auto intro: succeeds_return)
  then show ?thesis unfolding emulator_screenshot_to_bytes_def Let_def
    by (intro succeeds_then [OF rm_f_succeeds [OF w]] succeeds_then [OF willing_calls(1) [OF w]])
qed

lemma waits_succeed:
  assumes w: "willing os name"
  shows "succeeds os (under_way n) (wait_for_boot serial) (\<lambda>_. True)"
    "succeeds os (under_way n) (check_snapshot_sentinel serial) (\<lambda>_. True)"
    "succeeds os (under_way n) (wait_for_dhu (''/tmp/dhu_'' @ name @ ''.log'')) (\<lambda>_. True)"
proof -
  let ?boot = "bind (run [''adb'', ''-s'', serial, ''shell'', ''getprop'', ''sys.boot_completed'']) (\<lambda>r.
      if strip (stdout r) = ''1'' then return (Some ()) else andthen (sleep 1) (return None))"
  have "succeeds os (under_way n) (run [''adb'', ''-s'', serial, ''shell'', ''getprop'', ''sys.boot_completed''])
      (\<lambda>r. strip (stdout r) = ''1'')"
    unfolding run_within_def using w by (intro succeeds_ask) (metis willing_def)
  then have "succeeds os (under_way n) ?boot (\<lambda>r. r \<noteq> None)"
    by (rule succeeds_bind) (simp add: succeeds_return)
  note boot = succeeds_until_deadline [OF willing_clock [OF w] _ this]
  show "succeeds os (under_way n) (wait_for_boot serial) (\<lambda>_. True)"
    unfolding wait_for_boot_def
  proof (rule succeeds_bind [of _ _ _ "\<lambda>t. 1 \<le> t"], rule succeeds_gets)
    fix t :: int assume "1 \<le> t"
    then have "1 \<le> (of_int t :: rat)" by simp
    from boot [OF this] show "succeeds os (under_way n) (bind (until_deadline (of_int t) ?boot) (\<lambda>r. case r of
       Some _ \<Rightarrow> return ()
     | None \<Rightarrow> raise (TimeoutError
         (''Emulator '' @ serial @ '' did not boot within '' @ show_int t @ ''s'')))) (\<lambda>_. True)"
      by (rule succeeds_some) (simp add: succeeds_return)
  qed (simp add: under_way_def)
  show "succeeds os (under_way n) (check_snapshot_sentinel serial) (\<lambda>_. True)"
    unfolding check_snapshot_sentinel_def by (rule succeeds_bind [OF willing_calls(1) [OF w]]) (simp add: succeeds_return)
  let ?log = "''/tmp/dhu_'' @ name @ ''.log''"
  let ?look = "bind (catch (bind (read_text ?log) (\<lambda>t. return (is_infix ''verify returned'' (lower t))))
       (\<lambda>e. if e = FileNotFoundError then return False else raise e)) (\<lambda>connected.
     if connected then return (Some ()) else andthen (sleep (1 / 2)) (return None))"
  have "succeeds os (under_way n) (read_text ?log) (\<lambda>t. is_infix ''verify returned'' (lower t))"
    unfolding read_text_def using w by (intro succeeds_ask) (metis willing_def)
  then have "succeeds os (under_way n) (bind (read_text ?log) (\<lambda>t. return (is_infix ''verify returned'' (lower t)))) (\<lambda>b. b)"
    by (rule succeeds_bind) (simp add: succeeds_return)
  from succeeds_catch [OF this]
  have "succeeds os (under_way n) ?look (\<lambda>r. r \<noteq> None)" by (rule succeeds_bind) (simp add: succeeds_return)
  note look = succeeds_until_deadline [OF willing_clock [OF w] _ this]
  show "succeeds os (under_way n) (wait_for_dhu ?log) (\<lambda>_. True)"
    unfolding wait_for_dhu_def
  proof (rule succeeds_bind [of _ _ _ "\<lambda>t. 1 \<le> t"], rule succeeds_gets)
    fix t :: int assume "1 \<le> t"
    then have "1 \<le> (of_int t :: rat)" by simp
    from look [OF this] show "succeeds os (under_way n) (bind (until_deadline (of_int t) ?look) (\<lambda>r. case r of
       Some _ \<Rightarrow> return ()
     | None \<Rightarrow> raise (TimeoutError
         (''DHU did not complete SSL handshake within '' @ show_int t @ ''s'')))) (\<lambda>_. True)"
      by (rule succeeds_some) (simp add: succeeds_return)
  qed (simp add: under_way_def)
qed

lemma succeeds_handles: "succeeds os (under_way n) (set_new_handles f) (\<lambda>_. True)"
  by (rule succeeds_modify) simp

lemma create_dhu_succeeds:
  assumes w: "willing os name"
  shows "succeeds os (under_way name) (create_dhu name serial head slot keeper) (\<lambda>_. True)"
proof -
  note calls = willing_calls [OF w]
  have home: "succeeds os (under_way name) android_home (\<lambda>_. True)"
    unfolding android_home_def by (intro succeeds_quiet quiet_intros) (simp add: bind_run environ_get_def return_def)
  show ?thesis
    unfolding create_dhu_def Let_def
    by (intro succeeds_bind [OF home] succeeds_bind [OF calls(3)] succeeds_bind [OF succeeds_handles] succeeds_bind [OF succeeds_update]
        succeeds_bind [OF waits_succeed(3) [OF w]] succeeds_bind [OF dhu_screenshot_succeeds [OF w]]
        succeeds_bind [OF emulator_screenshot_succeeds [OF w]] succeeds_bind [OF calls(6)] succeeds_update)
qed

lemma create_keeper_succeeds:
  assumes w: "willing os name"
  shows "succeeds os (under_way name) (create_keeper name serial head slot) (\<lambda>_. True)"
  unfolding create_keeper_def Let_def
  by (intro succeeds_bind [OF willing_calls(2) [OF w]] succeeds_bind [OF willing_calls(1) [OF w]]
      succeeds_bind [OF willing_calls(3) [OF w]] succeeds_bind [OF succeeds_handles] create_dhu_succeeds [OF w])

lemma create_socat_succeeds:
  assumes w: "willing os name"
  shows "succeeds os (under_way name) (create_socat name serial snapshot head slot) (\<lambda>_. True)"
proof -
  have "succeeds os (under_way name) (if snapshot \<noteq> [] then check_snapshot_sentinel serial else return ()) (\<lambda>_. True)"
    using waits_succeed(2) [OF w] by (simp add: succeeds_return)
  then show ?thesis
    unfolding create_socat_def
    by (intro succeeds_bind [OF waits_succeed(1) [OF w]] succeeds_then succeeds_bind [OF willing_calls(3) [OF w]]
        succeeds_bind [OF succeeds_handles] succeeds_bind [OF succeeds_update] create_keeper_succeeds [OF w])
qed

lemma create_emulator_succeeds:
  assumes w: "willing os name" and gpu: "gpu_mode_known os avd snapshot"
  shows "succeeds os (under_way name) (create_emulator name avd snapshot head slot) (\<lambda>_. True)"
proof -
  from gpu have "succeeds os (under_way name) (resolve_gpu_mode avd snapshot) (\<lambda>_. True)"
    by (intro succeeds_quiet quiet_gpu) (simp add: gpu_mode_known_def)
  then show ?thesis
    unfolding create_emulator_def
    by (intro succeeds_bind [OF willing_calls(1) [OF w]] succeeds_bind [of _ _ "resolve_gpu_mode avd snapshot"]
        succeeds_bind [OF willing_calls(4) [OF w]] succeeds_bind [OF willing_calls(3) [OF w]]
        succeeds_bind [OF succeeds_handles] succeeds_bind [OF succeeds_update] create_socat_succeeds [OF w])
qed

lemma create_succeeds:
  assumes w: "willing os name" and gpu: "gpu_mode_known os avd snapshot"
  shows "succeeds os (under_way name) (create name avd snapshot head slot) (\<lambda>r. r \<noteq> None)"
proof -
  have stored: "succeeds os (under_way name) (get_instance name) (\<lambda>r. r \<noteq> None)"
    by (rule succeeds_gets) (auto simp: under_way_def store_get_def dict_get_None_iff)
  have track: "succeeds os (under_way name) (modify (\<lambda>s. s\<lparr>tracked := dict_set name (new_handles s) (tracked s)\<rparr>)) (\<lambda>_. True)"
    by (rule succeeds_modify) simp
  show ?thesis
    unfolding create_def
    by (intro succeeds_bind [OF succeeds_handles] succeeds_catch succeeds_bind [OF create_emulator_succeeds [OF w gpu]]
        succeeds_bind [OF track] stored)
qed

lemma create_in_slot_succeeds:
  assumes w: "willing os name" and gpu: "gpu_mode_known os avd snapshot" and new: "name \<notin> set (keys (instances s))"
    and t: "1 \<le> boot_timeout s" "1 \<le> dhu_timeout s"
  obtains x s' where "create_in_slot name avd snapshot head slot os s = Some (Inr x, s')"
proof -
  let ?t = "to_ms (clock_of os (trace s))"
  let ?r = "new_record name (console_port slot) (slot_adb_port slot) (slot_aa_forward_port slot) head ?t avd"
  let ?s = "s\<lparr>trace := ReadClock # trace s, instances := dict_set name ?r (instances s)\<rparr>"
  have "under_way name ?s" using t by (simp add: under_way_def)
  with create_succeeds [OF w gpu] obtain r s' where "create name avd snapshot head slot os ?s = Some (Inr r, s')" "r \<noteq> None"
    by (rule succeedsE)
  with new have "create_in_slot name avd snapshot head slot os s = Some (Inr (CreateInstanceResponse (record_to_proto (the r))), s')"
    by (auto simp: create_in_slot_def bind_run time_time_def ask_def on_store_def store_create_def add_record_def catch_run the_record_def return_def)
  then show thesis by (rule that)
qed

section \<open>Creating on such a system\<close>

lemma create_succeeds_on:
  assumes "willing os name" "gpu_mode_known os (if avd \<noteq> [] then avd else default_avd) (if snapshot \<noteq> [] then snapshot else default_snapshot)"
    and "kill_raises_os_error os" "manager_ok s" "1 \<le> boot_timeout s" "1 \<le> dhu_timeout s"
    and "create_refusal s name avd snapshot = None"
  shows "\<exists>r i s'. rpc os (CreateReq name avd snapshot head) s = Some (Replied (CreateInstanceResponse (record_to_proto r)), s') \<and>
    added name i s r s' \<and> inst_state r = RUNNING \<and> manager_ok s'"
proof -
  let ?s = "s\<lparr>rpc_status := None\<rparr>"
  from assms(7) have new: "name \<notin> set (keys (instances s))"
    by (auto simp: create_refusal_def Let_def split: if_splits simp del: set_map)
  from assms(7) obtain i where i: "i \<notin> used_slots (ports s)" "handle (CreateReq name avd snapshot head) os ?s =
     create_in_slot name (if avd \<noteq> [] then avd else default_avd) (if snapshot \<noteq> [] then snapshot else default_snapshot) head
       (make_slot i) os (?s\<lparr>ports := (ports s)\<lparr>used_slots := insert i (used_slots (ports s))\<rparr>\<rparr>)" (is "_ = ?create")
    by (rule admitted_create) auto
  obtain x s' where run: "?create = Some (Inr x, s')"
    by (rule create_in_slot_succeeds [OF assms(1,2), of "?s\<lparr>ports := (ports s)\<lparr>used_slots := insert i (used_slots (ports s))\<rparr>\<rparr>"])
      (use new assms(5,6) in simp_all)
  from assms(4) have "wf_dict (instances ?s)" by (simp add: manager_ok_def)
  from create_in_slot_cases [OF assms(3) _ this _ _ run] new i(1) obtain r where
    r: "x = CreateInstanceResponse (record_to_proto r)" "instances s' = instances s @ [(name, r)]" "inst_state r = RUNNING"
    by (auto simp: up_def)
  from run i(2) r(1) have rpc: "rpc os (CreateReq name avd snapshot head) s =
      Some (Replied (CreateInstanceResponse (record_to_proto r)), s')"
    by (simp add: rpc_def reply_of_def)
  from create_admitted [OF assms(3,4,7) rpc] obtain r' j where "added name j s r' s'" "manager_ok s'" by auto
  moreover from this(1) r(2) have "r' = r" by (simp add: added_def)
  ultimately show ?thesis using rpc r(3) by blast
qed

text \<open>
  C5. On an operating system that does what it is asked (commands exit with 0, the emulator says that it has
  booted, processes start, the screenshots appear, the DHU's log says that it is connected, and the clock does not
  jump), and for an AVD whose GPU mode can be found, every CreateInstance that is not refused succeeds: the
  answer is the new instance, which is running, on the lowest free slot, with its four processes started and
  tracked.  In particular no timeout of the lifecycle can fire.
\<close>

theorem create_succeeds_on_willing_os:
  assumes "willing os name" "gpu_mode_known os (if avd \<noteq> [] then avd else default_avd) (if snapshot \<noteq> [] then snapshot else default_snapshot)"
    and "kill_raises_os_error os" "manager_ok s" "1 \<le> boot_timeout s" "1 \<le> dhu_timeout s"
    and "create_refusal s name avd snapshot = None"
  shows "\<exists>r i s'. rpc os (CreateReq name avd snapshot head) s = Some (Replied (CreateInstanceResponse (record_to_proto r)), s') \<and>
    added name i s r s' \<and> inst_state r = RUNNING \<and> manager_ok s'"
  using assms by (rule create_succeeds_on)

lemma sample_willing: "willing sample_os name"
proof -
  have "is_infix ''verify returned'' (lower ''hw.gpu.mode=host verify returned'')" by code_simp
  then show ?thesis
    by (simp add: willing_def sample_os_def strip_def is_space_def code_def)
qed

lemma sample_gpu_mode: "gpu_mode_known sample_os avd snapshot"
proof -
  have none: "gpu_flag (string_runs [] [1, 2, 3]) = None" by code_simp
  have mode: "gpu_of_config (text_lines ''hw.gpu.mode=host verify returned'') = Some ''host verify returned''" by code_simp
  have answers: "bytes_of sample_os h p = Inr [1, 2, 3]" "text_of sample_os h p = Inr ''hw.gpu.mode=host verify returned''"
    "env_of sample_os v = None" "expanduser_of sample_os p = p" for h p v by (simp_all add: sample_os_def)
  show ?thesis
    unfolding gpu_mode_known_def resolve_gpu_mode_def read_gpu_from_snapshot_def read_gpu_from_config_def avd_home_def Let_def
    by (simp add: prog_defs answers none mode del: string_runs.simps)
qed

lemma create_succeeds_on_willing_os_witness:
  "\<exists>r i s'. rpc sample_os (CreateReq ''phone'' [] [] True) (create_manager 8) =
     Some (Replied (CreateInstanceResponse (record_to_proto r)), s') \<and> added ''phone'' i (create_manager 8) r s' \<and> inst_state r = RUNNING"
proof -
  have "create_refusal (create_manager 8) ''phone'' [] [] = None" by code_simp
  then show ?thesis
    using create_succeeds_on_willing_os [OF sample_willing sample_gpu_mode sample_kills fresh_manager_ok, of 8 "''phone''" "[]" "[]" True]
    by (auto simp: create_manager_def)
qed

end
