(* ===== verification/Server_Lifetime.thy ===== *)
theory Server_Lifetime
  imports Service_Progress Lifecycle_Safety
begin

text \<open>
  The life of the instance manager's process, \<open>main\<close> of
  \<^verbatim>\<open>instance_manager/src/server.py\<close>: the ports are tested, what an earlier run left behind is
  killed, the two servers are started, requests and refresh rounds are served until a signal comes, the
  instances are destroyed and the process exits.  What a socket, the log file, gRPC and the HTTP server answer is
  a parameter.
\<close>

section \<open>Starting up\<close>

record startup =
  bind_port :: "int \<Rightarrow> unit result"   \<comment> \<open>\<open>sock.bind\<close> of the test\<close>
  open_log :: "unit result"           \<comment> \<open>\<open>logging.FileHandler\<close>\<close>
  grpc_listens :: "unit result"       \<comment> \<open>\<open>add_insecure_port\<close>\<close>
  http_listens :: "unit result"       \<comment> \<open>\<open>start_web_server\<close>\<close>

text \<open>How the process ends: \<open>sys.exit\<close> with a message or with a status, or an exception.\<close>

datatype ending = Refused string | Uncaught exn | Ended int

definition check_port_free :: "startup \<Rightarrow> int \<Rightarrow> ending option" where
  "check_port_free st port = (case bind_port st port of
       Inr _ \<Rightarrow> None
     | Inl e \<Rightarrow> Some (if is_os_error e then Refused (''ERROR: port '' @ show_int port @ '' already in use'')
         else Uncaught e))"

text \<open>\<open>main\<close> until \<open>server.start()\<close>: why it has ended, if it has, and the manager.\<close>

definition start_up :: "startup \<Rightarrow> os \<Rightarrow> (ending option \<times> sys) option" where
  "start_up st os =
     (let s = create_manager 8
      in case check_port_free st 50061 of Some e \<Rightarrow> Some (Some e, s) | None \<Rightarrow>
         (case check_port_free st 8080 of Some e \<Rightarrow> Some (Some e, s) | None \<Rightarrow>
         (case open_log st of Inl e \<Rightarrow> Some (Some (Uncaught e), s) | Inr _ \<Rightarrow>
         (case kill_orphan_emulators os s of
            None \<Rightarrow> None
          | Some (Inl e, s') \<Rightarrow> Some (Some (Uncaught e), s')
          | Some (Inr _, s') \<Rightarrow>
              (case grpc_listens st of Inl e \<Rightarrow> Some (Some (Uncaught e), s') | Inr _ \<Rightarrow>
              (case http_listens st of Inl e \<Rightarrow> Some (Some (Uncaught e), s') | Inr _ \<Rightarrow> Some (None, s')))))))"

section \<open>Shutting down\<close>

text \<open>
  The signal handler.  The worker threads take requests until \<open>server.stop\<close>, which comes last, and finish
  what they have begun before the process is gone: \<open>late\<close> is what they do after the instances
  were destroyed.
\<close>

definition handle_shutdown :: "os \<Rightarrow> event list \<Rightarrow> sys \<Rightarrow> (ending \<times> sys) option" where
  "handle_shutdown os late s = (case shutdown_all_instances os s of
       None \<Rightarrow> None
     | Some (Inl e, s') \<Rightarrow> Some (Uncaught e, s')
     | Some (Inr _, s') \<Rightarrow> map_option (\<lambda>(_, s''). (Ended 0, s'')) (steps os late s'))"

definition server_main :: "startup \<Rightarrow> os \<Rightarrow> event list \<Rightarrow> event list \<Rightarrow> (ending \<times> sys) option" where
  "server_main st os served late = (case start_up st os of
       None \<Rightarrow> None
     | Some (Some e, s) \<Rightarrow> Some (e, s)
     | Some (None, s) \<Rightarrow>
         (case steps os served s of None \<Rightarrow> None | Some (_, s') \<Rightarrow> handle_shutdown os late s'))"

section \<open>What starting up does\<close>

lemma quiet_kill_orphans: "quiet os kill_orphan_emulators"
  unfolding kill_orphan_emulators_def by (intro quiet_intros)

lemma term_kill_orphans: "terminates os kill_orphan_emulators"
  unfolding kill_orphan_emulators_def by (intro term_intros)

lemma start_up_runs:
  "\<exists>ended s. start_up st os = Some (ended, s) \<and> s = (create_manager 8)\<lparr>trace := trace s\<rparr> \<and>
     started (trace s) = [] \<and> ended \<noteq> Some (Ended 0) \<and>
     ((\<exists>e. bind_port st 50061 = Inl e \<or> bind_port st 8080 = Inl e) \<longrightarrow> trace s = [] \<and> ended \<noteq> None)"
proof -
  from term_kill_orphans obtain q s where run: "kill_orphan_emulators os (create_manager 8) = Some (q, s)"
    by (rule terminatesE)
  have fresh: "trace (create_manager 8) = []" by (simp add: create_manager_def)
  with quietD [OF quiet_kill_orphans run] have "s = (create_manager 8)\<lparr>trace := trace s\<rparr>" "started (trace s) = []"
    by (metis append_Nil2 sys.select_convs sys.update_convs sys.surjective)+
  with run fresh show ?thesis
    by (auto simp: start_up_def check_port_free_def Let_def create_manager_def split: sum.split)
qed

section \<open>What shutting down does\<close>

text \<open>
  Between \<open>s\<close> and \<open>s'\<close> the instance was handed to \<open>destroy\<close> with its process handles,
  and unless that raised, its keeper, its forwarder and its emulator have been seen to exit.
\<close>

definition shut_down :: "os \<Rightarrow> instance_record \<Rightarrow> process_handles \<Rightarrow> sys \<Rightarrow> sys \<Rightarrow> bool" where
  "shut_down os r h s s' \<longleftrightarrow> (\<exists>u q v before new after.
     trace u = before @ trace s \<and> dict_get (tracked u) (inst_name r) = Some h \<and> destroy r os u = Some (q, v) \<and>
     trace v = new @ trace u \<and> trace s' = after @ trace v \<and>
     (q = Inr () \<longrightarrow> (\<forall>p. Some p \<in> {h_keeper h, h_socat h, h_emulator h} \<longrightarrow> seen_exited new p)))"

lemma shut_down_later: "shut_down os r h s1 s' \<Longrightarrow> trace s1 = new @ trace s \<Longrightarrow> shut_down os r h s s'"
  unfolding shut_down_def by (metis append.assoc)

lemma shut_down_here:
  assumes h: "dict_get (tracked s) (inst_name r) = Some h" and run: "destroy r os s = Some (q, s1)"
    and later: "trace s' = after @ trace s1"
  shows "shut_down os r h s s'"
proof -
  from run obtain new where new: "trace s1 = new @ trace s" by (auto elim: destroy_effect)
  have "\<exists>new. trace s1 = new @ trace s \<and>
      (q = Inr () \<longrightarrow> (\<forall>p. Some p \<in> {h_keeper h, h_socat h, h_emulator h} \<longrightarrow> seen_exited new p))"
  proof (cases "q = Inr ()")
    case True
    with destroy_sees_exits [OF h] run show ?thesis by blast
  qed (use new in auto)
  with h run later show ?thesis unfolding shut_down_def by (metis append_Nil)
qed

lemma shutdown_each:
  assumes "distinct (map inst_name rs)"
  shows "\<exists>s' new. for_each (\<lambda>r. ignoring (\<lambda>_. True) (destroy r)) rs os s = Some (Inr (), s') \<and>
    s' = s\<lparr>tracked := fold dict_pop (map inst_name rs) (tracked s), trace := new @ trace s\<rparr> \<and> started new = [] \<and>
    (\<forall>r h. r \<in> set rs \<and> dict_get (tracked s) (inst_name r) = Some h \<longrightarrow> shut_down os r h s s')"
  using assms
proof (induction rs arbitrary: s)
  case Nil
  show ?case by (simp add: return_def, intro exI [of _ "[]"]) simp
next
  case (Cons r rs)
  have "terminates os (destroy r)" by (intro term_intros)
  then obtain q s1 where run: "destroy r os s = Some (q, s1)" by (rule terminatesE)
  then obtain new where s1: "s1 = s\<lparr>tracked := dict_pop (inst_name r) (tracked s), trace := new @ trace s\<rparr>"
    "started new = []" by (rule destroy_effect)
  from Cons.prems have "distinct (map inst_name rs)" by simp
  from Cons.IH [OF this, of s1] obtain s' more where rest: "for_each (\<lambda>r. ignoring (\<lambda>_. True) (destroy r)) rs os s1 = Some (Inr (), s')"
      "s' = s1\<lparr>tracked := fold dict_pop (map inst_name rs) (tracked s1), trace := more @ trace s1\<rparr>" "started more = []"
      "\<And>r h. r \<in> set rs \<Longrightarrow> dict_get (tracked s1) (inst_name r) = Some h \<Longrightarrow> shut_down os r h s1 s'"
    by blast
  have "shut_down os x h s s'" if x: "x \<in> set (r # rs)" "dict_get (tracked s) (inst_name x) = Some h" for x h
  proof (cases "x = r")
    case True
    with x(2) shut_down_here [OF _ run] rest(2) show ?thesis by simp
  next
    case False
    with x(1) have "x \<in> set rs" by simp
    moreover with Cons.prems have "inst_name x \<noteq> inst_name r" by (metis distinct.simps(2) image_eqI list.simps(9) set_map)
    ultimately have "shut_down os x h s1 s'" using rest(4) x(2) s1 by (simp add: dict_get_pop)
    with s1(1) show ?thesis by (auto intro: shut_down_later)
  qed
  with run rest(1-3) s1 show ?case
    by (intro exI [of _ s'] exI [of _ "more @ new"]) (simp add: ignoring_all)
qed

lemma names_of_records:
  assumes "manager_ok s"
  shows "map inst_name (list_all_records (instances s)) = keys (instances s)"
proof -
  have "inst_name r = name" if "(name, r) \<in> set (instances s)" for name r
  proof -
    from assms that have "dict_get (instances s) name = Some r" by (simp add: manager_ok_def dict_get_iff)
    with assms show ?thesis by (auto simp: manager_ok_def record_ok_def)
  qed
  then show ?thesis by (auto simp: list_all_records_def)
qed

lemma popped_empty: "set (keys d) \<subseteq> set ks \<Longrightarrow> fold dict_pop ks d = []"
proof (induction ks arbitrary: d)
  case (Cons k ks)
  from Cons.prems have "set (keys (dict_pop k d)) \<subseteq> set ks" by (simp only: set_keys_pop) auto
  from Cons.IH [OF this] show ?case by simp
qed simp

lemma shutdown_runs:
  assumes ok: "manager_ok s"
  shows "\<exists>s' new. shutdown_all_instances os s = Some (Inr (), s') \<and> s' = s\<lparr>tracked := [], trace := new @ trace s\<rparr> \<and>
    started new = [] \<and> (\<forall>name r h. dict_get (instances s) name = Some r \<and> dict_get (tracked s) name = Some h \<longrightarrow>
      shut_down os r h s s')"
proof -
  let ?rs = "list_all_records (instances s)"
  have names: "map inst_name ?rs = keys (instances s)" by (rule names_of_records [OF ok])
  with ok have "distinct (map inst_name ?rs)" by (simp add: manager_ok_def)
  from shutdown_each [OF this, of os s] obtain s' new where run:
      "for_each (\<lambda>r. ignoring (\<lambda>_. True) (destroy r)) ?rs os s = Some (Inr (), s')"
      "s' = s\<lparr>tracked := fold dict_pop (map inst_name ?rs) (tracked s), trace := new @ trace s\<rparr>" "started new = []"
      "\<And>r h. r \<in> set ?rs \<Longrightarrow> dict_get (tracked s) (inst_name r) = Some h \<Longrightarrow> shut_down os r h s s'"
    by blast
  have "fold dict_pop (map inst_name ?rs) (tracked s) = []"
    using ok by (intro popped_empty) (simp add: names manager_ok_def)
  moreover have "shut_down os r h s s'"
    if "dict_get (instances s) name = Some r" "dict_get (tracked s) name = Some h" for name r h
  proof (rule run(4))
    from that(1) show "r \<in> set ?rs" by (force simp: list_all_records_def dest: dict_get_in)
    from ok that show "dict_get (tracked s) (inst_name r) = Some h" by (auto simp: manager_ok_def record_ok_def)
  qed
  moreover from run(1) have "shutdown_all_instances os s = Some (Inr (), s')"
    by (simp add: shutdown_all_instances_def bind_gets)
  ultimately have "shutdown_all_instances os s = Some (Inr (), s') \<and> s' = s\<lparr>tracked := [], trace := new @ trace s\<rparr> \<and>
      started new = [] \<and> (\<forall>name r h. dict_get (instances s) name = Some r \<and> dict_get (tracked s) name = Some h \<longrightarrow>
        shut_down os r h s s')" using run(2,3) by simp blast
  then show ?thesis by blast
qed

lemma step_returns: "steady_clock os \<Longrightarrow> \<exists>a s'. step os ev s = Some (a, s')"
  using rpc_returns [of os] by (cases ev) (force simp: step_def elim: terminatesE [OF term_refresh])+

lemma steps_return: "steady_clock os \<Longrightarrow> \<exists>as s'. steps os evs s = Some (as, s')"
proof (induction evs arbitrary: s)
  case (Cons ev evs)
  from step_returns [OF Cons.prems] obtain a s1 where "step os ev s = Some (a, s1)" by blast
  moreover from Cons obtain as s2 where "steps os evs s1 = Some (as, s2)" by blast
  ultimately show ?case by simp
qed simp

section \<open>The life of the server\<close>

text \<open>
  C12. Whatever the operating system answers, whatever is requested and whenever, between two requests, the
  signal comes, the process ends.  With a port that is in use it ends before anything is killed or logged; if it does not come up, it
  does not end with status 0 and has started nothing.  Otherwise it ends with status 0, and in between every
  instance was handed to \<open>destroy\<close> with its processes, also when destroying another one raised; keeper,
  forwarder and emulator of each have been seen to exit, unless its own \<open>destroy\<close> raised; nothing was
  started and nothing is tracked any more, and what is there at the end is what late requests made of it.
\<close>

theorem server_lifetime:
  assumes "steady_clock os" "kill_raises_os_error os"
  shows "\<exists>ended s0. start_up st os = Some (ended, s0) \<and> s0 = (create_manager 8)\<lparr>trace := trace s0\<rparr> \<and> started (trace s0) = [] \<and>
    ((\<exists>e. bind_port st 50061 = Inl e \<or> bind_port st 8080 = Inl e) \<longrightarrow> ended \<noteq> None \<and> trace s0 = []) \<and>
    (case ended of
       Some e \<Rightarrow> e \<noteq> Ended 0 \<and> server_main st os served late = Some (e, s0)
     | None \<Rightarrow> \<exists>as s1 s2 new as' s3. steps os served s0 = Some (as, s1) \<and> manager_ok s1 \<and>
         s2 = s1\<lparr>tracked := [], trace := new @ trace s1\<rparr> \<and> started new = [] \<and>
         (\<forall>name r h. dict_get (instances s1) name = Some r \<and> dict_get (tracked s1) name = Some h \<longrightarrow> shut_down os r h s1 s2) \<and>
         steps os late s2 = Some (as', s3) \<and> server_main st os served late = Some (Ended 0, s3))"
proof -
  from start_up_runs [of st os] obtain ended s0 where start: "start_up st os = Some (ended, s0)"
      "s0 = (create_manager 8)\<lparr>trace := trace s0\<rparr>" "started (trace s0) = []" "ended \<noteq> Some (Ended 0)"
      "(\<exists>e. bind_port st 50061 = Inl e \<or> bind_port st 8080 = Inl e) \<longrightarrow> trace s0 = [] \<and> ended \<noteq> None"
    by blast
  show ?thesis
  proof (cases ended)
    case (Some e)
    with start show ?thesis by (intro exI [of _ ended] exI [of _ s0]) (simp add: server_main_def)
  next
    case None
    have "manager_ok s0" by (subst start(2)) simp
    from steps_ok [OF assms this, of served] obtain as s1 where served: "steps os served s0 = Some (as, s1)" "manager_ok s1" by blast
    from shutdown_runs [OF served(2), of os] obtain s2 new where down: "shutdown_all_instances os s1 = Some (Inr (), s2)"
        "s2 = s1\<lparr>tracked := [], trace := new @ trace s1\<rparr>" "started new = []"
        "\<forall>name r h. dict_get (instances s1) name = Some r \<and> dict_get (tracked s1) name = Some h \<longrightarrow> shut_down os r h s1 s2"
      by blast
    from steps_return [OF assms(1)] obtain as' s3 where late: "steps os late s2 = Some (as', s3)" by blast
    from start(1) None served(1) down(1) late have "server_main st os served late = Some (Ended 0, s3)"
      by (simp add: server_main_def handle_shutdown_def)
    with start None served down(2-4) late show ?thesis
      by (intro exI [of _ None] exI [of _ s0] conjI) (simp_all, blast)
  qed
qed

definition sample_startup :: startup where
  "sample_startup = \<lparr>bind_port = (\<lambda>_. Inr ()), open_log = Inr (), grpc_listens = Inr (), http_listens = Inr ()\<rparr>"

text \<open>On the sample system \<^verbatim>\<open>pgrep\<close> finds one orphan, which is killed.\<close>

lemma sample_start_up:
  "start_up sample_startup sample_os = Some (None, (create_manager 8)\<lparr>trace :=
     [Ran [''kill'', ''-9'', ''1''] None, Ran [''pgrep'', ''-af'', ''emulator.*@''] None]\<rparr>)"
proof -
  have "strip ''1'' = ''1''" "splitlines ''1'' = [''1'']" "first_word ''1'' = Inr ''1''" by code_simp+
  moreover have "run_of sample_os h argv t = Inr \<lparr>returncode = 0, stdout = ''1'', stderr = []\<rparr>" for h argv t
    by (simp add: sample_os_def)
  ultimately show ?thesis
    by (simp add: start_up_def Let_def check_port_free_def sample_startup_def kill_orphan_emulators_def prog_defs)
      (simp add: create_manager_def)
qed

theorem server_lifetime_witness:
  "\<exists>as s1 s2 s3. steps sample_os [Request (CreateReq ''phone'' [] [] False)]
       ((create_manager 8)\<lparr>trace := [Ran [''kill'', ''-9'', ''1''] None, Ran [''pgrep'', ''-af'', ''emulator.*@''] None]\<rparr>) = Some (as, s1) \<and>
     (\<forall>name r h. dict_get (instances s1) name = Some r \<and> dict_get (tracked s1) name = Some h \<longrightarrow> shut_down sample_os r h s1 s2) \<and>
     server_main sample_startup sample_os [Request (CreateReq ''phone'' [] [] False)] [RefreshRound] = Some (Ended 0, s3)"
  using server_lifetime [OF sample_steady sample_kills, of sample_startup "[Request (CreateReq ''phone'' [] [] False)]" "[RefreshRound]"]
  by (simp add: sample_start_up del: steps.simps) blast

section \<open>Requests during the shutdown\<close>

text \<open>
  C13. The instances are destroyed before the gRPC server is stopped, and the list of them is taken once.  An
  instance that is created after that is not destroyed: on a system on which creating succeeds, the process ends with
  status 0 and leaves the new instance with its four processes running and tracked by nobody.
\<close>

theorem late_create_is_left_running:
  assumes "start_up st os = Some (None, s0)" "create_refusal s0 name avd snapshot = None"
    and "willing os name" "gpu_mode_known os (if avd \<noteq> [] then avd else default_avd) (if snapshot \<noteq> [] then snapshot else default_snapshot)"
    and "kill_raises_os_error os"
  shows "\<exists>r i s1. server_main st os [] [Request (CreateReq name avd snapshot head)] = Some (Ended 0, s1) \<and>
    added name i s0 r s1 \<and> inst_state r = RUNNING"
proof -
  from start_up_runs [of st os] assms(1) have s0: "s0 = (create_manager 8)\<lparr>trace := trace s0\<rparr>" by simp
  have ok: "manager_ok s0" by (subst s0) simp
  have vacant: "instances s0 = []" "boot_timeout s0 = 60" "dhu_timeout s0 = 30"
    by (subst s0, simp add: create_manager_def)+
  then have "shutdown_all_instances os s0 = Some (Inr (), s0)"
    by (simp add: shutdown_all_instances_def bind_gets list_all_records_def return_def)
  moreover from create_succeeds_on [OF assms(3-5) ok _ _ assms(2), of head] vacant(2,3) obtain r i s1 where
    "rpc os (CreateReq name avd snapshot head) s0 = Some (Replied (CreateInstanceResponse (record_to_proto r)), s1)"
    "added name i s0 r s1" "inst_state r = RUNNING" by auto
  ultimately show ?thesis using assms(1)
    by (intro exI [of _ r] exI [of _ i] exI [of _ s1]) (simp add: server_main_def handle_shutdown_def step_def)
qed

lemma late_create_is_left_running_witness:
  "\<exists>r i s0 s1. server_main sample_startup sample_os [] [Request (CreateReq ''phone'' [] [] False)] = Some (Ended 0, s1) \<and>
     added ''phone'' i s0 r s1 \<and> inst_state r = RUNNING"
proof -
  have "create_refusal ((create_manager 8)\<lparr>trace :=
      [Ran [''kill'', ''-9'', ''1''] None, Ran [''pgrep'', ''-af'', ''emulator.*@''] None]\<rparr>) ''phone'' [] [] = None" by code_simp
  from late_create_is_left_running [OF sample_start_up this sample_willing sample_gpu_mode sample_kills] show ?thesis by blast
qed

end
