(* ===== verification/Spec2Isabelle.thy ===== *)
theory Spec2Isabelle
  imports Smoke_Test Watchdog Log_Tailer Input_Injector Calibrate Service_Guarantees Lifecycle_Observes Web_Server Golden_Capture Golden_Capture_All Concurrent_Requests Server_Lifetime
begin

text \<open>
  VanPilot lets coding agents show images on a car's display.  Its Python code has four parts, which this
  development models, component by component, in the order the code composes them.

  The \<^emph>\<open>MCP server\<close> (\<^verbatim>\<open>src/mcp\<close>) speaks JSON-RPC over stdin and stdout:
  \<open>Mcp_Server\<close> has the dispatch of \<^verbatim>\<open>server.py\<close> and the schemas of
  \<^verbatim>\<open>tools.py\<close>, \<open>Mcp_Handlers\<close> the module state and the tools of
  \<^verbatim>\<open>handlers.py\<close>, \<open>Png\<close> the writer of \<^verbatim>\<open>png_util.py\<close>, \<open>Calibrate\<close> the
  pattern, the marker search and the transform of \<^verbatim>\<open>calibrate.py\<close>; \<open>Json\<close> and \<open>Base64\<close>
  are the parts of the standard library they use.

  The \<^emph>\<open>supervisor\<close> (\<^verbatim>\<open>src/supervisor\<close>) connects the tools to the Android app:
  \<open>Event_Store\<close> (the log the app polls, with the polling of \<^verbatim>\<open>SyncClient.kt\<close>),
  \<open>Bitmap_Cache\<close>, \<open>Sync_Service\<close> (the RPCs, among them the blocking GetBitmap),
  \<open>Mcp_Bridge\<close> (bridge, display confirmer, configuration, wiring), \<open>Watchdog\<close>,
  \<open>Log_Tailer\<close> and \<open>Input_Injector\<close> (tmux and the injected answers).

  The \<^emph>\<open>instance manager\<close> (\<^verbatim>\<open>src/instance_manager\<close>) runs Android emulators:
  \<open>Port_Allocator\<close> and \<open>Instance_Store\<close> hold its state; \<open>Sys\<close> is the ground of
  everything with an effect: programs over the manager's state and an operating system whose answers
  may depend on all calls before; \<open>Snapshot_Gpu\<close>, \<open>Emulator_Lifecycle\<close> and
  \<open>Emulator_Operations\<close> are \<^verbatim>\<open>emulator_lifecycle.py\<close>, \<open>Video_Capture\<close> is
  \<^verbatim>\<open>video_capture.py\<close>, \<open>Instance_Service\<close> the RPCs, the refresh loop and the clean-up.
  These take requests one at a time; \<open>Concurrent_Requests\<close> has the locked operations of
  \<open>CreateInstance\<close> and \<open>DestroyInstance\<close> as a step relation on the threads of the server, in any
  interleaving, and \<open>Server_Lifetime\<close> the process around it, \<open>main\<close> of
  \<^verbatim>\<open>server.py\<close>, from the test of the ports to the exit status.
  Around the service, \<open>Log_Collector\<close> reads and follows the logs (\<^verbatim>\<open>log_collector.py\<close>),
  \<open>Web_Server\<close> is the dashboard (\<^verbatim>\<open>web_server.py\<close>: its routes, pages and event streams) and
  \<open>Client\<close> the command line client (\<^verbatim>\<open>client.py\<close>), its commands over a stub that is a
  parameter, bound by interpretations to the service (\<open>to_service\<close>) and to the service behind a network that
  may lose a call or its answer or exceed its deadline (\<open>over_network\<close>).  \<open>Service_Names\<close> has what the
  service guarantees about the names of its instances, on which the dashboard's links rest.

  The \<^emph>\<open>goldens and the smoke test\<close>: \<open>Golden_Diff\<close> decodes and compares screenshots
  (\<^verbatim>\<open>golden_diff.py\<close>), \<open>Golden_Harness\<close> is the test harness
  (\<^verbatim>\<open>golden_test_harness.py\<close>), another client of the instance manager, with the order in which
  unittest runs the set-up, the tests and the tear-down of a class; \<open>Golden_Capture\<close> has the scripts
  that drive an emulator through adb (\<^verbatim>\<open>capture_emulator.py\<close>,
  \<^verbatim>\<open>goldens/video_capture.py\<close>), \<open>Golden_Capture_All\<close> the two others
  (\<^verbatim>\<open>capture_all.py\<close>, which cannot be loaded as the harness stands, with the missing functions as
  parameters, and \<^verbatim>\<open>generate_goldens.py\<close>); \<open>Smoke_Test\<close> composes MCP handlers, bridge, event store
  and sync service the way \<^verbatim>\<open>e2e/smoke_test_runner.py\<close> does.

  How the state corresponds: a Python object is a record with its attributes as fields, a \<open>dict\<close> an
  association list in insertion order (\<open>Prelude\<close>), an exception a value of \<open>exn\<close> in a sum,
  a callback the list of the calls it gets.  A thread that blocks is a loop over what it observes
  (\<open>GetBitmap\<close>, \<open>run_loop\<close>, \<open>run_tailer\<close>); a loop that may not end is a
  partial function with \<open>None\<close> for never returning, and that it returns is a theorem, under the
  assumption that the clock moves on at least by the time slept (\<open>steady_clock\<close>).

  What is shown, by group: the event log and the client that polls it (completeness, livelock); the
  watchdog (no false and no missed alarm); caches and the blocking fetch; tailing and injection; JSON-RPC
  (well-formed answers, consistent state, where a request ends the server); PNG decoding and comparison
  against reference definitions (\<open>filter_row\<close>, the encoder of the PNG specification, and
  \<open>largest_gap\<close>, none of them made from the code's own functions); calibration edge by edge.  For the instance manager, \<open>Sys_Logic\<close> is
  the program logic (frame, triple and termination rules in named collections), \<open>Lifecycle_Create\<close>
  shows that a creation has four processes running or has killed all it started,
  \<open>Service_Invariant\<close>, \<open>Service_Create\<close> and \<open>Service_Properties\<close> that every request
  keeps the manager's invariant and returns, \<open>Service_Guarantees\<close> states this over whole runs,
  \<open>Service_Progress\<close> that creating succeeds on an operating system that does what it is asked,
  \<open>Request_Replies\<close> which requests are refused and what the others are answered,
  \<open>Lifecycle_Safety\<close>, \<open>Lifecycle_Observes\<close> and \<open>Capture_Bounds\<close> the safety, the
  observation and the bounds of single operations.  \<open>Concurrent_Requests\<close> shows, by an invariant over the
  reachable states, that concurrent handlers never share ports and lose no slot as long as no two of them work on one
  instance, that with two of them both can happen, and that the sequential handlers are runs of the step relation;
  its invariant is proved on an abstract relation indexed by instances, which the threads refine.
  \<open>Server_Lifetime\<close> shows that the process ends with status 0 only after every instance was handed to
  \<open>destroy\<close>, and that an instance created during the shutdown outlives it.  On top of the service: a stream of a log delivers exactly
  the lines appended to it, and misses a file that replaces the log; every link of the dashboard is a route
  of it, unless a name ends in a line break; the client's exit status and files are what the service answered in time; a golden test passes exactly when
  the screenshot is close enough, and its class leaves no instance behind once set up; a captured golden shows a booted device with the app
  settled, and a recording that is stopped is pulled, removed from the device and forgotten.  \<open>Sample_Os\<close> is the operating system on which
  the witnesses run.

  The interfaces are locales, each interpreted on the model: key-value stores, event sinks and sources,
  record stores, leases of slots, and stubs that answer (\<open>answering_stub\<close>, \<open>steady_service\<close>), the
  latter interpreted on the service itself, with and without the network between.

  Not modelled: gRPC, HTTP and sockets themselves and the threads that run them (but for
  \<open>Concurrent_Requests\<close>, requests are taken one at a time; what a thread sees of another one is an
  input), the contents of protobuf schemas, ffmpeg, adb, tmux and zlib beyond the answers the code relies on, the
  argument parsers, and the start-up of the processes other than the instance manager's.  The golden harness is shown at
  a service whose connection loses and delays nothing; the signal that ends the server comes between two requests; a
  turn of the log stream sees one state of the files; tmux answers with a result, never with an exception of the call itself.
\<close>

end
